(* ===== verification/Prelude.thy ===== *)
theory Prelude
  imports Main "HOL-Library.Word" "HOL-Library.Sublist"
begin

text \<open>
  Shared vocabulary of the development: the result type of fallible Rust code, slicing
  with its panics, substring search, and the generic list lemmas the components rest on.

  A Rust computation ends in one of four ways. It returns \<open>Ok\<close> or \<open>Err\<close>; it panics; or it
  never returns (a spin loop that the environment never releases). All four are values of
  \<open>res\<close>, so a theorem that a call returns says so.
\<close>

section \<open>Results\<close>

datatype ('a, 'e) res = Ok 'a | Err 'e | Panic | Hang

fun bind_res :: "('a, 'e) res \<Rightarrow> ('a \<Rightarrow> ('b, 'e) res) \<Rightarrow> ('b, 'e) res" where
  "bind_res (Ok x) f = f x"
| "bind_res (Err e) f = Err e"
| "bind_res Panic f = Panic"
| "bind_res Hang f = Hang"

text \<open>\<open>Result::map_err\<close>.\<close>

fun map_err :: "('e \<Rightarrow> 'f) \<Rightarrow> ('a, 'e) res \<Rightarrow> ('a, 'f) res" where
  "map_err g (Ok x) = Ok x"
| "map_err g (Err e) = Err (g e)"
| "map_err g Panic = Panic"
| "map_err g Hang = Hang"

text \<open>\<open>Option::ok_or\<close>.\<close>

fun ok_or :: "'e \<Rightarrow> 'a option \<Rightarrow> ('a, 'e) res" where
  "ok_or e None = Err e"
| "ok_or e (Some x) = Ok x"

fun is_ok :: "('a, 'e) res \<Rightarrow> bool" where
  "is_ok (Ok _) = True"
| "is_ok _ = False"

text \<open>\<open>let _ = e;\<close> keeps neither value nor error.\<close>

fun discard :: "('a, 'e) res \<Rightarrow> (unit, 'f) res" where
  "discard (Ok _) = Ok ()"
| "discard (Err _) = Ok ()"
| "discard Panic = Panic"
| "discard Hang = Hang"

text \<open>The value of a loop defined as a partial function: \<open>None\<close> is the run that never ends.\<close>

fun of_loop :: "('a, 'e) res option \<Rightarrow> ('a, 'e) res" where
  "of_loop None = Hang"
| "of_loop (Some r) = r"

text \<open>A result together with the state the computation leaves behind.\<close>

fun bind_st ::
  "('a, 'e) res \<times> 's \<Rightarrow> ('a \<Rightarrow> 's \<Rightarrow> ('b, 'e) res \<times> 's) \<Rightarrow> ('b, 'e) res \<times> 's" where
  "bind_st (Ok x, s) f = f x s"
| "bind_st (Err e, s) f = (Err e, s)"
| "bind_st (Panic, s) f = (Panic, s)"
| "bind_st (Hang, s) f = (Hang, s)"

lemma bind_res_Ok_iff: "bind_res m f = Ok y \<longleftrightarrow> (\<exists>x. m = Ok x \<and> f x = Ok y)"
  by (cases m) auto

lemma bind_res_Err_iff:
  "bind_res m f = Err e \<longleftrightarrow> m = Err e \<or> (\<exists>x. m = Ok x \<and> f x = Err e)"
  by (cases m) auto

lemma bind_res_Panic_iff:
  "bind_res m f = Panic \<longleftrightarrow> m = Panic \<or> (\<exists>x. m = Ok x \<and> f x = Panic)"
  by (cases m) auto

lemma bind_res_Hang_iff:
  "bind_res m f = Hang \<longleftrightarrow> m = Hang \<or> (\<exists>x. m = Ok x \<and> f x = Hang)"
  by (cases m) auto

lemma bind_st_Ok:
  "bind_st x f = (Ok b, y) \<longleftrightarrow> (\<exists>a z. x = (Ok a, z) \<and> f a z = (Ok b, y))"
  by (cases "(x, f)" rule: bind_st.cases) auto

lemma bind_st_Err:
  "bind_st x f = (Err e, y) \<longleftrightarrow> x = (Err e, y) \<or> (\<exists>a z. x = (Ok a, z) \<and> f a z = (Err e, y))"
  by (cases "(x, f)" rule: bind_st.cases) auto

lemma ok_or_Ok_iff [simp]: "ok_or e x = Ok y \<longleftrightarrow> x = Some y"
  by (cases x) auto

lemma ok_or_Err_iff [simp]: "ok_or e x = Err e' \<longleftrightarrow> x = None \<and> e' = e"
  by (cases x) auto

lemma ok_or_not_Panic [simp]: "ok_or e x \<noteq> Panic" "ok_or e x \<noteq> Hang"
  by (cases x; simp)+

lemma map_err_Ok_iff [simp]: "map_err g r = Ok x \<longleftrightarrow> r = Ok x"
  by (cases r) auto

lemma map_err_Panic_iff [simp]: "map_err g r = Panic \<longleftrightarrow> r = Panic"
  by (cases r) auto

lemma discard_simps [simp]:
  "discard r \<noteq> Err e" "discard r = Panic \<longleftrightarrow> r = Panic" "discard r = Hang \<longleftrightarrow> r = Hang"
  "discard r = Ok u \<longleftrightarrow> r \<noteq> Panic \<and> r \<noteq> Hang"
  by (cases r; simp)+

lemma is_ok_iff: "is_ok r \<longleftrightarrow> (\<exists>x. r = Ok x)"
  by (cases r) auto

lemmas bind_res_iffs = bind_res_Ok_iff bind_res_Err_iff bind_res_Panic_iff bind_res_Hang_iff

section \<open>Bytes, indices and machine sizes\<close>

text \<open>
  \<open>u8\<close> is Isabelle's \<open>char\<close>, which is exactly an 8-bit value; a byte slice, a byte vector
  and the UTF-8 bytes of a Rust string are byte lists. Lengths and offsets (\<open>usize\<close>, 64 bits)
  are natural numbers, with the wrap-around of the release profile written out where an
  operation can leave the range.
\<close>

type_synonym u8 = char
type_synonym bytes = "u8 list"

abbreviation byte :: "u8 \<Rightarrow> nat" where
  "byte c \<equiv> of_char c"

definition usize_add :: "nat \<Rightarrow> nat \<Rightarrow> nat" where
  "usize_add a b = (a + b) mod 2 ^ 64"

definition usize_sub :: "nat \<Rightarrow> nat \<Rightarrow> nat" where
  "usize_sub a b = (a + (2 ^ 64 - b)) mod 2 ^ 64"

lemma usize_add_small: "a + b < 2 ^ 64 \<Longrightarrow> usize_add a b = a + b"
  by (simp add: usize_add_def)

lemma usize_sub_small:
  assumes "b \<le> a" and "a < 2 ^ 64"
  shows "usize_sub a b = a - b"
proof -
  have "a + (2 ^ 64 - b) = 2 ^ 64 + (a - b)"
    using assms by linarith
  then have "usize_sub a b = (2 ^ 64 + (a - b)) mod 2 ^ 64"
    by (simp only: usize_sub_def)
  also have "\<dots> = a - b"
    using assms(2) by (simp only: mod_add_self1 mod_less less_imp_diff_less)
  finally show ?thesis .
qed

text \<open>\<open>&xs[a..b]\<close>, and \<open>u32::try_from(n).expect(..)\<close>.\<close>

definition slice_of :: "'a list \<Rightarrow> nat \<Rightarrow> nat \<Rightarrow> ('a list, 'e) res" where
  "slice_of xs a b = (if a \<le> b \<and> b \<le> length xs then Ok (take (b - a) (drop a xs)) else Panic)"

definition u32_expect :: "nat \<Rightarrow> (nat, 'e) res" where
  "u32_expect n = (if n < 2 ^ 32 then Ok n else Panic)"

text \<open>\<open>xs[i]\<close> on a vector.\<close>

definition index :: "'a list \<Rightarrow> nat \<Rightarrow> ('a, 'e) res" where
  "index xs i = (if i < length xs then Ok (xs ! i) else Panic)"

text \<open>\<open>xs[i] = v\<close> on a vector, and a \<open>for\<close> loop over a list of indices that threads a state.\<close>

definition store :: "'a list \<Rightarrow> nat \<Rightarrow> 'a \<Rightarrow> ('a list, 'e) res" where
  "store xs i v = (if i < length xs then Ok (xs[i := v]) else Panic)"

fun for_each :: "nat list \<Rightarrow> (nat \<Rightarrow> 's \<Rightarrow> (unit, 'e) res \<times> 's) \<Rightarrow> 's \<Rightarrow> (unit, 'e) res \<times> 's" where
  "for_each [] f s = (Ok (), s)"
| "for_each (i # is) f s = bind_st (f i s) (\<lambda>_ s. for_each is f s)"

lemma store_Ok [simp]: "i < length xs \<Longrightarrow> store xs i v = Ok (xs[i := v])"
  by (simp add: store_def)

lemma slice_of_Ok [simp]: "a \<le> b \<Longrightarrow> b \<le> length xs \<Longrightarrow> slice_of xs a b = Ok (take (b - a) (drop a xs))"
  by (simp add: slice_of_def)

lemma slice_of_Ok_iff: "slice_of xs a b = Ok ys \<longleftrightarrow> a \<le> b \<and> b \<le> length xs \<and> ys = take (b - a) (drop a xs)"
  by (auto simp: slice_of_def)

lemma slice_of_Panic_iff: "slice_of xs a b = Panic \<longleftrightarrow> \<not> (a \<le> b \<and> b \<le> length xs)"
  by (auto simp: slice_of_def)

lemma slice_of_not_Err [simp]: "slice_of xs a b \<noteq> Err e"
  by (auto simp: slice_of_def)

lemma index_Ok [simp]: "i < length xs \<Longrightarrow> index xs i = Ok (xs ! i)"
  by (simp add: index_def)

lemma index_not_Err [simp]: "index xs i \<noteq> Err e"
  by (simp add: index_def)

lemma u32_expect_Ok [simp]: "n < 2 ^ 32 \<Longrightarrow> u32_expect n = Ok n"
  by (simp add: u32_expect_def)

lemma u32_expect_Ok_iff: "u32_expect n = Ok m \<longleftrightarrow> n < 2 ^ 32 \<and> m = n"
  by (auto simp: u32_expect_def)

lemma u32_expect_not_Err [simp]: "u32_expect n \<noteq> Err e"
  by (auto simp: u32_expect_def)

section \<open>Substring search\<close>

text \<open>
  \<open>find_sub n h\<close> is the position of the first occurrence of \<open>n\<close> in \<open>h\<close>: the value of
  \<open>h.windows(k).position(|w| w == n)\<close> for a needle of length \<open>k > 0\<close> and of \<open>str::find\<close>.
\<close>

definition occurs_at :: "'a list \<Rightarrow> 'a list \<Rightarrow> nat \<Rightarrow> bool" where
  "occurs_at h n i \<longleftrightarrow> i + length n \<le> length h \<and> take (length n) (drop i h) = n"

fun find_sub :: "'a list \<Rightarrow> 'a list \<Rightarrow> nat option" where
  "find_sub n [] = (if n = [] then Some 0 else None)"
| "find_sub n (x # xs) = (if prefix n (x # xs) then Some 0 else map_option Suc (find_sub n xs))"

lemma occurs_at_0: "occurs_at h n 0 \<longleftrightarrow> prefix n h"
  by (auto simp: occurs_at_def prefix_def) (metis append_take_drop_id)

lemma occurs_at_prefix: "occurs_at h n i \<longleftrightarrow> i \<le> length h \<and> prefix n (drop i h)"
proof -
  have "i + length n \<le> length h \<and> take (length n) (drop i h) = n
      \<longleftrightarrow> i \<le> length h \<and> prefix n (drop i h)"
    by (auto simp: prefix_def) (metis append_take_drop_id, metis length_append length_drop le_add1
        le_diff_conv2 add.commute)
  then show ?thesis by (simp add: occurs_at_def)
qed

lemma occurs_at_Suc: "occurs_at (x # h) n (Suc i) \<longleftrightarrow> occurs_at h n i"
  by (simp add: occurs_at_def)

lemma occurs_at_append_shift [simp]: "occurs_at (xs @ h) n (length xs + i) \<longleftrightarrow> occurs_at h n i"
  by (simp add: occurs_at_def add.assoc)

lemma occurs_at_append_left: "occurs_at xs n i \<Longrightarrow> occurs_at (xs @ ys) n i"
  by (simp add: occurs_at_def)

lemma find_sub_Some_iff:
  "find_sub n h = Some i \<longleftrightarrow> occurs_at h n i \<and> (\<forall>j < i. \<not> occurs_at h n j)"
proof (induction h arbitrary: i)
  case Nil
  show ?case by (auto simp: occurs_at_def)
next
  case (Cons x h)
  show ?case
  proof (cases i)
    case 0
    then show ?thesis
      by (auto simp: occurs_at_0 split: option.splits)
  next
    case (Suc k)
    have "(\<forall>j < Suc k. \<not> occurs_at (x # h) n j)
        \<longleftrightarrow> \<not> prefix n (x # h) \<and> (\<forall>j < k. \<not> occurs_at h n j)"
      by (auto simp: occurs_at_0 occurs_at_Suc less_Suc_eq_0_disj)
    with Suc show ?thesis
      using Cons.IH [of k] by (auto simp: occurs_at_Suc)
  qed
qed

lemma find_sub_None_iff: "find_sub n h = None \<longleftrightarrow> (\<forall>j. \<not> occurs_at h n j)"
proof (induction h)
  case Nil
  show ?case by (auto simp: occurs_at_def)
next
  case (Cons x h)
  have "(\<forall>j. \<not> occurs_at (x # h) n j) \<longleftrightarrow> \<not> prefix n (x # h) \<and> (\<forall>j. \<not> occurs_at h n j)"
    by (metis occurs_at_0 occurs_at_Suc not0_implies_Suc)
  with Cons show ?case by auto
qed

text \<open>A needle's first byte fixes where it can start; a byte it lacks separates occurrences.\<close>

lemma occurs_at_nth:
  assumes "occurs_at h (a # n) i"
  shows "i < length h" and "h ! i = a"
proof -
  from assms show "i < length h" by (auto simp: occurs_at_def)
  with assms show "h ! i = a"
    by (auto simp: occurs_at_def dest!: Cons_nth_drop_Suc simp flip: Cons_nth_drop_Suc)
qed

lemma not_occurs_if_head_absent:
  assumes "n \<noteq> []" and "hd n \<notin> set h"
  shows "\<not> occurs_at h n i"
  using assms occurs_at_nth [of h "hd n" "tl n" i] by (metis list.collapse nth_mem)

lemma occurs_at_mem:
  assumes "occurs_at h n i" and "i \<le> k" and "k < i + length n"
  shows "h ! k \<in> set n"
proof -
  have eq: "take (length n) (drop i h) = n" and len: "i + length n \<le> length h"
    using assms(1) by (simp_all add: occurs_at_def)
  have "h ! k = take (length n) (drop i h) ! (k - i)"
    using assms(2,3) len by simp
  also have "\<dots> \<in> set n"
    unfolding eq by (rule nth_mem) (use assms(2,3) in simp)
  finally show ?thesis .
qed

lemma occurs_at_sep:
  assumes n: "n \<noteq> []" and c: "c \<notin> set n"
  shows "occurs_at (xs @ c # ys) n i \<longleftrightarrow>
    occurs_at xs n i \<or> (\<exists>k. i = Suc (length xs) + k \<and> occurs_at ys n k)"
    (is "?L \<longleftrightarrow> ?R")
proof
  assume L: ?L
  have "i + length n \<le> length xs \<or> Suc (length xs) \<le> i"
  proof (rule ccontr)
    assume "\<not> ?thesis"
    then have "i \<le> length xs" "length xs < i + length n" by auto
    from occurs_at_mem [OF L this] c show False by simp
  qed
  then show ?R
  proof
    assume "i + length n \<le> length xs"
    with L show ?thesis by (auto simp: occurs_at_def)
  next
    assume "Suc (length xs) \<le> i"
    then obtain k where k: "i = Suc (length xs) + k" using le_Suc_ex by blast
    with L have "occurs_at ((xs @ [c]) @ ys) n (length (xs @ [c]) + k)" by simp
    then have "occurs_at ys n k" by (simp only: occurs_at_append_shift)
    with k show ?thesis by blast
  qed
next
  assume ?R
  then show ?L
  proof
    assume "occurs_at xs n i"
    then show ?thesis by (rule occurs_at_append_left)
  next
    assume "\<exists>k. i = Suc (length xs) + k \<and> occurs_at ys n k"
    then obtain k where "i = length (xs @ [c]) + k" "occurs_at ys n k" by auto
    then have "occurs_at ((xs @ [c]) @ ys) n i" by (simp only: occurs_at_append_shift)
    then show ?thesis by simp
  qed
qed

lemma find_sub_skip:
  assumes "\<And>j. j < length p \<Longrightarrow> \<not> occurs_at (p @ q) n j"
  shows "find_sub n (p @ q) = map_option (\<lambda>i. length p + i) (find_sub n q)"
  using assms
proof (induction p)
  case Nil
  then show ?case by (simp add: option.map_ident)
next
  case (Cons a p)
  have "\<not> occurs_at (p @ q) n j" if "j < length p" for j
    using Cons.prems [of "Suc j"] that by (simp add: occurs_at_Suc)
  then have "find_sub n (p @ q) = map_option (\<lambda>i. length p + i) (find_sub n q)"
    by (rule Cons.IH)
  moreover have "\<not> prefix n (a # p @ q)"
    using Cons.prems [of 0] by (simp add: occurs_at_0)
  ultimately show ?case by (simp add: option.map_comp comp_def)
qed

lemma find_sub_bound: "find_sub n h = Some i \<Longrightarrow> i + length n \<le> length h"
  by (simp add: find_sub_Some_iff occurs_at_def)

lemma find_sub_split:
  "find_sub n h = Some i \<Longrightarrow> h = take i h @ n @ drop (i + length n) h"
  by (metis append_take_drop_id drop_drop find_sub_Some_iff occurs_at_def add.commute)

end
