(* ===== verification/Rust_Std.thy ===== *)
theory Rust_Std
  imports Prelude
begin

text \<open>
  The parts of the Rust standard library the sources call: \<open>str::from_utf8\<close>, trimming,
  \<open>str::lines\<close>, integer parsing, ASCII case folding, and \<open>std::io::Error\<close> with its kinds.
  A Rust string is the list of its UTF-8 bytes, so string offsets are byte offsets, as in
  the language.
\<close>

section \<open>Byte classes\<close>

abbreviation CR :: u8 where "CR \<equiv> CHR 0x0D"
abbreviation LF :: u8 where "LF \<equiv> CHR 0x0A"
abbreviation SP :: u8 where "SP \<equiv> CHR 0x20"
abbreviation crlf :: bytes where "crlf \<equiv> [CR, LF]"
abbreviation QUOTE :: u8 where "QUOTE \<equiv> CHR 0x22"

definition is_ascii_digit :: "u8 \<Rightarrow> bool" where
  "is_ascii_digit c \<longleftrightarrow> 48 \<le> byte c \<and> byte c \<le> 57"

definition to_ascii_lowercase :: "u8 \<Rightarrow> u8" where
  "to_ascii_lowercase c = (if 65 \<le> byte c \<and> byte c \<le> 90 then char_of (byte c + 32) else c)"

definition eq_ignore_ascii_case :: "bytes \<Rightarrow> bytes \<Rightarrow> bool" where
  "eq_ignore_ascii_case a b \<longleftrightarrow> map to_ascii_lowercase a = map to_ascii_lowercase b"

lemma byte_less [simp]: "byte c < 256"
  by (metis of_char_mod_256 mod_less_divisor zero_less_numeral)

section \<open>UTF-8\<close>

text \<open>
  Well-formed byte sequences, as \<open>str::from_utf8\<close> accepts them: no overlong forms, no
  surrogates, nothing above U+10FFFF.
\<close>

definition utf8_cont :: "u8 \<Rightarrow> bool" where
  "utf8_cont c \<longleftrightarrow> 128 \<le> byte c \<and> byte c \<le> 191"

definition utf8_width :: "u8 \<Rightarrow> nat" where
  "utf8_width a =
     (let n = byte a
      in if n < 0x80 then 1 else if 0xC2 \<le> n \<and> n \<le> 0xDF then 2
         else if 0xE0 \<le> n \<and> n \<le> 0xEF then 3 else if 0xF0 \<le> n \<and> n \<le> 0xF4 then 4 else 0)"

definition utf8_second :: "u8 \<Rightarrow> u8 \<Rightarrow> bool" where
  "utf8_second a b \<longleftrightarrow> utf8_cont b \<and>
     (if byte a = 0xE0 then 0xA0 \<le> byte b
      else if byte a = 0xED then byte b \<le> 0x9F
      else if byte a = 0xF0 then 0x90 \<le> byte b
      else if byte a = 0xF4 then byte b \<le> 0x8F
      else True)"

definition utf8_tail :: "u8 \<Rightarrow> bytes \<Rightarrow> bool" where
  "utf8_tail a ts \<longleftrightarrow> (case ts of [] \<Rightarrow> True | b # cs \<Rightarrow> utf8_second a b \<and> list_all utf8_cont cs)"

text \<open>\<open>utf8_next s\<close> is what follows the first character of \<open>s\<close>, if \<open>s\<close> starts with one.\<close>

definition utf8_next :: "bytes \<Rightarrow> bytes option" where
  "utf8_next s =
     (case s of [] \<Rightarrow> None
      | a # r \<Rightarrow>
        (let k = utf8_width a
         in if k = 0 \<or> length r < k - 1 \<or> \<not> utf8_tail a (take (k - 1) r) then None
            else Some (drop (k - 1) r)))"

lemma utf8_next_length: "utf8_next s = Some r \<Longrightarrow> length r < length s"
  by (auto simp: utf8_next_def Let_def split: list.splits if_splits)

lemma utf8_next_append: "utf8_next s = Some r \<Longrightarrow> utf8_next (s @ t) = Some (r @ t)"
  by (cases s) (auto simp: utf8_next_def Let_def split: if_splits)

function utf8_ok :: "bytes \<Rightarrow> bool" where
  "utf8_ok s = (if s = [] then True else case utf8_next s of None \<Rightarrow> False | Some r \<Rightarrow> utf8_ok r)"
  by pat_completeness auto
termination
  by (relation "measure length") (auto dest: utf8_next_length)

declare utf8_ok.simps [simp del]

definition from_utf8 :: "bytes \<Rightarrow> bytes option" where
  "from_utf8 s = (if utf8_ok s then Some s else None)"

lemma utf8_ok_Nil [simp]: "utf8_ok []"
  by (simp add: utf8_ok.simps)

lemma utf8_ok_append: "utf8_ok s \<Longrightarrow> utf8_ok (s @ t) \<longleftrightarrow> utf8_ok t"
proof (induction s rule: utf8_ok.induct)
  case (1 s)
  show ?case
  proof (cases "s = []")
    case False
    with "1.prems" obtain r where r: "utf8_next s = Some r" and ok: "utf8_ok r"
      by (auto simp: utf8_ok.simps [of s] split: option.splits)
    have "utf8_ok (s @ t) \<longleftrightarrow> utf8_ok (r @ t)"
      using False utf8_next_append [OF r, of t] by (simp add: utf8_ok.simps [of "s @ t"])
    also have "\<dots> \<longleftrightarrow> utf8_ok t"
      using "1.IH" [OF False r ok] .
    finally show ?thesis .
  qed simp
qed

lemma utf8_ok_ascii_Cons [simp]: "byte c < 128 \<Longrightarrow> utf8_ok (c # s) \<longleftrightarrow> utf8_ok s"
  by (simp add: utf8_ok.simps [of "c # s"] utf8_next_def utf8_width_def utf8_tail_def)

lemma utf8_ok_ascii: "(\<forall>c \<in> set s. byte c < 128) \<Longrightarrow> utf8_ok s"
  by (induction s) auto

section \<open>Trimming\<close>

text \<open>The UTF-8 forms of the characters with the Unicode property White\_Space.\<close>

definition white_space :: "bytes list" where
  "white_space = [[CHR 0x20], [CHR 0x09], [CHR 0x0A], [CHR 0x0B], [CHR 0x0C], [CHR 0x0D],
     [CHR 0xC2, CHR 0x85], [CHR 0xC2, CHR 0xA0], [CHR 0xE1, CHR 0x9A, CHR 0x80],
     [CHR 0xE2, CHR 0x80, CHR 0x80], [CHR 0xE2, CHR 0x80, CHR 0x81], [CHR 0xE2, CHR 0x80, CHR 0x82],
     [CHR 0xE2, CHR 0x80, CHR 0x83], [CHR 0xE2, CHR 0x80, CHR 0x84], [CHR 0xE2, CHR 0x80, CHR 0x85],
     [CHR 0xE2, CHR 0x80, CHR 0x86], [CHR 0xE2, CHR 0x80, CHR 0x87], [CHR 0xE2, CHR 0x80, CHR 0x88],
     [CHR 0xE2, CHR 0x80, CHR 0x89], [CHR 0xE2, CHR 0x80, CHR 0x8A], [CHR 0xE2, CHR 0x80, CHR 0xA8],
     [CHR 0xE2, CHR 0x80, CHR 0xA9], [CHR 0xE2, CHR 0x80, CHR 0xAF], [CHR 0xE2, CHR 0x81, CHR 0x9F],
     [CHR 0xE3, CHR 0x80, CHR 0x80]]"

function strip_all :: "bytes list \<Rightarrow> bytes \<Rightarrow> bytes" where
  "strip_all ps s =
     (case find (\<lambda>p. prefix p s) ps of
        Some p \<Rightarrow> if p = [] then s else strip_all ps (drop (length p) s)
      | None \<Rightarrow> s)"
  by pat_completeness auto
termination
  by (relation "measure (\<lambda>(ps, s). length s)") (auto simp: find_Some_iff prefix_def)

declare strip_all.simps [simp del]

definition trim_start :: "bytes \<Rightarrow> bytes" where
  "trim_start s = strip_all white_space s"

definition trim_end :: "bytes \<Rightarrow> bytes" where
  "trim_end s = rev (strip_all (map rev white_space) (rev s))"

definition trim :: "bytes \<Rightarrow> bytes" where
  "trim s = trim_end (trim_start s)"

lemma strip_all_stop: "\<forall>p \<in> set ps. \<not> prefix p s \<Longrightarrow> strip_all ps s = s"
  by (subst strip_all.simps) (auto simp: find_Some_iff split: option.splits)

lemma strip_all_single:
  assumes "[c] \<in> set ps" and "\<forall>p \<in> set ps. p \<noteq> [] \<and> (hd p = c \<longrightarrow> p = [c])"
  shows "strip_all ps (c # s) = strip_all ps s"
proof -
  have "find (\<lambda>p. prefix p (c # s)) ps \<noteq> None"
    using assms(1) by (auto simp: find_None_iff)
  then obtain p where p: "find (\<lambda>p. prefix p (c # s)) ps = Some p" by auto
  then have "p \<in> set ps" "prefix p (c # s)" by (auto simp: find_Some_iff)
  with assms(2) have "p = [c]" by (cases p) auto
  with p show ?thesis by (subst strip_all.simps) simp
qed

lemma trim_start_SP [simp]: "trim_start (SP # s) = trim_start s"
  unfolding trim_start_def by (rule strip_all_single) (simp_all add: white_space_def)

lemma trim_end_SP [simp]: "trim_end (s @ [SP]) = trim_end s"
  unfolding trim_end_def rev_append
  by (simp, rule strip_all_single) (simp_all add: white_space_def)

lemma trim_end_SPs [simp]: "trim_end (s @ replicate k SP) = trim_end s"
proof (induction k)
  case (Suc k)
  have "s @ replicate (Suc k) SP = (s @ replicate k SP) @ [SP]"
    by (simp add: replicate_append_same)
  with Suc show ?case by (simp only: trim_end_SP)
qed simp

text \<open>Visible ASCII is not white space at either end.\<close>

definition visible :: "u8 \<Rightarrow> bool" where
  "visible c \<longleftrightarrow> 0x20 < byte c \<and> byte c < 0x7F"

lemma white_space_heads: "p \<in> set white_space \<Longrightarrow> p \<noteq> [] \<and> \<not> visible (hd p) \<and> \<not> visible (last p)"
  by (auto simp: white_space_def visible_def)

lemma trim_start_visible: "visible c \<Longrightarrow> trim_start (c # s) = c # s"
  unfolding trim_start_def
  by (rule strip_all_stop) (metis white_space_heads prefix_Cons list.sel(1))

lemma trim_end_visible: "visible c \<Longrightarrow> trim_end (s @ [c]) = s @ [c]"
proof -
  assume c: "visible c"
  have "strip_all (map rev white_space) (c # rev s) = c # rev s"
  proof (rule strip_all_stop, intro ballI notI)
    fix p assume p: "p \<in> set (map rev white_space)" and pre: "prefix p (c # rev s)"
    from p obtain q where q: "p = rev q" "q \<in> set white_space" by auto
    with white_space_heads [of q] have "p \<noteq> []" "\<not> visible (hd p)" by (auto simp: hd_rev)
    with pre c show False by (auto simp: prefix_Cons)
  qed
  then show ?thesis by (simp add: trim_end_def)
qed

section \<open>Lines\<close>

text \<open>\<open>str::lines\<close>: split after each line feed, then drop the line feed and a carriage return before it.\<close>

fun split_inclusive :: "u8 \<Rightarrow> bytes \<Rightarrow> bytes list" where
  "split_inclusive c [] = []"
| "split_inclusive c (x # xs) =
     (if x = c then [x] # split_inclusive c xs
      else case split_inclusive c xs of [] \<Rightarrow> [[x]] | l # ls \<Rightarrow> (x # l) # ls)"

definition strip_suffix :: "u8 \<Rightarrow> bytes \<Rightarrow> bytes option" where
  "strip_suffix c s = (if s \<noteq> [] \<and> last s = c then Some (butlast s) else None)"

definition strip_eol :: "bytes \<Rightarrow> bytes" where
  "strip_eol l =
     (case strip_suffix LF l of None \<Rightarrow> l
      | Some l' \<Rightarrow> (case strip_suffix CR l' of None \<Rightarrow> l' | Some l'' \<Rightarrow> l''))"

definition lines :: "bytes \<Rightarrow> bytes list" where
  "lines s = map strip_eol (split_inclusive LF s)"

lemma split_inclusive_line:
  "c \<notin> set l \<Longrightarrow> split_inclusive c (l @ c # s) = (l @ [c]) # split_inclusive c s"
  by (induction l) auto

lemma strip_eol_crlf: "CR \<notin> set l \<Longrightarrow> strip_eol (l @ crlf) = l"
  by (simp add: strip_eol_def strip_suffix_def butlast_append)

lemma lines_Nil [simp]: "lines [] = []"
  by (simp add: lines_def)

lemma lines_crlf:
  assumes "LF \<notin> set l" and "CR \<notin> set l"
  shows "lines (l @ crlf @ s) = l # lines s"
proof -
  have "split_inclusive LF ((l @ [CR]) @ LF # s) = ((l @ [CR]) @ [LF]) # split_inclusive LF s"
    by (rule split_inclusive_line) (use assms in simp)
  with strip_eol_crlf [OF assms(2)] show ?thesis by (simp add: lines_def)
qed

section \<open>Integers in decimal\<close>

fun digits_val :: "nat \<Rightarrow> bytes \<Rightarrow> nat option" where
  "digits_val acc [] = Some acc"
| "digits_val acc (c # cs) =
     (if is_ascii_digit c then digits_val (acc * 10 + (byte c - 48)) cs else None)"

text \<open>\<open>usize::from_str\<close> and its kin: an optional \<open>+\<close>, at least one digit, in range.\<close>

definition parse_unsigned :: "nat \<Rightarrow> bytes \<Rightarrow> nat option" where
  "parse_unsigned bound s =
     (let ds = (case s of c # r \<Rightarrow> if c = CHR ''+'' then r else s | [] \<Rightarrow> [])
      in if ds = [] then None
         else case digits_val 0 ds of
                None \<Rightarrow> None
              | Some v \<Rightarrow> if v < bound then Some v else None)"

definition parse_usize :: "bytes \<Rightarrow> nat option" where
  "parse_usize s = parse_unsigned (2 ^ 64) s"

text \<open>\<open>i64::from_str\<close>: an optional sign, at least one digit, in range.\<close>

definition parse_i64 :: "bytes \<Rightarrow> int option" where
  "parse_i64 s =
     (case s of
        [] \<Rightarrow> None
      | c # r \<Rightarrow>
        (if c = CHR ''-'' then
           (if r = [] then None
            else case digits_val 0 r of
                   None \<Rightarrow> None
                 | Some v \<Rightarrow> if v \<le> 2 ^ 63 then Some (- int v) else None)
         else map_option int (parse_unsigned (2 ^ 63) s)))"

text \<open>Decimal notation, the reference the hand-written digit loop is compared with.\<close>

definition digit_char :: "nat \<Rightarrow> u8" where
  "digit_char d = char_of (48 + d)"

fun decimal :: "nat \<Rightarrow> bytes" where
  "decimal n = (if n < 10 then [digit_char n] else decimal (n div 10) @ [digit_char (n mod 10)])"

declare decimal.simps [simp del]

definition decimal_int :: "int \<Rightarrow> bytes" where
  "decimal_int z = (if z < 0 then CHR ''-'' # decimal (nat (- z)) else decimal (nat z))"

lemma byte_digit_char [simp]: "d < 10 \<Longrightarrow> byte (digit_char d) = 48 + d"
  by (simp add: digit_char_def)

lemma digit_char_digit [simp]: "d < 10 \<Longrightarrow> is_ascii_digit (digit_char d)"
  by (simp add: is_ascii_digit_def)

lemma digits_val_append:
  "digits_val acc (xs @ ys) = Option.bind (digits_val acc xs) (\<lambda>v. digits_val v ys)"
  by (induction xs arbitrary: acc) auto

lemma digits_val_decimal: "digits_val 0 (decimal n) = Some n"
proof (induction n rule: decimal.induct)
  case (1 n)
  show ?case
  proof (cases "n < 10")
    case True
    then show ?thesis by (simp add: decimal.simps [of n])
  next
    case False
    with "1.IH" show ?thesis
      by (simp add: decimal.simps [of n] digits_val_append)
  qed
qed

lemma decimal_digits: "c \<in> set (decimal n) \<Longrightarrow> is_ascii_digit c"
proof (induction n rule: decimal.induct)
  case (1 n)
  then show ?case
    by (cases "n < 10") (auto simp: decimal.simps [of n])
qed

lemma decimal_chars: "c \<in> set (decimal n) \<Longrightarrow> byte c < 128 \<and> c \<noteq> CR \<and> c \<noteq> LF"
  using decimal_digits [of c n] by (auto simp: is_ascii_digit_def)

lemma decimal_not_Nil [simp]: "decimal n \<noteq> []"
  by (simp add: decimal.simps [of n])

lemma length_decimal_le: "0 < k \<Longrightarrow> n < 10 ^ k \<Longrightarrow> length (decimal n) \<le> k"
proof (induction k arbitrary: n)
  case (Suc k)
  show ?case
  proof (cases "n < 10")
    case True
    then show ?thesis by (simp add: decimal.simps [of n])
  next
    case False
    with Suc.prems have k: "0 < k" by (cases k) auto
    have "n div 10 < 10 ^ k" using Suc.prems by (simp add: less_mult_imp_div_less mult.commute)
    with Suc.IH [OF k] False show ?thesis by (simp add: decimal.simps [of n])
  qed
qed simp

lemma digit_visible: "is_ascii_digit c \<Longrightarrow> visible c"
  by (simp add: is_ascii_digit_def visible_def)

lemma digit_not_sign: "is_ascii_digit c \<Longrightarrow> c \<noteq> CHR ''+'' \<and> c \<noteq> CHR ''-''"
  by (auto simp: is_ascii_digit_def)

lemma parse_unsigned_decimal: "n < b \<Longrightarrow> parse_unsigned b (decimal n) = Some n"
proof -
  assume n: "n < b"
  obtain c r where cr: "decimal n = c # r"
    by (cases "decimal n") auto
  then have "is_ascii_digit c" using decimal_digits [of c n] by simp
  with n cr digits_val_decimal [of n] show ?thesis
    by (auto simp: parse_unsigned_def dest: digit_not_sign)
qed

lemma parse_usize_decimal: "n < 2 ^ 64 \<Longrightarrow> parse_usize (decimal n) = Some n"
  by (simp add: parse_usize_def parse_unsigned_decimal)

lemma parse_usize_less: "parse_usize v = Some n \<Longrightarrow> n < 2 ^ 64"
  by (auto simp: parse_usize_def parse_unsigned_def Let_def split: if_splits option.splits)

lemma parse_i64_decimal:
  assumes "- (2 ^ 63) \<le> z" and "z < 2 ^ 63"
  shows "parse_i64 (decimal_int z) = Some z"
proof (cases "z < 0")
  case True
  have "nat (- z) \<le> 2 ^ 63" using assms True by (simp add: nat_le_iff)
  with True show ?thesis
    by (simp add: parse_i64_def decimal_int_def digits_val_decimal)
next
  case False
  obtain c r where cr: "decimal (nat z) = c # r"
    by (cases "decimal (nat z)") auto
  then have "is_ascii_digit c" using decimal_digits [of c "nat z"] by simp
  moreover have "nat z < 2 ^ 63" using assms False by (simp add: nat_less_iff)
  ultimately show ?thesis
    using False cr parse_unsigned_decimal [of "nat z" "2 ^ 63"]
    by (auto simp: parse_i64_def decimal_int_def dest: digit_not_sign)
qed

lemma trim_decimal_padded: "trim (SP # decimal n @ replicate k SP) = decimal n"
proof -
  obtain c r where cr: "decimal n = c # r"
    by (cases "decimal n") auto
  obtain r' d where rd: "decimal n = r' @ [d]"
    by (cases "decimal n" rule: rev_cases) auto
  have "c \<in> set (decimal n)" using cr by simp
  moreover have "d \<in> set (decimal n)" unfolding rd by simp
  ultimately have "visible c" "visible d"
    by (blast intro: digit_visible decimal_digits)+
  have "trim_start (decimal n @ replicate k SP) = decimal n @ replicate k SP"
    unfolding cr using \<open>visible c\<close> by (simp add: trim_start_visible)
  moreover have "trim_end (decimal n) = decimal n"
    unfolding rd using \<open>visible d\<close> by (simp add: trim_end_visible)
  ultimately show ?thesis by (simp add: trim_def)
qed

section \<open>I/O errors\<close>

text \<open>
  \<open>std::io::ErrorKind\<close> with the kinds the sources name; every other kind is \<open>OtherKind\<close>.
  An error is an errno from the operating system, a bare kind (\<open>io::Error::from(kind)\<close>) or a
  kind with a payload (\<open>io::Error::new\<close>, \<open>io::Error::other\<close>).
\<close>

datatype error_kind =
    UnexpectedEof | BrokenPipe | ConnectionReset | ConnectionAborted | WouldBlock | Interrupted
  | Unsupported | InvalidInput | WriteZero | PermissionDenied | OtherKind

datatype io_error = Os nat | Simple error_kind | Custom error_kind string

definition EPERM :: nat where [simp]: "EPERM = 1"
definition EINTR :: nat where [simp]: "EINTR = 4"
definition EAGAIN :: nat where [simp]: "EAGAIN = 11"
definition EACCES :: nat where [simp]: "EACCES = 13"
definition EINVAL :: nat where [simp]: "EINVAL = 22"
definition EPIPE :: nat where [simp]: "EPIPE = 32"
definition ENOSYS :: nat where [simp]: "ENOSYS = 38"
definition ECONNABORTED :: nat where [simp]: "ECONNABORTED = 103"
definition ECONNRESET :: nat where [simp]: "ECONNRESET = 104"

definition decode_error_kind :: "nat \<Rightarrow> error_kind" where
  "decode_error_kind n =
     (if n = EAGAIN then WouldBlock else if n = EINTR then Interrupted
      else if n = EPIPE then BrokenPipe else if n = ECONNRESET then ConnectionReset
      else if n = ECONNABORTED then ConnectionAborted else if n = ENOSYS then Unsupported
      else if n = EINVAL then InvalidInput
      else if n = EPERM \<or> n = EACCES then PermissionDenied else OtherKind)"

fun kind :: "io_error \<Rightarrow> error_kind" where
  "kind (Os n) = decode_error_kind n"
| "kind (Simple k) = k"
| "kind (Custom k _) = k"

fun raw_os_error :: "io_error \<Rightarrow> nat option" where
  "raw_os_error (Os n) = Some n"
| "raw_os_error _ = None"

end
