(* ===== verification/Core_Types.thy ===== *)
theory Core_Types
  imports Rust_Std
begin

text \<open>
  The data every component shares: the error enums of \<open>error.rs\<close>, jobs and provider ids of
  \<open>job.rs\<close>, outcomes of \<open>sink.rs\<close>, the provider configuration of \<open>provider/mod.rs\<close> and the
  health records of \<open>transport/health.rs\<close>. Time stamps and ids are 64-bit words, provider ids
  16-bit words; \<open>String\<close> payloads are byte lists.
\<close>

section \<open>Errors\<close>

datatype envelope_error =
    BodySentinelMissing
  | BodyMaxTooSmall nat nat
  | BodyTooLarge nat nat
  | ContentLengthOverflow nat nat
  | UnknownUserSlot bytes
  | UserSlotOverflow bytes nat nat

datatype transport_error =
    ConnectErr io_error
  | Io io_error
  | Tls bytes
  | Quic bytes
  | EnvelopeErr envelope_error
  | Closed
  | Failover
  | Tpa int

datatype trigger_error = Backpressure

datatype sender_error =
    NoProviders
  | NoSource
  | NoSink
  | NoTransport
  | NoTls
  | UnsupportedErr io_error
  | SConnect "16 word" transport_error
  | QuicConfig "16 word" bytes

section \<open>Jobs and providers\<close>

definition MAX_TX_LEN :: nat where
  "MAX_TX_LEN = 1232"

record job =
  job_id :: "64 word"
  job_ctx :: "64 word"

type_synonym provider_id = "16 word"

definition provider_of_index :: "nat \<Rightarrow> provider_id" where
  "provider_of_index i = of_nat i"

definition provider_idx :: "provider_id \<Rightarrow> nat" where
  "provider_idx p = unat p"

lemma provider_idx_of_index: "i < 2 ^ 16 \<Longrightarrow> provider_idx (provider_of_index i) = i"
  by (simp add: provider_idx_def provider_of_index_def unat_of_nat take_bit_nat_eq_self)

section \<open>Outcomes\<close>

datatype outcome_kind =
    Accepted bytes
  | Rejected int bytes
  | Transport transport_error
  | NoResponse

record provider_outcome =
  po_job :: "64 word"
  po_provider :: provider_id
  po_kind :: outcome_kind
  po_sent_at :: "64 word"
  po_settled_at :: "64 word"

section \<open>Provider configuration\<close>

datatype protocol = Http_Protocol | Quic_Protocol

datatype http_auth =
    NoAuth
  | HeaderAuth bytes bytes
  | UrlParamAuth bytes bytes
  | UrlPathAuth bytes

record http_endpoint =
  ep_host :: bytes
  ep_port :: "16 word"
  ep_path :: bytes
  ep_server_name :: bytes

text \<open>\<open>std::net::SocketAddr\<close>: the octets and the port, with flow info and scope id for V6.\<close>

datatype socket_addr =
    V4 "u8 list" "16 word"
  | V6 "u8 list" "16 word" "32 word" "32 word"

fun sa_port :: "socket_addr \<Rightarrow> 16 word" where
  "sa_port (V4 _ p) = p"
| "sa_port (V6 _ p _ _) = p"

record quic_endpoint =
  qe_addr :: socket_addr
  qe_server_name :: bytes

record quic_profile =
  alpn :: bytes
  idle_timeout_ms :: nat
  keepalive_interval_secs :: nat
  max_streams_uni :: nat

definition profile_soyas :: quic_profile where
  "profile_soyas = \<lparr>alpn = ''solana-tpu'', idle_timeout_ms = 300000,
     keepalive_interval_secs = 30, max_streams_uni = 1000000\<rparr>"

definition profile_speedlanding :: quic_profile where
  "profile_speedlanding = \<lparr>alpn = ''solana-tpu'', idle_timeout_ms = 300000,
     keepalive_interval_secs = 30, max_streams_uni = 1000000\<rparr>"

definition profile_falcon :: quic_profile where
  "profile_falcon = \<lparr>alpn = ''falcon-tx'', idle_timeout_ms = 30000,
     keepalive_interval_secs = 25, max_streams_uni = 64\<rparr>"

datatype quic_auth =
    Ed25519Keypair bytes
  | FalconApiKey bytes
  | NoCert

text \<open>
  \<open>codec\<close> is the \<open>ResponseCodec\<close> trait object of the provider: a function from the response
  body to an outcome.
\<close>

type_synonym response_codec = "bytes \<Rightarrow> outcome_kind"

record provider_config =
  pc_protocol :: protocol
  pc_endpoint :: http_endpoint
  pc_quic_endpoint :: "quic_endpoint option"
  pc_quic_profile :: "quic_profile option"
  pc_quic_auth :: "quic_auth option"
  pc_auth :: http_auth
  pc_max_body :: nat
  pc_body_template :: bytes
  pc_codec :: response_codec

section \<open>Health records\<close>

record hist_snapshot =
  p50 :: "64 word"
  p99 :: "64 word"
  p99_9 :: "64 word"
  hs_max :: "64 word"
  hs_count :: "64 word"

definition hist_default :: hist_snapshot where
  "hist_default = \<lparr>p50 = 0, p99 = 0, p99_9 = 0, hs_max = 0, hs_count = 0\<rparr>"

record worker_diag =
  wd_alive :: bool
  wd_jobs_sent :: "64 word"
  wd_fill_ns :: hist_snapshot
  wd_submit_ns :: hist_snapshot

definition diag_default :: worker_diag where
  "diag_default = \<lparr>wd_alive = False, wd_jobs_sent = 0,
     wd_fill_ns = hist_default, wd_submit_ns = hist_default\<rparr>"

record provider_health_entry =
  he_provider_idx :: nat
  he_alive :: bool
  he_jobs_sent :: "64 word"
  he_fill_ns :: hist_snapshot
  he_submit_ns :: hist_snapshot

end
