(* ===== verification/Spsc.thy ===== *)
theory Spsc
  imports Core_Types
begin

text \<open>
  The single-producer single-consumer channel of \<open>rt/spsc.rs\<close>: a ring buffer of the crate
  \<open>rtrb\<close> with a counter that the producer bumps on every successful push. The ring is a
  parameter, the record \<open>ring_ops\<close>; what \<open>rtrb\<close> documents about it is the locale \<open>rtrb_ring\<close>.
  The two handles of a channel share one ring and one counter, which are the channel's state.
\<close>

section \<open>The channel\<close>

text \<open>\<open>Result<(), PushError<T>>\<close>, and the calls the wrapper makes on the ring.\<close>

datatype 'a push_result = Pushed | Full 'a

record ('q, 'a) ring_ops =
  ring_new :: "nat \<Rightarrow> 'q"
  ring_push :: "'a \<Rightarrow> 'q \<Rightarrow> 'a push_result \<times> 'q"
  ring_pop :: "'q \<Rightarrow> 'a option \<times> 'q"
  ring_is_empty :: "'q \<Rightarrow> bool"

record 'q spsc =
  inner :: 'q
  counter :: "64 word"

definition notifier_new :: "64 word" where
  "notifier_new = 0"

definition notify :: "64 word \<Rightarrow> 64 word" where
  "notify c = c + 1"

definition channel :: "('q, 'a) ring_ops \<Rightarrow> nat \<Rightarrow> 'q spsc" where
  "channel R capacity = \<lparr>inner = ring_new R capacity, counter = notifier_new\<rparr>"

definition try_push :: "('q, 'a) ring_ops \<Rightarrow> 'a \<Rightarrow> 'q spsc \<Rightarrow> (unit, 'a) res \<times> 'q spsc" where
  "try_push R value ch =
     (case ring_push R value (inner ch) of
        (Pushed, q) \<Rightarrow> (Ok (), ch\<lparr>inner := q, counter := notify (counter ch)\<rparr>)
      | (Full v, q) \<Rightarrow> (Err v, ch\<lparr>inner := q\<rparr>))"

definition try_pop :: "('q, 'a) ring_ops \<Rightarrow> 'q spsc \<Rightarrow> 'a option \<times> 'q spsc" where
  "try_pop R ch = (case ring_pop R (inner ch) of (x, q) \<Rightarrow> (x, ch\<lparr>inner := q\<rparr>))"

definition is_empty :: "('q, 'a) ring_ops \<Rightarrow> 'q spsc \<Rightarrow> bool" where
  "is_empty R ch = ring_is_empty R (inner ch)"

section \<open>The queue interface\<close>

text \<open>
  What the users of a channel rely on. \<open>items\<close> is what is queued, oldest first, and \<open>sent\<close> the
  number of successful pushes modulo \<open>2 ^ 64\<close>.
\<close>

locale spsc_queue =
  fixes push :: "'a \<Rightarrow> 'c \<Rightarrow> (unit, 'a) res \<times> 'c"
    and pop :: "'c \<Rightarrow> 'a option \<times> 'c"
    and empty :: "'c \<Rightarrow> bool"
    and items :: "'c \<Rightarrow> 'a list"
    and cap :: "'c \<Rightarrow> nat"
    and sent :: "'c \<Rightarrow> 64 word"
  assumes push_result: "fst (push v c) = (if length (items c) < cap c then Ok () else Err v)"
    and push_items: "items (snd (push v c)) = (if length (items c) < cap c then items c @ [v] else items c)"
    and push_cap: "cap (snd (push v c)) = cap c"
    and push_sent: "sent (snd (push v c)) = (if length (items c) < cap c then sent c + 1 else sent c)"
    and pop_result: "fst (pop c) = (case items c of [] \<Rightarrow> None | x # _ \<Rightarrow> Some x)"
    and pop_items: "items (snd (pop c)) = tl (items c)"
    and pop_cap: "cap (snd (pop c)) = cap c"
    and pop_sent: "sent (snd (pop c)) = sent c"
    and empty_items: "empty c \<longleftrightarrow> items c = []"
begin

lemma push_ok_iff: "is_ok (fst (push v c)) \<longleftrightarrow> length (items c) < cap c"
  by (simp add: push_result)

lemma push_bound: "length (items c) \<le> cap c \<Longrightarrow> length (items (snd (push v c))) \<le> cap c"
  by (simp add: push_items)

lemma pop_Some: "items c = x # xs \<Longrightarrow> \<exists>c'. pop c = (Some x, c') \<and> items c' = xs \<and> cap c' = cap c \<and> sent c' = sent c"
  using pop_result [of c] pop_items [of c] pop_cap [of c] pop_sent [of c] by (cases "pop c") auto

lemma pop_None: "items c = [] \<Longrightarrow> \<exists>c'. pop c = (None, c') \<and> items c' = [] \<and> cap c' = cap c \<and> sent c' = sent c"
  using pop_result [of c] pop_items [of c] pop_cap [of c] pop_sent [of c] by (cases "pop c") auto

end

section \<open>The contract of the ring\<close>

locale rtrb_ring =
  fixes R :: "('q, 'a) ring_ops"
    and ring_items :: "'q \<Rightarrow> 'a list"
    and ring_cap :: "'q \<Rightarrow> nat"
  assumes new_items: "ring_items (ring_new R n) = []"
    and new_cap: "ring_cap (ring_new R n) = n"
    and ring_push_room: "length (ring_items q) < ring_cap q \<Longrightarrow>
      \<exists>q'. ring_push R v q = (Pushed, q') \<and> ring_items q' = ring_items q @ [v] \<and> ring_cap q' = ring_cap q"
    and ring_push_full: "\<not> length (ring_items q) < ring_cap q \<Longrightarrow>
      \<exists>q'. ring_push R v q = (Full v, q') \<and> ring_items q' = ring_items q \<and> ring_cap q' = ring_cap q"
    and ring_pop_some: "ring_items q = x # xs \<Longrightarrow>
      \<exists>q'. ring_pop R q = (Some x, q') \<and> ring_items q' = xs \<and> ring_cap q' = ring_cap q"
    and ring_pop_none: "ring_items q = [] \<Longrightarrow>
      \<exists>q'. ring_pop R q = (None, q') \<and> ring_items q' = [] \<and> ring_cap q' = ring_cap q"
    and ring_is_empty_iff: "ring_is_empty R q \<longleftrightarrow> ring_items q = []"
begin

lemma try_push_room:
  "length (ring_items (inner c)) < ring_cap (inner c) \<Longrightarrow>
   \<exists>c'. try_push R v c = (Ok (), c') \<and> ring_items (inner c') = ring_items (inner c) @ [v]
      \<and> ring_cap (inner c') = ring_cap (inner c) \<and> counter c' = counter c + 1"
  using ring_push_room [of "inner c" v] by (auto simp: try_push_def notify_def)

lemma try_push_full:
  "\<not> length (ring_items (inner c)) < ring_cap (inner c) \<Longrightarrow>
   \<exists>c'. try_push R v c = (Err v, c') \<and> ring_items (inner c') = ring_items (inner c)
      \<and> ring_cap (inner c') = ring_cap (inner c) \<and> counter c' = counter c"
  using ring_push_full [of "inner c" v] by (auto simp: try_push_def)

lemma try_pop_some:
  "ring_items (inner c) = x # xs \<Longrightarrow>
   \<exists>c'. try_pop R c = (Some x, c') \<and> ring_items (inner c') = xs
      \<and> ring_cap (inner c') = ring_cap (inner c) \<and> counter c' = counter c"
  using ring_pop_some [of "inner c" x xs] by (auto simp: try_pop_def)

lemma try_pop_none:
  "ring_items (inner c) = [] \<Longrightarrow>
   \<exists>c'. try_pop R c = (None, c') \<and> ring_items (inner c') = []
      \<and> ring_cap (inner c') = ring_cap (inner c) \<and> counter c' = counter c"
  using ring_pop_none [of "inner c"] by (auto simp: try_pop_def)

end

text \<open>The channel over any such ring is a queue.\<close>

sublocale rtrb_ring \<subseteq> chan: spsc_queue "try_push R" "try_pop R" "is_empty R"
    "\<lambda>c. ring_items (inner c)" "\<lambda>c. ring_cap (inner c)" counter
proof
  fix v c
  show "fst (try_push R v c) = (if length (ring_items (inner c)) < ring_cap (inner c) then Ok () else Err v)"
    and "ring_items (inner (snd (try_push R v c)))
      = (if length (ring_items (inner c)) < ring_cap (inner c) then ring_items (inner c) @ [v]
         else ring_items (inner c))"
    and "ring_cap (inner (snd (try_push R v c))) = ring_cap (inner c)"
    and "counter (snd (try_push R v c))
      = (if length (ring_items (inner c)) < ring_cap (inner c) then counter c + 1 else counter c)"
    using try_push_room [of c v] try_push_full [of c v]
    by (cases "length (ring_items (inner c)) < ring_cap (inner c)"; auto)+
next
  fix c
  show "fst (try_pop R c) = (case ring_items (inner c) of [] \<Rightarrow> None | x # _ \<Rightarrow> Some x)"
    and "ring_items (inner (snd (try_pop R c))) = tl (ring_items (inner c))"
    and "ring_cap (inner (snd (try_pop R c))) = ring_cap (inner c)"
    and "counter (snd (try_pop R c)) = counter c"
    using try_pop_none [of c] try_pop_some [of c] by (cases "ring_items (inner c)"; force)+
  show "is_empty R c \<longleftrightarrow> ring_items (inner c) = []"
    by (simp add: is_empty_def ring_is_empty_iff)
qed

section \<open>Histories\<close>

text \<open>
  Any interleaving of the producer's and the consumer's calls: the values the producer got
  accepted, the values the consumer received, and the channel afterwards.
\<close>

datatype 'a chan_op = Push 'a | Pop

fun chan_run :: "('q, 'a) ring_ops \<Rightarrow> 'a chan_op list \<Rightarrow> 'q spsc \<Rightarrow> 'a list \<times> 'a list \<times> 'q spsc" where
  "chan_run R [] ch = ([], [], ch)"
| "chan_run R (Push v # ops) ch =
     (case try_push R v ch of (r, ch1) \<Rightarrow>
      case chan_run R ops ch1 of (pushed, popped, ch2) \<Rightarrow>
        (if is_ok r then v # pushed else pushed, popped, ch2))"
| "chan_run R (Pop # ops) ch =
     (case try_pop R ch of (x, ch1) \<Rightarrow>
      case chan_run R ops ch1 of (pushed, popped, ch2) \<Rightarrow>
        (pushed, (case x of None \<Rightarrow> popped | Some v \<Rightarrow> v # popped), ch2))"

context rtrb_ring
begin

lemma chan_run_fifo:
  assumes "chan_run R ops ch = (pushed, popped, ch')"
  shows "ring_items (inner ch) @ pushed = popped @ ring_items (inner ch')
    \<and> ring_cap (inner ch') = ring_cap (inner ch) \<and> counter ch' = counter ch + of_nat (length pushed)"
  using assms
proof (induction ops arbitrary: ch pushed popped)
  case Nil
  then show ?case by simp
next
  case (Cons op ops)
  show ?case
  proof (cases op)
    case (Push v)
    obtain r ch1 where p: "try_push R v ch = (r, ch1)" by force
    obtain us os where rest: "chan_run R ops ch1 = (us, os, ch')" "popped = os"
      "pushed = (if is_ok r then v # us else us)"
      using Cons.prems Push p by (auto split: prod.splits)
    from Cons.IH [OF rest(1)] chan.push_result [of v ch] chan.push_items [of v ch]
      chan.push_cap [of v ch] chan.push_sent [of v ch] p rest
    show ?thesis by (auto split: if_splits)
  next
    case Pop
    obtain x ch1 where p: "try_pop R ch = (x, ch1)" by force
    obtain us os where rest: "chan_run R ops ch1 = (us, os, ch')" "pushed = us"
      "popped = (case x of None \<Rightarrow> os | Some v \<Rightarrow> v # os)"
      using Cons.prems Pop p by (auto split: prod.splits)
    from Cons.IH [OF rest(1)] chan.pop_result [of ch] chan.pop_items [of ch]
      chan.pop_cap [of ch] chan.pop_sent [of ch] p rest
    show ?thesis by (auto split: list.splits)
  qed
qed

lemma chan_run_bound:
  assumes "chan_run R ops ch = (pushed, popped, ch')"
    and "length (ring_items (inner ch)) \<le> ring_cap (inner ch)"
  shows "length (ring_items (inner ch')) \<le> ring_cap (inner ch')"
  using assms
proof (induction ops arbitrary: ch pushed popped)
  case (Cons op ops)
  show ?case
  proof (cases op)
    case (Push v)
    obtain us os where "chan_run R ops (snd (try_push R v ch)) = (us, os, ch')"
      using Cons.prems(1) Push by (auto split: prod.splits)
    then show ?thesis
      by (rule Cons.IH) (use Cons.prems(2) in \<open>simp add: chan.push_items chan.push_cap\<close>)
  next
    case Pop
    obtain us os where "chan_run R ops (snd (try_pop R ch)) = (us, os, ch')"
      using Cons.prems(1) Pop by (auto split: prod.splits)
    then show ?thesis
      by (rule Cons.IH) (use Cons.prems(2) in \<open>simp add: chan.pop_items chan.pop_cap\<close>)
  qed
qed simp

end

text \<open>A ring kept as a list: the instance the contract is checked on.\<close>

definition list_ring :: "(nat \<times> 'a list, 'a) ring_ops" where
  "list_ring = \<lparr>ring_new = (\<lambda>n. (n, [])),
     ring_push = (\<lambda>v (n, xs). if length xs < n then (Pushed, (n, xs @ [v])) else (Full v, (n, xs))),
     ring_pop = (\<lambda>(n, xs). case xs of [] \<Rightarrow> (None, (n, [])) | x # ys \<Rightarrow> (Some x, (n, ys))),
     ring_is_empty = (\<lambda>(n, xs). xs = [])\<rparr>"

interpretation lr: rtrb_ring list_ring snd fst
  by unfold_locales (auto simp: list_ring_def split: list.splits)

section \<open>Properties\<close>

text \<open>
  C22. A channel is a bounded FIFO that loses and duplicates nothing: after any interleaving
  of pushes and pops on a new channel of capacity \<open>n\<close>, the accepted values are the received
  values followed by the values still queued, in order; at most \<open>n\<close> are queued; the counter
  that idle consumers watch has been bumped once per accepted value; and the next push is
  refused exactly if \<open>n\<close> values are queued, handing the value back.
\<close>

theorem channel_fifo:
  assumes "rtrb_ring R ring_items ring_cap" and "chan_run R ops (channel R n) = (pushed, popped, ch)"
  shows "pushed = popped @ ring_items (inner ch) \<and> length (ring_items (inner ch)) \<le> n
    \<and> counter ch = of_nat (length pushed)
    \<and> fst (try_push R v ch) = (if length (ring_items (inner ch)) < n then Ok () else Err v)"
proof -
  have new: "ring_items (inner (channel R n)) = []" "ring_cap (inner (channel R n)) = n"
    "counter (channel R n) = 0"
    using rtrb_ring.new_items [OF assms(1)] rtrb_ring.new_cap [OF assms(1)]
    by (simp_all add: channel_def notifier_new_def)
  from rtrb_ring.chan_run_fifo [OF assms] rtrb_ring.chan_run_bound [OF assms]
    rtrb_ring.try_push_room [OF assms(1), of ch v] rtrb_ring.try_push_full [OF assms(1), of ch v] new
  show ?thesis by (cases "length (ring_items (inner ch)) < n") auto
qed

theorem channel_fifo_witness:
  "[1, 2] = [1 :: nat] @ [2] \<and> length [2 :: nat] \<le> 1 \<and> counter \<lparr>inner = (1, [2 :: nat]), counter = 2\<rparr> = 2
    \<and> fst (try_push list_ring 5 \<lparr>inner = (1, [2 :: nat]), counter = 2\<rparr>) = Err 5"
proof -
  have "chan_run list_ring [Push 1, Push 9, Pop, Push (2 :: nat)] (channel list_ring 1)
      = ([1, 2], [1], \<lparr>inner = (1, [2]), counter = 2\<rparr>)"
    by (simp add: list_ring_def channel_def notifier_new_def try_push_def try_pop_def notify_def)
  from channel_fifo [OF lr.rtrb_ring_axioms this, of 5] show ?thesis by simp
qed

end
