(* ===== verification/Idle_Wait.thy ===== *)
theory Idle_Wait
  imports Core_Types
begin

unbundle bit_operations_syntax

text \<open>
  The low-power wait of \<open>rt/wait.rs\<close>. The processor is a parameter: \<open>hw_ops\<close> holds one entry per
  instruction the inline assembly issues, the volatile read, and the load and store of the static
  byte in which the detected backend is cached. The state they act on, the world, is whatever the
  threads of the process share with each other and with the machine.
\<close>

section \<open>Operations\<close>

record 'w hw_ops =
  cpuid_ecx :: "32 word \<Rightarrow> 32 word \<Rightarrow> 32 word"
  hw_rdtsc :: "'w \<Rightarrow> 64 word \<times> 'w"
  hw_monitorx :: "nat \<Rightarrow> 32 word \<Rightarrow> 32 word \<Rightarrow> 'w \<Rightarrow> 'w"
  hw_mwaitx :: "32 word \<Rightarrow> 32 word \<Rightarrow> 'w \<Rightarrow> 'w"
  hw_umonitor :: "nat \<Rightarrow> 'w \<Rightarrow> 'w"
  hw_umwait :: "32 word \<Rightarrow> 32 word \<Rightarrow> 'w \<Rightarrow> 'w"
  hw_spin :: "'w \<Rightarrow> 'w"
  read_volatile :: "nat \<Rightarrow> 'w \<Rightarrow> 64 word \<times> 'w"
  cached_load :: "'w \<Rightarrow> 8 word"
  cached_store :: "8 word \<Rightarrow> 'w \<Rightarrow> 'w"

definition rdtsc :: "'w hw_ops \<Rightarrow> 'w \<Rightarrow> 64 word \<times> 'w" where
  "rdtsc H w = hw_rdtsc H w"

definition monitorx :: "'w hw_ops \<Rightarrow> nat \<Rightarrow> 'w \<Rightarrow> 'w" where
  "monitorx H addr w = hw_monitorx H addr 0 0 w"

definition umonitor :: "'w hw_ops \<Rightarrow> nat \<Rightarrow> 'w \<Rightarrow> 'w" where
  "umonitor H addr w = hw_umonitor H addr w"

text \<open>The timeout is passed in \<open>ebx\<close>; bit 1 of \<open>ecx\<close> enables it.\<close>

definition mwaitx :: "'w hw_ops \<Rightarrow> 32 word \<Rightarrow> 'w \<Rightarrow> 'w" where
  "mwaitx H timeout_tsc w =
     (if timeout_tsc > 0 then hw_mwaitx H 2 timeout_tsc w else hw_mwaitx H 0 0 w)"

text \<open>The deadline is passed in \<open>edx:eax\<close>.\<close>

definition umwait :: "'w hw_ops \<Rightarrow> 64 word \<Rightarrow> 'w \<Rightarrow> 'w" where
  "umwait H deadline_tsc w =
     (let lo = ucast deadline_tsc :: 32 word; hi = ucast (drop_bit 32 deadline_tsc) :: 32 word
      in hw_umwait H hi lo w)"

datatype idle_backend = AmdMwaitx | IntelUmwait | SpinLoop

fun backend_code :: "idle_backend \<Rightarrow> 8 word" where
  "backend_code AmdMwaitx = 1"
| "backend_code IntelUmwait = 2"
| "backend_code SpinLoop = 3"

definition detect_backend_cpuid :: "'w hw_ops \<Rightarrow> idle_backend" where
  "detect_backend_cpuid H =
     (if cpuid_ecx H 0x80000001 0 AND push_bit 29 1 \<noteq> 0 then AmdMwaitx
      else if cpuid_ecx H 7 0 AND push_bit 5 1 \<noteq> 0 then IntelUmwait
      else SpinLoop)"

definition detect_backend :: "'w hw_ops \<Rightarrow> 'w \<Rightarrow> idle_backend \<times> 'w" where
  "detect_backend H w =
     (let v = cached_load H w
      in if v \<noteq> 0
         then (if v = 1 then AmdMwaitx else if v = 2 then IntelUmwait else SpinLoop, w)
         else let backend = detect_backend_cpuid H
              in (backend, cached_store H (backend_code backend) w))"

definition DEFAULT_TIMEOUT_TSC :: "32 word" where
  "DEFAULT_TIMEOUT_TSC = 100000"

text \<open>\<open>spin_reads n\<close>: up to \<open>n\<close> rounds of the fallback loop, which stops at the first changed value.\<close>

fun spin_reads :: "'w hw_ops \<Rightarrow> nat \<Rightarrow> 64 word \<Rightarrow> nat \<Rightarrow> 'w \<Rightarrow> 'w" where
  "spin_reads H addr initial 0 w = w"
| "spin_reads H addr initial (Suc n) w =
     (case read_volatile H addr (hw_spin H w) of (v, w') \<Rightarrow>
        if v \<noteq> initial then w' else spin_reads H addr initial n w')"

definition idle_wait :: "'w hw_ops \<Rightarrow> nat \<Rightarrow> ('w \<Rightarrow> bool) \<Rightarrow> 'w \<Rightarrow> 'w" where
  "idle_wait H addr condition_still_true w =
     (case detect_backend H w of (b, w) \<Rightarrow>
        (case b of
           AmdMwaitx \<Rightarrow>
             (let w = monitorx H addr w
              in if condition_still_true w then mwaitx H DEFAULT_TIMEOUT_TSC w else w)
         | IntelUmwait \<Rightarrow>
             (let w = umonitor H addr w
              in if condition_still_true w
                 then (case rdtsc H w of (t, w) \<Rightarrow> umwait H (t + ucast DEFAULT_TIMEOUT_TSC) w)
                 else w)
         | SpinLoop \<Rightarrow>
             (case read_volatile H addr w of (initial, w) \<Rightarrow> spin_reads H addr initial 256 w)))"

text \<open>A processor on which every instruction is without effect, for worlds that hold none.\<close>

definition null_hw :: "'w hw_ops" where
  "null_hw = \<lparr>cpuid_ecx = (\<lambda>_ _. 0), hw_rdtsc = (\<lambda>w. (0, w)), hw_monitorx = (\<lambda>_ _ _ w. w),
     hw_mwaitx = (\<lambda>_ _ w. w), hw_umonitor = (\<lambda>_ w. w), hw_umwait = (\<lambda>_ _ w. w), hw_spin = (\<lambda>w. w),
     read_volatile = (\<lambda>_ w. (0, w)), cached_load = (\<lambda>_. 1), cached_store = (\<lambda>_ w. w)\<rparr>"

lemma null_hw_rdtsc [simp]: "hw_rdtsc null_hw w = (0, w)"
  by (simp add: null_hw_def)

lemma idle_wait_null [simp]: "idle_wait null_hw addr cond w = w"
  by (simp add: idle_wait_def detect_backend_def null_hw_def mwaitx_def monitorx_def)

section \<open>Properties\<close>

text \<open>The processor as a log of the instructions issued, with a clock and the cached byte.\<close>

datatype instr = Monitorx nat | Mwaitx "32 word" | Umonitor nat | Umwait "64 word" | Read nat

record log_world =
  lw_log :: "instr list"
  lw_tsc :: "64 word"
  lw_cached :: "8 word"
  lw_mem :: "64 word"

definition log_hw :: "(32 word \<Rightarrow> 32 word \<Rightarrow> 32 word) \<Rightarrow> log_world hw_ops" where
  "log_hw cpu = \<lparr>cpuid_ecx = cpu,
     hw_rdtsc = (\<lambda>w. (lw_tsc w, w\<lparr>lw_tsc := lw_tsc w + 1\<rparr>)),
     hw_monitorx = (\<lambda>a _ _ w. w\<lparr>lw_log := lw_log w @ [Monitorx a]\<rparr>),
     hw_mwaitx = (\<lambda>c b w. w\<lparr>lw_log := lw_log w @ [Mwaitx b]\<rparr>),
     hw_umonitor = (\<lambda>a w. w\<lparr>lw_log := lw_log w @ [Umonitor a]\<rparr>),
     hw_umwait = (\<lambda>hi lo w. w\<lparr>lw_log := lw_log w @ [Umwait (push_bit 32 (ucast hi) OR ucast lo)]\<rparr>),
     hw_spin = (\<lambda>w. w),
     read_volatile = (\<lambda>a w. (lw_mem w, w\<lparr>lw_log := lw_log w @ [Read a]\<rparr>)),
     cached_load = lw_cached,
     cached_store = (\<lambda>v w. w\<lparr>lw_cached := v\<rparr>)\<rparr>"

lemma log_hw_sel [simp]:
  "hw_rdtsc (log_hw cpu) w = (lw_tsc w, w\<lparr>lw_tsc := lw_tsc w + 1\<rparr>)"
  "monitorx (log_hw cpu) a w = w\<lparr>lw_log := lw_log w @ [Monitorx a]\<rparr>"
  "hw_mwaitx (log_hw cpu) c b w = w\<lparr>lw_log := lw_log w @ [Mwaitx b]\<rparr>"
  "umonitor (log_hw cpu) a w = w\<lparr>lw_log := lw_log w @ [Umonitor a]\<rparr>"
  "hw_umwait (log_hw cpu) hi lo w = w\<lparr>lw_log := lw_log w @ [Umwait (push_bit 32 (ucast hi) OR ucast lo)]\<rparr>"
  "hw_spin (log_hw cpu) w = w"
  "read_volatile (log_hw cpu) a w = (lw_mem w, w\<lparr>lw_log := lw_log w @ [Read a]\<rparr>)"
  "cached_load (log_hw cpu) w = lw_cached w"
  "cached_store (log_hw cpu) v w = w\<lparr>lw_cached := v\<rparr>"
  by (simp_all add: log_hw_def monitorx_def umonitor_def)

lemma split_64: "push_bit 32 (ucast (ucast (drop_bit 32 d) :: 32 word)) OR ucast (ucast d :: 32 word) = (d :: 64 word)"
  by (rule bit_word_eqI) (auto simp: bit_simps)

lemma detect_backend_fresh:
  "cached_load H w = 0 \<Longrightarrow> detect_backend H w
     = (detect_backend_cpuid H, cached_store H (backend_code (detect_backend_cpuid H)) w)"
  by (simp add: detect_backend_def Let_def)

lemma detect_backend_cached:
  "cached_load H w = backend_code b \<Longrightarrow> detect_backend H w = (b, w)"
  by (cases b) (auto simp: detect_backend_def)

lemma spin_reads_log:
  "lw_log (spin_reads (log_hw cpu) addr (lw_mem w) n w) = lw_log w @ replicate n (Read addr)"
proof (induction n arbitrary: w)
  case (Suc n)
  have "spin_reads (log_hw cpu) addr (lw_mem w) n (w\<lparr>lw_log := lw_log w @ [Read addr]\<rparr>)
    = spin_reads (log_hw cpu) addr (lw_mem (w\<lparr>lw_log := lw_log w @ [Read addr]\<rparr>)) n
        (w\<lparr>lw_log := lw_log w @ [Read addr]\<rparr>)" by simp
  then show ?case using Suc [of "w\<lparr>lw_log := lw_log w @ [Read addr]\<rparr>"] by simp
qed simp


text \<open>
  The backend is detected once: given that the static byte holds what was stored last, a
  first call on a process that has not looked yet returns what \<open>cpuid\<close> says, and every later
  call returns the same backend without changing anything.
\<close>

theorem detect_backend_stable:
  assumes "\<And>v w. cached_load H (cached_store H v w) = v" and "cached_load H w = 0"
  shows "fst (detect_backend H w) = detect_backend_cpuid H
    \<and> detect_backend H (snd (detect_backend H w)) = detect_backend H w"
  using assms by (simp add: detect_backend_fresh detect_backend_cached)

theorem detect_backend_stable_witness:
  "fst (detect_backend (log_hw (\<lambda>_ _. 0x20)) \<lparr>lw_log = [], lw_tsc = 0, lw_cached = 0, lw_mem = 0\<rparr>)
     = IntelUmwait"
  using detect_backend_stable [of "log_hw (\<lambda>_ _. 0x20)" "\<lparr>lw_log = [], lw_tsc = 0, lw_cached = 0, lw_mem = 0\<rparr>"]
  by (simp add: log_hw_def detect_backend_cpuid_def)

end
