(* ===== verification/Response.thy ===== *)
theory Response
  imports Core_Types
begin

text \<open>
  The JSON-RPC response codec of \<open>provider/response.rs\<close>: it does not parse JSON, it searches
  the text for quoted keys and reads the value behind the next colon.
\<close>

section \<open>The codec\<close>

definition quoted :: "bytes \<Rightarrow> bytes" where
  "quoted key = QUOTE # key @ [QUOTE]"

text \<open>
  \<open>text.find(&needle)\<close> and \<open>after.find(':')\<close> work on valid UTF-8 with an ASCII needle, where the
  byte positions of matches are always character boundaries; the slices cannot panic.
\<close>

definition json_value_after :: "bytes \<Rightarrow> bytes \<Rightarrow> bytes option" where
  "json_value_after body key =
     (case from_utf8 body of
        None \<Rightarrow> None
      | Some text \<Rightarrow>
        (let needle = quoted key
         in case find_sub needle text of
              None \<Rightarrow> None
            | Some key_pos \<Rightarrow>
              (let after = drop (key_pos + length needle) text
               in case find_sub [CHR '':''] after of
                    None \<Rightarrow> None
                  | Some colon \<Rightarrow> Some (trim_start (drop (colon + 1) after)))))"

definition json_string_after :: "bytes \<Rightarrow> bytes \<Rightarrow> bytes option" where
  "json_string_after body key =
     (case json_value_after body key of
        Some (q # rest) \<Rightarrow>
          if q = QUOTE then map_option (\<lambda>e. take e rest) (find_sub [QUOTE] rest) else None
      | _ \<Rightarrow> None)"

definition json_i64_after :: "bytes \<Rightarrow> bytes \<Rightarrow> int option" where
  "json_i64_after body key =
     (case json_value_after body key of
        None \<Rightarrow> None
      | Some rest \<Rightarrow> parse_i64 (takeWhile (\<lambda>c. is_ascii_digit c \<or> c = CHR ''-'') rest))"

definition json_rpc_parse :: response_codec where
  "json_rpc_parse body =
     (case json_string_after body ''result'' of
        Some sig \<Rightarrow> Accepted sig
      | None \<Rightarrow>
        if find_sub (quoted ''error'') body \<noteq> None
        then Rejected (case json_i64_after body ''code'' of Some c \<Rightarrow> c | None \<Rightarrow> 0)
                      (case json_string_after body ''message'' of Some s \<Rightarrow> s | None \<Rightarrow> [])
        else NoResponse)"

section \<open>Reading one value\<close>

lemma find_sub_single: "c \<notin> set xs \<Longrightarrow> find_sub [c] (xs @ c # ys) = Some (length xs)"
  by (induction xs) auto

lemma json_value_after_at:
  assumes "utf8_ok body" and "find_sub (quoted key) body = Some (length pre)"
    and "body = pre @ quoted key @ gap @ CHR '':'' # rest" and "CHR '':'' \<notin> set gap"
  shows "json_value_after body key = Some (trim_start rest)"
proof -
  have "drop (length pre + length (quoted key)) body = gap @ CHR '':'' # rest"
    unfolding assms(3) by simp
  with find_sub_single [OF assms(4), of rest] assms(1,2) show ?thesis
    by (simp add: json_value_after_def from_utf8_def Let_def)
qed

lemma trim_start_SPs: "trim_start (replicate k SP @ s) = trim_start s"
  by (induction k) auto

lemma json_string_after_at:
  assumes "json_value_after body key = Some (trim_start (replicate k SP @ QUOTE # v @ QUOTE # post))"
    and "QUOTE \<notin> set v"
  shows "json_string_after body key = Some v"
proof -
  have "visible QUOTE" by (simp add: visible_def)
  from trim_start_visible [OF this] have "trim_start (QUOTE # v @ QUOTE # post) = QUOTE # v @ QUOTE # post" .
  with assms find_sub_single [OF assms(2), of post] show ?thesis
    by (simp add: json_string_after_def trim_start_SPs)
qed

lemma takeWhile_number:
  assumes "\<not> is_ascii_digit c" "c \<noteq> CHR ''-''"
  shows "takeWhile (\<lambda>c. is_ascii_digit c \<or> c = CHR ''-'') (decimal_int z @ c # post) = decimal_int z"
  using assms by (subst takeWhile_append2) (auto simp: decimal_int_def dest: decimal_digits split: if_splits)

lemma decimal_int_Cons: "\<exists>c cs. decimal_int z = c # cs \<and> visible c"
proof (cases "z < 0")
  case False
  obtain c cs where c: "decimal (nat z) = c # cs" by (cases "decimal (nat z)") auto
  then have "is_ascii_digit c" using decimal_digits [of c "nat z"] by simp
  with False c show ?thesis by (simp add: decimal_int_def is_ascii_digit_def visible_def)
qed (simp add: decimal_int_def visible_def)

lemma json_i64_after_at:
  assumes "json_value_after body key = Some (trim_start (decimal_int z @ c # post))"
    and "\<not> is_ascii_digit c" "c \<noteq> CHR ''-''" and "- (2 ^ 63) \<le> z" "z < 2 ^ 63"
  shows "json_i64_after body key = Some z"
proof -
  obtain d ds where "decimal_int z = d # ds" "visible d" using decimal_int_Cons by blast
  then have "trim_start (decimal_int z @ c # post) = decimal_int z @ c # post"
    by (simp add: trim_start_visible)
  with assms(1) takeWhile_number [OF assms(2,3), of z post] parse_i64_decimal [OF assms(4,5)]
  show ?thesis by (simp add: json_i64_after_def)
qed

section \<open>Properties\<close>

text \<open>
  C27. A response is reported as accepted with the string behind its first \<open>"result"\<close> key:
  whatever precedes the key (as long as it does not contain it), whatever stands between
  the key and its colon, any number of blanks before the value, and whatever follows it, an
  \<open>"error"\<close> member included.
\<close>

theorem parse_result:
  assumes "utf8_ok body" and "find_sub (quoted ''result'') body = Some (length pre)"
    and "body = pre @ quoted ''result'' @ gap @ CHR '':'' # replicate k SP @ QUOTE # sig @ QUOTE # post"
    and "CHR '':'' \<notin> set gap" and "QUOTE \<notin> set sig"
  shows "json_rpc_parse body = Accepted sig"
  using json_string_after_at [OF json_value_after_at [OF assms(1-4)] assms(5)]
  by (simp add: json_rpc_parse_def)

theorem parse_result_witness:
  \<open>json_rpc_parse ''{"error":{"data":{"result":"x"}}}'' = Accepted ''x''\<close>
  by (rule parse_result [where pre = \<open>''{"error":{"data":{''\<close> and gap = "[]" and k = 0 and post = \<open>''}}}''\<close>])
     (simp_all add: quoted_def utf8_ok_ascii_Cons)

text \<open>The error response of the JSON-RPC providers.\<close>

definition error_body :: "int \<Rightarrow> bytes \<Rightarrow> bytes" where
  \<open>error_body code msg = ''{"jsonrpc":"2.0","error":{"code":'' @ decimal_int code
     @ '',"message":"'' @ msg @ ''"},"id":1}''\<close>

lemma find_sub_skip_absent:
  assumes "n \<noteq> []" and "hd n \<notin> set p"
  shows "find_sub n (p @ q) = map_option (\<lambda>i. length p + i) (find_sub n q)"
proof (rule find_sub_skip)
  fix j assume j: "j < length p"
  show "\<not> occurs_at (p @ q) n j"
    using occurs_at_nth [of "p @ q" "hd n" "tl n" j] assms j by (metis list.collapse nth_append nth_mem)
qed

lemma decimal_int_ascii: "c \<in> set (decimal_int z) \<Longrightarrow> byte c < 128 \<and> c \<noteq> QUOTE"
  by (auto simp: decimal_int_def is_ascii_digit_def dest!: decimal_digits split: if_splits)

lemma prefix_quoted_tail:
  "QUOTE \<notin> set msg \<Longrightarrow> QUOTE \<notin> set key \<Longrightarrow> prefix (key @ [QUOTE]) (msg @ QUOTE # r) \<longleftrightarrow> msg = key"
proof (induction key arbitrary: msg)
  case Nil
  then show ?case by (cases msg) auto
next
  case (Cons a key)
  then show ?case by (cases msg) auto
qed

lemma utf8_error_body: "utf8_ok msg \<Longrightarrow> utf8_ok (error_body code msg)"
  using decimal_int_ascii
  by (simp add: error_body_def utf8_ok_append utf8_ok_ascii_Cons utf8_ok_ascii)


lemma find_in_error_body:
  assumes "QUOTE \<notin> set msg"
  shows "find_sub (quoted ''error'') (error_body code msg) = Some 17"
    and "find_sub (quoted ''code'') (error_body code msg) = Some 26"
    and "find_sub (quoted ''message'') (error_body code msg) = Some (34 + length (decimal_int code))"
    and "find_sub (quoted ''result'') (error_body code msg) =
      (if msg = ''result'' then Some (44 + length (decimal_int code)) else None)"
proof -
  have skip: "find_sub (QUOTE # n) (decimal_int code @ q)
      = map_option (\<lambda>i. length (decimal_int code) + i) (find_sub (QUOTE # n) q)"
    "find_sub (QUOTE # n) (msg @ q) = map_option (\<lambda>i. length msg + i) (find_sub (QUOTE # n) q)" for n q
    by (rule find_sub_skip_absent; use assms decimal_int_ascii in force)+
  note tail = prefix_quoted_tail [OF assms, of "''result''", simplified]
  show "find_sub (quoted ''error'') (error_body code msg) = Some 17"
    by (simp add: quoted_def error_body_def)
  show "find_sub (quoted ''code'') (error_body code msg) = Some 26"
    by (simp add: quoted_def error_body_def)
  show "find_sub (quoted ''message'') (error_body code msg) = Some (34 + length (decimal_int code))"
    by (simp add: quoted_def error_body_def skip)
  show "find_sub (quoted ''result'') (error_body code msg) =
      (if msg = ''result'' then Some (44 + length (decimal_int code)) else None)"
    by (simp add: quoted_def error_body_def skip tail)
qed


lemma no_result_in_error_body:
  assumes "utf8_ok msg" and "QUOTE \<notin> set msg"
  shows "json_string_after (error_body code msg) ''result'' = None"
proof (cases "msg = ''result''")
  case True
  have "json_value_after (error_body code msg) ''result'' = Some (trim_start ''1}'')"
    by (rule json_value_after_at [where gap = \<open>''},"id"''\<close>
          and pre = \<open>''{"jsonrpc":"2.0","error":{"code":'' @ decimal_int code @ '',"message":''\<close>])
       (use True find_in_error_body(4) [OF assms(2)] utf8_error_body [OF assms(1)] in
         \<open>simp_all add: quoted_def error_body_def\<close>)
  moreover have "visible (CHR ''1'')" by (simp add: visible_def)
  ultimately show ?thesis by (simp add: json_string_after_def trim_start_visible)
next
  case False
  with find_in_error_body(4) [OF assms(2)] show ?thesis
    by (simp add: json_string_after_def json_value_after_def from_utf8_def utf8_error_body assms(1))
qed



end
