(* ===== verification/Result_Lane.thy ===== *)
theory Result_Lane
  imports Spsc Idle_Wait Response
begin

text \<open>
  The result lane of \<open>result_lane.rs\<close>: one thread that pops raw responses from one ring per
  provider, turns each into an outcome with that provider's codec and calls the user's sink.
\<close>

section \<open>Raw responses\<close>

definition RESP_CAP :: nat where
  "RESP_CAP = 1024"

definition RESULT_RING :: nat where
  "RESULT_RING = 256"

record raw_resp =
  rr_job :: "64 word"
  rr_provider :: provider_id
  rr_sent_tsc :: "64 word"
  rr_settled_tsc :: "64 word"
  rr_bytes :: bytes
  rr_outcome_hint :: "outcome_kind option"

definition raw_resp_new :: raw_resp where
  "raw_resp_new = \<lparr>rr_job = 0, rr_provider = 0, rr_sent_tsc = 0, rr_settled_tsc = 0,
     rr_bytes = [], rr_outcome_hint = None\<rparr>"

definition parse_one :: "raw_resp \<Rightarrow> response_codec \<Rightarrow> provider_outcome" where
  "parse_one resp codec =
     (let k = (if rr_outcome_hint resp = Some NoResponse then NoResponse else codec (rr_bytes resp))
      in \<lparr>po_job = rr_job resp, po_provider = rr_provider resp, po_kind = k,
          po_sent_at = rr_sent_tsc resp, po_settled_at = rr_settled_tsc resp\<rparr>)"

section \<open>The lane\<close>

text \<open>
  The lane's environment: the processor, the stop flag, the user's sink, and the address of the
  first ring's counter.
\<close>

record 'w lane_env =
  lane_hw :: "'w hw_ops"
  lane_stop :: "'w \<Rightarrow> bool"
  on_result :: "provider_outcome \<Rightarrow> 'w \<Rightarrow> 'w"
  lane_addr :: nat

record 'q result_lane =
  lane_rings :: "'q spsc list"
  lane_codecs :: "response_codec list"

definition lane_new :: "'q spsc list \<Rightarrow> response_codec list \<Rightarrow> 'q result_lane" where
  "lane_new rings codecs = \<lparr>lane_rings = rings, lane_codecs = codecs\<rparr>"

text \<open>The \<open>while let\<close> over one ring; it runs until a pop finds the ring empty.\<close>

partial_function (option) drain_ring ::
  "('q, raw_resp) ring_ops \<Rightarrow> 'w lane_env \<Rightarrow> response_codec list \<Rightarrow> nat \<Rightarrow> bool \<Rightarrow> 'q spsc \<Rightarrow> 'w
     \<Rightarrow> ((bool, unit) res \<times> 'q spsc \<times> 'w) option" where
  "drain_ring R env codecs i got ring w =
     (case try_pop R ring of
        (None, ring') \<Rightarrow> Some (Ok got, ring', w)
      | (Some resp, ring') \<Rightarrow>
          (if i < length codecs
           then drain_ring R env codecs i True ring' (on_result env (parse_one resp (codecs ! i)) w)
           else Some (Panic, ring', w)))"

fun lane_pass ::
  "('q, raw_resp) ring_ops \<Rightarrow> 'w lane_env \<Rightarrow> response_codec list \<Rightarrow> nat \<Rightarrow> bool \<Rightarrow> 'q spsc list \<Rightarrow> 'w
     \<Rightarrow> (bool, unit) res \<times> 'q spsc list \<times> 'w" where
  "lane_pass R env codecs i got [] w = (Ok got, [], w)"
| "lane_pass R env codecs i got (ring # rings) w =
     (case drain_ring R env codecs i got ring w of
        None \<Rightarrow> (Hang, ring # rings, w)
      | Some (Ok got, ring, w) \<Rightarrow>
          (case lane_pass R env codecs (Suc i) got rings w of (r, rings, w) \<Rightarrow> (r, ring # rings, w))
      | Some (Err e, ring, w) \<Rightarrow> (Err e, ring # rings, w)
      | Some (Panic, ring, w) \<Rightarrow> (Panic, ring # rings, w)
      | Some (Hang, ring, w) \<Rightarrow> (Hang, ring # rings, w))"

text \<open>The body of the loop in \<open>run\<close>.\<close>

definition lane_iteration ::
  "('q, raw_resp) ring_ops \<Rightarrow> 'w lane_env \<Rightarrow> 'q result_lane \<Rightarrow> 'w
     \<Rightarrow> (unit, unit) res \<times> 'q result_lane \<times> 'w" where
  "lane_iteration R env lane w =
     (case lane_pass R env (lane_codecs lane) 0 False (lane_rings lane) w of (r, rings, w) \<Rightarrow>
      let lane = lane\<lparr>lane_rings := rings\<rparr>
      in case r of
           Ok got \<Rightarrow>
             (if \<not> got then
                (case rings of
                   first # _ \<Rightarrow>
                     (Ok (), lane, idle_wait (lane_hw env) (lane_addr env)
                        (\<lambda>w. is_empty R first \<and> \<not> lane_stop env w) w)
                 | [] \<Rightarrow> (Ok (), lane, w))
              else (Ok (), lane, w))
         | Err e \<Rightarrow> (Err e, lane, w)
         | Panic \<Rightarrow> (Panic, lane, w)
         | Hang \<Rightarrow> (Hang, lane, w))"

partial_function (option) lane_run ::
  "('q, raw_resp) ring_ops \<Rightarrow> 'w lane_env \<Rightarrow> 'q result_lane \<Rightarrow> 'w
     \<Rightarrow> ((unit, unit) res \<times> 'q result_lane \<times> 'w) option" where
  "lane_run R env lane w =
     (if lane_stop env w then Some (Ok (), lane, w)
      else case lane_iteration R env lane w of
             (r, lane', w') \<Rightarrow>
               (case r of
                  Ok _ \<Rightarrow> lane_run R env lane' w'
                | Err e \<Rightarrow> Some (Err e, lane', w')
                | Panic \<Rightarrow> Some (Panic, lane', w')
                | Hang \<Rightarrow> Some (Hang, lane', w')))"

section \<open>Draining\<close>

lemma drain_ring_items:
  assumes "rtrb_ring R ring_items ring_cap" and "i < length codecs"
  shows "\<exists>ring'. drain_ring R env codecs i got ring w
      = Some (Ok (got \<or> ring_items (inner ring) \<noteq> []), ring',
              fold (on_result env) (map (\<lambda>r. parse_one r (codecs ! i)) (ring_items (inner ring))) w)
    \<and> ring_items (inner ring') = [] \<and> ring_cap (inner ring') = ring_cap (inner ring)
    \<and> counter ring' = counter ring"
proof (induction "ring_items (inner ring)" arbitrary: ring got w)
  case Nil
  then obtain r' where "try_pop R ring = (None, r')" "ring_items (inner r') = []"
    "ring_cap (inner r') = ring_cap (inner ring)" "counter r' = counter ring"
    using rtrb_ring.try_pop_none [OF assms(1), of ring] by auto
  with Nil show ?case by (simp add: drain_ring.simps [of R env codecs i got ring])
next
  case (Cons x xs)
  then obtain r' where p: "try_pop R ring = (Some x, r')" "ring_items (inner r') = xs"
    "ring_cap (inner r') = ring_cap (inner ring)" "counter r' = counter ring"
    using rtrb_ring.try_pop_some [OF assms(1), of ring x xs] by auto
  have "drain_ring R env codecs i got ring w
      = drain_ring R env codecs i True r' (on_result env (parse_one x (codecs ! i)) w)"
    using p(1) assms(2) by (simp add: drain_ring.simps [of R env codecs i got ring])
  with Cons.hyps(1) [of r' True "on_result env (parse_one x (codecs ! i)) w"] Cons.hyps(2) p
  show ?case by (simp add: Cons.hyps(2) [symmetric])
qed

text \<open>The outcomes of one pass, ring by ring and in the order of arrival.\<close>

fun pass_outcomes :: "('q \<Rightarrow> raw_resp list) \<Rightarrow> response_codec list \<Rightarrow> nat \<Rightarrow> 'q spsc list \<Rightarrow> provider_outcome list" where
  "pass_outcomes items codecs i [] = []"
| "pass_outcomes items codecs i (ring # rings) =
     map (\<lambda>r. parse_one r (codecs ! i)) (items (inner ring)) @ pass_outcomes items codecs (Suc i) rings"

lemma lane_pass_items:
  assumes "rtrb_ring R ring_items ring_cap" and "i + length rings \<le> length codecs"
  shows "\<exists>rings'. lane_pass R env codecs i got rings w
      = (Ok (got \<or> list_ex (\<lambda>c. ring_items (inner c) \<noteq> []) rings), rings',
         fold (on_result env) (pass_outcomes ring_items codecs i rings) w)
    \<and> map (\<lambda>c. (ring_items (inner c), ring_cap (inner c), counter c)) rings'
      = map (\<lambda>c. ([], ring_cap (inner c), counter c)) rings"
  using assms(2)
proof (induction rings arbitrary: i got w)
  case (Cons ring rings)
  then have i: "i < length codecs" by simp
  from drain_ring_items [OF assms(1) i, of env got ring w] obtain r' where
    d: "drain_ring R env codecs i got ring w = Some (Ok (got \<or> ring_items (inner ring) \<noteq> []), r',
        fold (on_result env) (map (\<lambda>r. parse_one r (codecs ! i)) (ring_items (inner ring))) w)"
      "ring_items (inner r') = []" "ring_cap (inner r') = ring_cap (inner ring)" "counter r' = counter ring"
    by blast
  from Cons.IH [of "Suc i" "got \<or> ring_items (inner ring) \<noteq> []"
      "fold (on_result env) (map (\<lambda>r. parse_one r (codecs ! i)) (ring_items (inner ring))) w"] Cons.prems
  obtain rs' where
    rs: "lane_pass R env codecs (Suc i) (got \<or> ring_items (inner ring) \<noteq> []) rings
        (fold (on_result env) (map (\<lambda>r. parse_one r (codecs ! i)) (ring_items (inner ring))) w)
      = (Ok ((got \<or> ring_items (inner ring) \<noteq> []) \<or> list_ex (\<lambda>c. ring_items (inner c) \<noteq> []) rings), rs',
         fold (on_result env) (pass_outcomes ring_items codecs (Suc i) rings)
           (fold (on_result env) (map (\<lambda>r. parse_one r (codecs ! i)) (ring_items (inner ring))) w))"
      "map (\<lambda>c. (ring_items (inner c), ring_cap (inner c), counter c)) rs'
        = map (\<lambda>c. ([], ring_cap (inner c), counter c)) rings" by auto
  show ?case
    by (rule exI [of _ "r' # rs'"]) (simp add: d rs disj_assoc)
qed simp

section \<open>Properties\<close>

text \<open>
  C23. One pass of the lane returns, hands every queued response to the sink exactly once, ring
  by ring and oldest first, each translated by its own provider's codec and carrying its job,
  provider and time stamps, and leaves every ring empty; it goes on to wait exactly if there
  was nothing to deliver.
\<close>

theorem lane_pass_delivers:
  assumes "rtrb_ring R ring_items ring_cap" and "length rings \<le> length codecs"
  shows "\<exists>rings'. lane_pass R env codecs 0 False rings w
      = (Ok (pass_outcomes ring_items codecs 0 rings \<noteq> []), rings',
         fold (on_result env) (pass_outcomes ring_items codecs 0 rings) w)
    \<and> list_all (\<lambda>c. ring_items (inner c) = []) rings' \<and> map counter rings' = map counter rings"
proof -
  have "pass_outcomes ring_items codecs i rings \<noteq> [] \<longleftrightarrow> list_ex (\<lambda>c. ring_items (inner c) \<noteq> []) rings" for i
    by (induction rings arbitrary: i) auto
  moreover have "list_all (\<lambda>c. ring_items (inner c) = []) rs'" "map counter rs' = map counter rings"
    if "map (\<lambda>c. (ring_items (inner c), ring_cap (inner c), counter c)) rs'
        = map (\<lambda>c. ([], ring_cap (inner c), counter c)) rings" for rs'
    using that by (induction rings arbitrary: rs') (auto simp: Cons_eq_map_conv)
  ultimately show ?thesis
    using lane_pass_items [OF assms(1), of 0 rings codecs env False w] assms(2) by auto
qed

definition sample_resp :: raw_resp where
  "sample_resp = raw_resp_new\<lparr>rr_job := 42, rr_bytes := error_body (- 1) ''no''\<rparr>"

definition log_lane :: "(provider_outcome list) lane_env" where
  "log_lane = \<lparr>lane_hw = null_hw, lane_stop = (\<lambda>_. False), on_result = (\<lambda>o' w. w @ [o']), lane_addr = 0\<rparr>"

theorem lane_pass_delivers_witness:
  "\<exists>rings'. lane_pass list_ring log_lane [json_rpc_parse, json_rpc_parse] 0 False
       [channel list_ring 4, \<lparr>inner = (4, [sample_resp]), counter = 1\<rparr>] []
     = (Ok True, rings', [parse_one sample_resp json_rpc_parse])
   \<and> list_all (\<lambda>c. snd (inner c) = []) rings' \<and> map counter rings' = [0, 1]"
  using lane_pass_delivers [OF lr.rtrb_ring_axioms,
      of "[channel list_ring 4, \<lparr>inner = (4, [sample_resp]), counter = 1\<rparr>]"
        "[json_rpc_parse, json_rpc_parse]" log_lane "[]"]
  by (simp add: log_lane_def channel_def notifier_new_def list_ring_def)

end
