(* ===== verification/Envelope.thy ===== *)
theory Envelope
  imports Core_Types
begin

text \<open>
  The HTTP request envelope: \<open>protocol/http/spec_builder.rs\<close> renders a request with two
  placeholders, \<open>protocol/http/envelope.rs\<close> compiles it once into a template and splices every
  transaction into it. The base64 encoder is the third-party crate \<open>base64_simd\<close>; it is the
  argument \<open>enc\<close> of \<open>envelope_splice\<close>, with its documented behaviour in the locale \<open>base64_standard\<close>.
\<close>

section \<open>The specification builder\<close>

datatype auth_placement =
    AuthNone
  | AuthHeader bytes bytes
  | AuthUrlParam bytes bytes
  | AuthUrlPath bytes

record spec_builder =
  http_method :: bytes
  base_path :: bytes
  host :: bytes
  extra_headers :: "(bytes \<times> bytes) list"
  body_tpl :: bytes
  max_body :: nat
  auth :: auth_placement

record body_placeholder =
  bp_sentinel :: bytes
  bp_max_len :: nat

record content_length_spec =
  cls_sentinel :: bytes
  cls_width :: nat

record envelope_spec =
  es_bytes :: bytes
  es_body :: body_placeholder
  es_content_length :: "content_length_spec option"

definition DEFAULT_BODY :: bytes where
  \<open>DEFAULT_BODY = ''{"jsonrpc":"2.0","id":1,"method":"sendTransaction","params":["<<BODY>>",{"encoding":"base64","skipPreflight":true,"maxRetries":0}]}''\<close>

definition builder_new :: "bytes \<Rightarrow> bytes \<Rightarrow> bytes \<Rightarrow> nat \<Rightarrow> spec_builder" where
  "builder_new method path hst maxb =
     \<lparr>http_method = method, base_path = path, host = hst, extra_headers = [],
      body_tpl = DEFAULT_BODY, max_body = maxb, auth = AuthNone\<rparr>"

definition send_transaction :: "bytes \<Rightarrow> bytes \<Rightarrow> nat \<Rightarrow> spec_builder" where
  "send_transaction path hst maxb = builder_new ''POST'' path hst maxb"

definition builder_auth_placement :: "auth_placement \<Rightarrow> spec_builder \<Rightarrow> spec_builder" where
  "builder_auth_placement a b = b\<lparr>auth := a\<rparr>"

definition builder_body_template :: "bytes \<Rightarrow> spec_builder \<Rightarrow> spec_builder" where
  "builder_body_template tpl b = b\<lparr>body_tpl := tpl\<rparr>"

definition builder_header :: "bytes \<Rightarrow> bytes \<Rightarrow> spec_builder \<Rightarrow> spec_builder" where
  "builder_header name value b = b\<lparr>extra_headers := extra_headers b @ [(name, value)]\<rparr>"

definition trim_end_matches :: "u8 \<Rightarrow> bytes \<Rightarrow> bytes" where
  "trim_end_matches c s = rev (dropWhile (\<lambda>x. x = c) (rev s))"

definition request_path :: "spec_builder \<Rightarrow> bytes" where
  "request_path b =
     (case auth b of
        AuthUrlParam key value \<Rightarrow> base_path b @ ''?'' @ key @ ''='' @ value
      | AuthUrlPath token \<Rightarrow> trim_end_matches (CHR ''/'') (base_path b) @ ''/'' @ token
      | _ \<Rightarrow> base_path b)"

definition BODY_SENTINEL :: bytes where
  "BODY_SENTINEL = ''<<BODY>>''"

definition CL_SENTINEL :: bytes where
  "CL_SENTINEL = ''<<CL>>      ''"

definition build :: "spec_builder \<Rightarrow> envelope_spec" where
  "build b =
     (let path = request_path b;
          wire = [];
          wire = wire @ http_method b @ '' '' @ path @ '' HTTP/1.1'' @ crlf;
          wire = wire @ ''Host: '' @ host b @ crlf;
          wire = wire @ ''Content-Type: application/json'' @ crlf;
          wire = (case auth b of
                    AuthHeader name value \<Rightarrow> wire @ name @ '': '' @ value @ crlf
                  | _ \<Rightarrow> wire);
          wire = fold (\<lambda>(k, v) w. w @ k @ '': '' @ v @ crlf) (extra_headers b) wire;
          wire = wire @ ''Content-Length: '' @ CL_SENTINEL @ crlf;
          wire = wire @ crlf;
          wire = wire @ body_tpl b
      in \<lparr>es_bytes = wire,
          es_body = \<lparr>bp_sentinel = BODY_SENTINEL, bp_max_len = max_body b\<rparr>,
          es_content_length = Some \<lparr>cls_sentinel = CL_SENTINEL, cls_width = 12\<rparr>\<rparr>)"

section \<open>Compiling a template\<close>

text \<open>The index loop of \<open>find_unique\<close>: it gives up at the second match.\<close>

function find_unique_loop :: "bytes \<Rightarrow> bytes \<Rightarrow> nat \<Rightarrow> nat option \<Rightarrow> nat option" where
  "find_unique_loop haystack needle i found =
     (if i + length needle \<le> length haystack then
        (if take (length needle) (drop i haystack) = needle then
           (if found \<noteq> None then None
            else find_unique_loop haystack needle (i + 1) (Some i))
         else find_unique_loop haystack needle (i + 1) found)
      else found)"
  by pat_completeness auto
termination
  by (relation "measure (\<lambda>(h, n, i, f). Suc (length h) - i)") auto

declare find_unique_loop.simps [simp del]

definition find_unique :: "bytes \<Rightarrow> bytes \<Rightarrow> nat option" where
  "find_unique haystack needle = find_unique_loop haystack needle 0 None"

record envelope_template =
  buf :: bytes
  out :: bytes
  body_off :: nat
  body_max :: nat
  cl_off :: "nat option"
  cl_width :: nat
  http_body_start :: nat

definition HEADER_END :: bytes where
  "HEADER_END = [CR, LF, CR, LF]"

definition compile :: "envelope_spec \<Rightarrow> (envelope_template, envelope_error) res" where
  "compile spec =
     (let bytes = es_bytes spec;
          sentinel = bp_sentinel (es_body spec);
          sentinel_len = length sentinel;
          max_len = bp_max_len (es_body spec)
      in if max_len < sentinel_len then Err (BodyMaxTooSmall max_len sentinel_len)
         else
         bind_res (ok_or BodySentinelMissing (find_unique bytes sentinel)) (\<lambda>boff.
         bind_res (case es_content_length spec of
                     Some cl \<Rightarrow>
                       bind_res (ok_or BodySentinelMissing (find_unique bytes (cls_sentinel cl)))
                         (\<lambda>off. bind_res (u32_expect off) (\<lambda>off. Ok (Some off, cls_width cl)))
                   | None \<Rightarrow> Ok (None, 0)) (\<lambda>(coff, cwidth).
         bind_res (if max_len > sentinel_len then
                     let padded = take boff bytes @ replicate max_len SP
                                    @ drop (boff + sentinel_len) bytes
                     in bind_res (u32_expect (max_len - sentinel_len)) (\<lambda>delta.
                        bind_res (u32_expect (boff + sentinel_len)) (\<lambda>shift_threshold.
                        Ok (padded,
                            map_option (\<lambda>off. if off \<ge> shift_threshold
                                              then (off + delta) mod 2 ^ 32 else off) coff)))
                   else Ok (bytes, coff)) (\<lambda>(bytes, coff).
         bind_res (u32_expect max_len) (\<lambda>bmax.
         bind_res (u32_expect boff) (\<lambda>boff32.
         bind_res (ok_or BodySentinelMissing (find_sub HEADER_END bytes)) (\<lambda>header_sep.
         bind_res (u32_expect (header_sep + 4)) (\<lambda>bstart.
         Ok \<lparr>buf = bytes, out = [], body_off = boff32, body_max = bmax,
             cl_off = coff, cl_width = cwidth, http_body_start = bstart\<rparr>))))))))"

section \<open>Splicing a transaction\<close>

text \<open>\<open>dst[a..b].copy_from_slice(src)\<close>.\<close>

definition copy_into :: "'a list \<Rightarrow> nat \<Rightarrow> nat \<Rightarrow> 'a list \<Rightarrow> ('a list, 'e) res" where
  "copy_into dst a b src =
     (if a \<le> b \<and> b \<le> length dst \<and> length src = b - a
      then Ok (take a dst @ src @ drop b dst) else Panic)"

text \<open>
  The digit loop writes from the end of a 20-byte scratch buffer. At position 0 the
  decrement wraps and the next store is out of range.
\<close>

function cl_digits_loop :: "bytes \<Rightarrow> nat \<Rightarrow> nat \<Rightarrow> (bytes \<times> nat, envelope_error) res" where
  "cl_digits_loop scratch n pos =
     (if pos = 0 then Panic
      else let pos = pos - 1;
               scratch = scratch[pos := char_of (48 + n mod 10)];
               n = n div 10
           in if n = 0 then Ok (scratch, pos) else cl_digits_loop scratch n pos)"
  by pat_completeness auto
termination
  by (relation "measure (\<lambda>(s, n, pos). pos)") auto

declare cl_digits_loop.simps [simp del]

definition patch_content_length ::
  "nat \<Rightarrow> bytes \<Rightarrow> envelope_template \<Rightarrow> (bytes, envelope_error) res" where
  "patch_content_length coff o3 t =
     (let real_len = length o3;
          http_body_len = usize_sub real_len (http_body_start t)
      in bind_res (cl_digits_loop (replicate 20 (CHR 0x00)) http_body_len 20) (\<lambda>(scratch, pos).
         let digits = drop pos scratch
         in if length digits > cl_width t
            then Err (ContentLengthOverflow http_body_len (cl_width t))
            else bind_res (copy_into o3 coff (coff + length digits) digits) (\<lambda>o4.
                 copy_into o4 (coff + length digits) (coff + cl_width t)
                   (replicate (cl_width t - length digits) SP))))"

definition envelope_splice ::
  "(bytes \<Rightarrow> bytes) \<Rightarrow> bytes \<Rightarrow> envelope_template
     \<Rightarrow> (bytes, envelope_error) res \<times> envelope_template" where
  "envelope_splice enc tx t =
     (let needed = (length tx + 2) div 3 * 4
      in if needed > body_max t then (Err (BodyTooLarge needed (body_max t)), t)
         else
         let encoded = enc tx;
             r = bind_res (slice_of (buf t) 0 (body_off t)) (\<lambda>o1.
                 bind_res (copy_into (o1 @ replicate needed (CHR 0x00))
                             (length o1) (length o1 + length encoded) encoded) (\<lambda>o2.
                 bind_res (slice_of (buf t) (body_off t + body_max t) (length (buf t))) (\<lambda>tail.
                 Ok (take (length o1 + length encoded) o2 @ tail))))
         in case r of
              Ok o3 \<Rightarrow>
                (case cl_off t of
                   None \<Rightarrow> (Ok o3, t\<lparr>out := o3\<rparr>)
                 | Some coff \<Rightarrow>
                   (case patch_content_length coff o3 t of
                      Ok o5 \<Rightarrow> (Ok (take (length o3) o5), t\<lparr>out := o5\<rparr>)
                    | Err e \<Rightarrow> (Err e, t\<lparr>out := o3\<rparr>)
                    | Panic \<Rightarrow> (Panic, t\<lparr>out := o3\<rparr>)
                    | Hang \<Rightarrow> (Hang, t\<lparr>out := o3\<rparr>)))
            | Err e \<Rightarrow> (Err e, t)
            | Panic \<Rightarrow> (Panic, t)
            | Hang \<Rightarrow> (Hang, t))"

section \<open>Search and digits\<close>

lemma find_unique_loop_iff:
  "find_unique_loop h n i found = Some k \<longleftrightarrow>
     (case found of
        None \<Rightarrow> {j. i \<le> j \<and> occurs_at h n j} = {k}
      | Some f \<Rightarrow> k = f \<and> {j. i \<le> j \<and> occurs_at h n j} = {})"
proof (induction h n i found rule: find_unique_loop.induct)
  case (1 h n i found)
  let ?S = "\<lambda>i. {j. i \<le> j \<and> occurs_at h n j}"
  show ?case
  proof (cases "i + length n \<le> length h")
    case False
    then have "?S i = {}" by (auto simp: occurs_at_def)
    with False show ?thesis
      by (auto simp: find_unique_loop.simps [of h n i found] split: option.splits)
  next
    case True
    show ?thesis
    proof (cases "take (length n) (drop i h) = n")
      case hit: True
      with True have S: "?S i = insert i (?S (i + 1))"
        by (auto simp: occurs_at_def Suc_le_eq)
      have "i \<notin> ?S (i + 1)" by simp
      then have "?S i = {k} \<longleftrightarrow> k = i \<and> ?S (i + 1) = {}"
        unfolding S by blast
      moreover have "find_unique_loop h n i found
          = (if found \<noteq> None then None else find_unique_loop h n (i + 1) (Some i))"
        using True hit by (simp add: find_unique_loop.simps [of h n i found])
      ultimately show ?thesis
        using S "1.IH"(1) [OF True hit] by (cases found) simp_all
    next
      case miss: False
      then have "\<not> occurs_at h n i" by (simp add: occurs_at_def)
      then have "i \<le> j \<and> occurs_at h n j \<longleftrightarrow> i + 1 \<le> j \<and> occurs_at h n j" for j
        by (cases "j = i") auto
      then have "?S i = ?S (i + 1)" by simp
      moreover have "find_unique_loop h n i found = find_unique_loop h n (i + 1) found"
        using True miss by (simp add: find_unique_loop.simps [of h n i found])
      ultimately show ?thesis
        using "1.IH"(2) [OF True miss] by (cases found) simp_all
    qed
  qed
qed

lemma find_unique_iff:
  "find_unique h n = Some k \<longleftrightarrow> occurs_at h n k \<and> (\<forall>j. occurs_at h n j \<longrightarrow> j = k)"
  by (auto simp: find_unique_def find_unique_loop_iff)

lemma find_unique_search:
  assumes "find_sub n h = Some k" and "find_sub n (drop (Suc k) h) = None"
  shows "find_unique h n = Some k"
proof -
  have k: "occurs_at h n k" "\<And>j. j < k \<Longrightarrow> \<not> occurs_at h n j"
    using assms(1) by (auto simp: find_sub_Some_iff)
  have "\<not> occurs_at h n j" if "k < j" for j
  proof
    assume "occurs_at h n j"
    then have "occurs_at (drop (Suc k) h) n (j - Suc k)"
      using that by (auto simp: occurs_at_def)
    with assms(2) show False by (simp add: find_sub_None_iff)
  qed
  with k show ?thesis by (auto simp: find_unique_iff) (metis linorder_neqE_nat)
qed

lemma cl_digits_loop_decimal:
  assumes "length (decimal n) \<le> pos" and "pos \<le> length s"
  shows "\<exists>s'. cl_digits_loop s n pos = Ok (s', pos - length (decimal n))
    \<and> length s' = length s \<and> drop (pos - length (decimal n)) s' = decimal n @ drop pos s"
  using assms
proof (induction s n pos rule: cl_digits_loop.induct)
  case (1 s n pos)
  have pos: "0 < pos"
    using "1.prems"(1) by (metis decimal_not_Nil gr0I le_zero_eq length_0_conv)
  define s1 where "s1 = s[pos - 1 := char_of (48 + n mod 10)]"
  have d: "drop (pos - 1) s1 = digit_char (n mod 10) # drop pos s"
    using pos "1.prems"(2) Cons_nth_drop_Suc [of "pos - 1" s1]
    by (simp add: s1_def digit_char_def)
  have len: "length s1 = length s" by (simp add: s1_def)
  have step: "cl_digits_loop s n pos =
      (if n div 10 = 0 then Ok (s1, pos - 1) else cl_digits_loop s1 (n div 10) (pos - 1))"
    using pos by (simp add: cl_digits_loop.simps [of s n pos] s1_def Let_def)
  show ?case
  proof (cases "n < 10")
    case True
    then show ?thesis
      using step d len by (intro exI [of _ s1]) (simp add: decimal.simps [of n])
  next
    case False
    then have nz: "n div 10 \<noteq> 0" by simp
    have dec: "decimal n = decimal (n div 10) @ [digit_char (n mod 10)]"
      using False by (subst decimal.simps) simp
    have "length (decimal (n div 10)) \<le> pos - 1" "pos - 1 \<le> length s1"
      using "1.prems" dec len by auto
    then obtain s' where
      "cl_digits_loop s1 (n div 10) (pos - 1)
         = Ok (s', pos - 1 - length (decimal (n div 10)))"
      "length s' = length s1"
      "drop (pos - 1 - length (decimal (n div 10))) s'
         = decimal (n div 10) @ drop (pos - 1) s1"
      using "1.IH" [OF _ refl s1_def refl nz] pos by auto
    with step nz d len dec show ?thesis by simp
  qed
qed

section \<open>What splicing produces\<close>

text \<open>
  A template has the \<^emph>\<open>layout\<close> \<open>H F M pre mid post\<close> when its buffer is the header text \<open>H\<close> up to the
  Content-Length value, the value field \<open>F\<close>, the rest \<open>M\<close> of the header, and the body with
  \<open>mid\<close> reserved for the payload.
\<close>

definition layout ::
  "envelope_template \<Rightarrow> bytes \<Rightarrow> bytes \<Rightarrow> bytes \<Rightarrow> bytes \<Rightarrow> bytes \<Rightarrow> bytes \<Rightarrow> bool" where
  "layout t H F M pre mid post \<longleftrightarrow>
     buf t = H @ F @ M @ pre @ mid @ post \<and>
     length F = cl_width t \<and> cl_off t = Some (length H) \<and>
     http_body_start t = length (H @ F @ M) \<and>
     body_off t = length (H @ F @ M @ pre) \<and> body_max t = length mid"

text \<open>The Content-Length field: the value in decimal, padded with spaces to the field width.\<close>

definition cl_field :: "nat \<Rightarrow> nat \<Rightarrow> bytes" where
  "cl_field w n = decimal n @ replicate (w - length (decimal n)) SP"

lemma length_cl_field: "length (decimal n) \<le> w \<Longrightarrow> length (cl_field w n) = w"
  by (simp add: cl_field_def)

lemma copy_into_Ok:
  "length src = b - a \<Longrightarrow> a \<le> b \<Longrightarrow> b \<le> length dst \<Longrightarrow>
   copy_into dst a b src = Ok (take a dst @ src @ drop b dst)"
  by (simp add: copy_into_def)

lemma patch_content_length_layout:
  assumes F: "length F = cl_width t"
    and start: "http_body_start t = length (H @ F @ M)"
    and width: "length (decimal (length body)) \<le> cl_width t"
    and small: "length (H @ F @ M @ body) < 2 ^ 64"
  shows "patch_content_length (length H) (H @ F @ M @ body) t
    = Ok (H @ cl_field (cl_width t) (length body) @ M @ body)"
proof -
  let ?n = "length body" let ?d = "decimal (length body)"
  have blen: "usize_sub (length (H @ F @ M @ body)) (http_body_start t) = ?n"
    using usize_sub_small [OF _ small, of "http_body_start t"] start by simp
  have "?n < 10 ^ 20" using small by simp
  then have "length ?d \<le> 20" by (rule length_decimal_le [rotated]) simp
  then obtain s where s: "cl_digits_loop (replicate 20 (CHR 0x00)) ?n 20 = Ok (s, 20 - length ?d)" and ds: "drop (20 - length ?d) s = ?d"
    using cl_digits_loop_decimal [of ?n 20 "replicate 20 (CHR 0x00)"] by auto
  obtain F1 F2 where F12: "F = F1 @ F2" "length F1 = length ?d"
    using width F by (metis append_take_drop_id length_take min.absorb2)
  have c1: "copy_into (H @ F @ M @ body) (length H) (length H + length ?d) ?d
      = Ok (H @ ?d @ F2 @ M @ body)"
    using F12 by (subst copy_into_Ok) auto
  have c2: "copy_into (H @ ?d @ F2 @ M @ body) (length H + length ?d)
      (length H + cl_width t) (replicate (cl_width t - length ?d) SP)
      = Ok (H @ ?d @ replicate (cl_width t - length ?d) SP @ M @ body)"
    using F12 F by (subst copy_into_Ok) auto
  show ?thesis
    unfolding patch_content_length_def Let_def blen s
    using width by (simp add: ds c1 c2 cl_field_def del: length_drop)
qed

text \<open>The payload must fit the reserved space and the body length the value field.\<close>

lemma splice_layout:
  assumes lay: "layout t H F M pre mid post"
    and enc: "length (enc tx) = (length tx + 2) div 3 * 4"
    and fits: "length (enc tx) \<le> body_max t"
    and width: "length (decimal (length (pre @ enc tx @ post))) \<le> cl_width t"
    and small: "length (buf t) < 2 ^ 64"
  defines "fr \<equiv> H @ cl_field (cl_width t) (length (pre @ enc tx @ post)) @ M @ pre @ enc tx @ post"
  shows "envelope_splice enc tx t = (Ok fr, t\<lparr>out := fr\<rparr>)"
proof -
  let ?o1 = "H @ F @ M @ pre"
  have b: "buf t = ?o1 @ mid @ post" and off: "body_off t = length ?o1"
    and mid: "body_max t = length mid"
    using lay by (simp_all add: layout_def)
  have s1: "slice_of (buf t) 0 (body_off t) = Ok ?o1"
    unfolding off b by (subst slice_of_Ok) auto
  have s2: "slice_of (buf t) (body_off t + body_max t) (length (buf t)) = Ok post"
    unfolding off b mid by (subst slice_of_Ok) auto
  have c: "copy_into (?o1 @ replicate (length (enc tx)) (CHR 0x00)) (length ?o1)
      (length ?o1 + length (enc tx)) (enc tx) = Ok (?o1 @ enc tx)"
    by (subst copy_into_Ok) auto
  have p: "patch_content_length (length H) (H @ F @ M @ (pre @ enc tx @ post)) t = Ok fr"
    unfolding fr_def
    using lay width small fits mid b
    by (subst patch_content_length_layout) (auto simp: layout_def)
  have fr_len: "length fr = length (?o1 @ enc tx @ post)"
    using lay width by (simp add: fr_def length_cl_field layout_def)
  have "cl_off t = Some (length H)" using lay by (simp add: layout_def)
  then show ?thesis
    unfolding envelope_splice_def Let_def enc [symmetric] s1 s2
    using p fr_len fits by (simp only: bind_res.simps c) simp
qed

end
