(* ===== verification/Envelope_Frame.thy ===== *)
theory Envelope_Frame
  imports Envelope
begin

text \<open>
  What a spliced request looks like on the wire, for every request that is \<^emph>\<open>benign\<close>: the frame
  is the rendered header with the body length in the Content-Length field, followed by the
  body template with the payload in base64 in place of its placeholder. The base64 encoder is
  known by its contract \<open>base64_standard\<close> only; the encoder of RFC 4648 meets the contract.
\<close>

section \<open>Base64\<close>

text \<open>
  \<open>base64_simd::STANDARD\<close> encodes with padding: four characters for every three bytes begun,
  taken from the visible ASCII characters, and decodable.
\<close>

locale base64_standard =
  fixes enc :: "bytes \<Rightarrow> bytes" and dec :: "bytes \<Rightarrow> bytes option"
  assumes enc_length: "length (enc xs) = (length xs + 2) div 3 * 4"
    and dec_enc: "dec (enc xs) = Some xs"
    and enc_visible: "c \<in> set (enc xs) \<Longrightarrow> visible c \<and> c \<noteq> QUOTE"
begin

lemma enc_inject: "enc xs = enc ys \<longleftrightarrow> xs = ys"
  by (metis dec_enc option.inject)

text \<open>A transaction of the maximal length needs exactly the registry's body limit.\<close>

lemma enc_length_le: "length xs \<le> MAX_TX_LEN \<Longrightarrow> length (enc xs) \<le> 1644"
  by (simp add: enc_length MAX_TX_LEN_def)

end

definition b64_char :: "nat \<Rightarrow> u8" where
  "b64_char n = char_of (if n < 26 then 65 + n else if n < 52 then 71 + n
     else if n < 62 then n - 4 else if n = 62 then 43 else 47)"

definition b64_value :: "u8 \<Rightarrow> nat option" where
  "b64_value c =
     (let n = byte c
      in if 65 \<le> n \<and> n \<le> 90 then Some (n - 65) else if 97 \<le> n \<and> n \<le> 122 then Some (n - 71)
         else if 48 \<le> n \<and> n \<le> 57 then Some (n + 4) else if n = 43 then Some 62
         else if n = 47 then Some 63 else None)"

fun rfc4648_encode :: "bytes \<Rightarrow> bytes" where
  "rfc4648_encode [] = []"
| "rfc4648_encode [a] = [b64_char (byte a div 4), b64_char (byte a mod 4 * 16), CHR ''='', CHR ''='']"
| "rfc4648_encode [a, b] = [b64_char (byte a div 4), b64_char (byte a mod 4 * 16 + byte b div 16),
     b64_char (byte b mod 16 * 4), CHR ''='']"
| "rfc4648_encode (a # b # c # r) = [b64_char (byte a div 4),
     b64_char (byte a mod 4 * 16 + byte b div 16), b64_char (byte b mod 16 * 4 + byte c div 64),
     b64_char (byte c mod 64)] @ rfc4648_encode r"

definition b64_quad :: "nat \<Rightarrow> nat \<Rightarrow> nat \<Rightarrow> nat \<Rightarrow> bytes" where
  "b64_quad p q r s = [char_of (p * 4 + q div 16), char_of (q mod 16 * 16 + r div 4),
     char_of (r mod 4 * 64 + s)]"

fun rfc4648_decode :: "bytes \<Rightarrow> bytes option" where
  "rfc4648_decode [] = Some []"
| "rfc4648_decode (w # x # y # z # r) =
     (case (b64_value w, b64_value x, b64_value y, b64_value z) of
        (Some p, Some q, Some s, Some t) \<Rightarrow> map_option (\<lambda>u. b64_quad p q s t @ u) (rfc4648_decode r)
      | (Some p, Some q, Some s, None) \<Rightarrow> if r = [] then Some (take 2 (b64_quad p q s 0)) else None
      | (Some p, Some q, None, None) \<Rightarrow> if r = [] then Some (take 1 (b64_quad p q 0 0)) else None
      | _ \<Rightarrow> None)"
| "rfc4648_decode _ = None"

lemma b64_value_char [simp]: "n < 64 \<Longrightarrow> b64_value (b64_char n) = Some n"
  by (auto simp: b64_value_def b64_char_def Let_def)

lemma b64_value_pad [simp]: "b64_value (CHR ''='') = None"
  by (simp add: b64_value_def)

lemma b64_char_visible: "n < 64 \<Longrightarrow> visible (b64_char n) \<and> b64_char n \<noteq> QUOTE"
proof -
  assume "n < 64"
  then have "43 \<le> byte (b64_char n) \<and> byte (b64_char n) \<le> 122"
    by (auto simp: b64_char_def)
  then show ?thesis by (auto simp: visible_def)
qed

lemma b64_sextets [simp]:
  "byte a div 4 < 64" "byte a mod 4 * 16 < 64" "byte a mod 4 * 16 + byte b div 16 < 64"
  "byte b mod 16 * 4 < 64" "byte b mod 16 * 4 + byte c div 64 < 64"
  using byte_less [of a] byte_less [of b] byte_less [of c] by linarith+

lemma b64_quad_join:
  "b64_quad (byte a div 4) (byte a mod 4 * 16 + byte b div 16)
     (byte b mod 16 * 4 + byte c div 64) (byte c mod 64) = [a, b, c]"
proof -
  have b: "byte b div 16 < 16" "byte c div 64 < 4" using byte_less [of b] byte_less [of c] by linarith+
  have "byte a div 4 * 4 + (byte a mod 4 * 16 + byte b div 16) div 16 = byte a"
    "(byte a mod 4 * 16 + byte b div 16) mod 16 * 16 + (byte b mod 16 * 4 + byte c div 64) div 4
       = byte b"
    "(byte b mod 16 * 4 + byte c div 64) mod 4 * 64 + byte c mod 64 = byte c"
    using b by simp_all
  then show ?thesis by (simp add: b64_quad_def)
qed

lemma b64_quad_two:
  "take 2 (b64_quad (byte a div 4) (byte a mod 4 * 16 + byte b div 16) (byte b mod 16 * 4) 0) = [a, b]"
  using b64_quad_join [of a b "CHR 0x00"] by (simp add: b64_quad_def)

lemma b64_quad_one: "take 1 (b64_quad (byte a div 4) (byte a mod 4 * 16) 0 0) = [a]"
  using b64_quad_join [of a "CHR 0x00" "CHR 0x00"] by (simp add: b64_quad_def)

lemma rfc4648_decode_encode: "rfc4648_decode (rfc4648_encode xs) = Some xs"
proof (induction xs rule: rfc4648_encode.induct)
  case (2 a)
  show ?case using b64_quad_one [of a] by simp
next
  case (3 a b)
  show ?case using b64_quad_two [of a b] by simp
next
  case (4 a b c r)
  then show ?case using b64_quad_join [of a b c] by simp
qed simp

lemma rfc4648_length: "length (rfc4648_encode xs) = (length xs + 2) div 3 * 4"
proof (induction xs rule: rfc4648_encode.induct)
  case (4 a b c r)
  have "(length (a # b # c # r) + 2) div 3 = Suc ((length r + 2) div 3)" by simp
  with 4 show ?case by (simp only: mult_Suc rfc4648_encode.simps) simp
qed simp_all

lemma rfc4648_visible: "c \<in> set (rfc4648_encode xs) \<Longrightarrow> visible c \<and> c \<noteq> QUOTE"
proof (induction xs rule: rfc4648_encode.induct)
  case (2 a)
  then show ?case by (auto simp: b64_char_visible) (auto simp: visible_def)
next
  case (3 a b)
  then show ?case
    by (auto simp: b64_char_visible) (auto simp: visible_def)
next
  case (4 a b d r)
  then show ?case by (auto simp: b64_char_visible)
qed simp

interpretation rfc4648: base64_standard rfc4648_encode rfc4648_decode
  by unfold_locales (auto simp: rfc4648_length rfc4648_decode_encode dest: rfc4648_visible)

section \<open>Header lines\<close>

definition header_lines :: "spec_builder \<Rightarrow> bytes list" where
  "header_lines b =
     [http_method b @ '' '' @ request_path b @ '' HTTP/1.1'',
      ''Host: '' @ host b, ''Content-Type: application/json'']
     @ (case auth b of AuthHeader name value \<Rightarrow> [name @ '': '' @ value] | _ \<Rightarrow> [])
     @ map (\<lambda>(k, v). k @ '': '' @ v) (extra_headers b)"

definition render :: "bytes list \<Rightarrow> bytes" where
  "render ls = concat (map (\<lambda>l. l @ crlf) ls)"

definition CL_NAME :: bytes where
  "CL_NAME = ''Content-Length: ''"

definition request_head :: "spec_builder \<Rightarrow> bytes \<Rightarrow> bytes" where
  "request_head b cl = render (header_lines b) @ CL_NAME @ cl @ HEADER_END"

lemma render_Nil [simp]: "render [] = []"
  and render_Cons [simp]: "render (l # ls) = l @ crlf @ render ls"
  and render_append [simp]: "render (ls @ ms) = render ls @ render ms"
  by (simp_all add: render_def)

lemma fold_headers:
  "fold (\<lambda>(k, v) w. w @ k @ '': '' @ v @ crlf) hs w0
     = w0 @ render (map (\<lambda>(k, v). k @ '': '' @ v) hs)"
  by (induction hs arbitrary: w0) auto

lemma es_bytes_build: "es_bytes (build b) = request_head b CL_SENTINEL @ body_tpl b"
  unfolding build_def Let_def fold_headers
  by (cases "auth b")
     (simp_all add: request_head_def header_lines_def CL_NAME_def HEADER_END_def)

section \<open>Benign requests\<close>

definition clean_line :: "bytes \<Rightarrow> bool" where
  "clean_line l \<longleftrightarrow> utf8_ok l \<and> CR \<notin> set l \<and> LF \<notin> set l \<and> CHR ''<'' \<notin> set l"

definition benign :: "spec_builder \<Rightarrow> bool" where
  "benign b \<longleftrightarrow>
     list_all clean_line (header_lines b) \<and>
     find_unique (body_tpl b) BODY_SENTINEL \<noteq> None \<and>
     find_sub CL_SENTINEL (body_tpl b) = None"

lemma header_lines_not_Nil: "l \<in> set (header_lines b) \<Longrightarrow> l \<noteq> []"
  by (auto simp: header_lines_def split: auth_placement.splits)

lemma clean_render: "list_all clean_line ls \<Longrightarrow> CHR ''<'' \<notin> set (render ls)"
  by (induction ls) (auto simp: clean_line_def)

lemma occurs_at_after_clean:
  assumes "n \<noteq> []" and "hd n \<notin> set xs"
  shows "occurs_at (xs @ ys) n i \<longleftrightarrow> (\<exists>k. i = length xs + k \<and> occurs_at ys n k)"
proof
  assume o: "occurs_at (xs @ ys) n i"
  then have "(xs @ ys) ! i = hd n"
    using occurs_at_nth(2) [of "xs @ ys" "hd n" "tl n" i] assms(1) by simp
  then have "length xs \<le> i"
    using assms(2) by (metis nth_append not_less nth_mem)
  then obtain k where "i = length xs + k" using le_Suc_ex by blast
  with o show "\<exists>k. i = length xs + k \<and> occurs_at ys n k" by auto
qed auto

lemma occurs_at_body:
  assumes "list_all clean_line (header_lines b)" and n: "n \<noteq> []" "hd n = CHR ''<''" "LF \<notin> set n"
  shows "occurs_at (request_head b CL_SENTINEL @ body) n i \<longleftrightarrow>
     (\<exists>k. i = length (render (header_lines b) @ CL_NAME) + k \<and> occurs_at (CL_SENTINEL @ [CR, LF, CR]) n k)
     \<or> (\<exists>k. i = length (request_head b CL_SENTINEL) + k \<and> occurs_at body n k)"
proof -
  let ?H = "render (header_lines b) @ CL_NAME"
  have split: "request_head b CL_SENTINEL @ body
      = (?H @ CL_SENTINEL @ [CR, LF, CR]) @ LF # body"
    by (simp add: request_head_def HEADER_END_def)
  have "hd n \<notin> set ?H"
    using clean_render [OF assms(1)] n(2) by (auto simp: CL_NAME_def)
  from occurs_at_after_clean [OF n(1) this] show ?thesis
    unfolding split occurs_at_sep [OF n(1,3)] by (simp add: request_head_def HEADER_END_def)
qed

lemma body_not_in_cl: "\<not> occurs_at (CL_SENTINEL @ [CR, LF, CR]) BODY_SENTINEL k"
proof -
  have "find_sub BODY_SENTINEL (CL_SENTINEL @ [CR, LF, CR]) = None"
    by (simp add: BODY_SENTINEL_def CL_SENTINEL_def)
  then show ?thesis by (simp add: find_sub_None_iff)
qed

lemma cl_in_cl: "occurs_at (CL_SENTINEL @ [CR, LF, CR]) CL_SENTINEL k \<longleftrightarrow> k = 0"
proof -
  have "find_unique (CL_SENTINEL @ [CR, LF, CR]) CL_SENTINEL = Some 0"
    by (simp add: find_unique_def find_unique_loop.simps CL_SENTINEL_def)
  then show ?thesis by (auto simp: find_unique_iff)
qed

lemma find_unique_body:
  assumes "benign b" and k: "find_unique (body_tpl b) BODY_SENTINEL = Some k"
  shows "find_unique (es_bytes (build b)) BODY_SENTINEL
    = Some (length (request_head b CL_SENTINEL) + k)"
proof -
  have "hd BODY_SENTINEL = CHR ''<''" "LF \<notin> set BODY_SENTINEL" "BODY_SENTINEL \<noteq> []"
    by (simp_all add: BODY_SENTINEL_def)
  with assms show ?thesis
    by (auto simp: find_unique_iff es_bytes_build benign_def occurs_at_body body_not_in_cl)
qed

lemma find_unique_cl:
  assumes "benign b"
  shows "find_unique (es_bytes (build b)) CL_SENTINEL
    = Some (length (render (header_lines b) @ CL_NAME))"
proof -
  have "hd CL_SENTINEL = CHR ''<''" "LF \<notin> set CL_SENTINEL" "CL_SENTINEL \<noteq> []"
    by (simp_all add: CL_SENTINEL_def)
  moreover have "\<not> occurs_at (body_tpl b) CL_SENTINEL k" for k
    using assms by (simp add: benign_def find_sub_None_iff)
  ultimately show ?thesis
    using assms by (auto simp: find_unique_iff es_bytes_build benign_def occurs_at_body cl_in_cl)
qed

section \<open>The end of the header\<close>

lemma find_header_end_line:
  assumes "CR \<notin> set l" and "\<not> prefix crlf r"
  shows "find_sub HEADER_END (l @ crlf @ r)
    = map_option (\<lambda>i. length (l @ crlf) + i) (find_sub HEADER_END r)"
proof -
  have "\<not> occurs_at ((l @ crlf) @ r) HEADER_END j" if "j < length (l @ crlf)" for j
  proof
    assume o: "occurs_at ((l @ crlf) @ r) HEADER_END j"
    then have cr: "((l @ crlf) @ r) ! j = CR"
      using occurs_at_nth(2) [of "(l @ crlf) @ r" CR "[LF, CR, LF]" j] by (simp add: HEADER_END_def)
    then have "j = length l"
      using that assms(1) by (auto simp: nth_append nth_Cons' split: if_splits dest: nth_mem)
    with o have "occurs_at (crlf @ r) HEADER_END 0"
      using occurs_at_append_shift [of l "crlf @ r" HEADER_END 0] by simp
    then show False using assms(2) by (simp add: occurs_at_0 HEADER_END_def)
  qed
  from find_sub_skip [OF this] show ?thesis by simp
qed

lemma find_header_end_render:
  assumes "\<forall>l \<in> set ls. CR \<notin> set l \<and> l \<noteq> []" and "CR \<notin> set c" and "c \<noteq> []"
  shows "find_sub HEADER_END (render ls @ c @ HEADER_END @ body) = Some (length (render ls @ c))"
  using assms(1)
proof (induction ls)
  case Nil
  have "\<not> occurs_at (c @ HEADER_END @ body) HEADER_END j" if "j < length c" for j
  proof
    assume "occurs_at (c @ HEADER_END @ body) HEADER_END j"
    then have "(c @ HEADER_END @ body) ! j = CR"
      using occurs_at_nth(2) [of "c @ HEADER_END @ body" CR "[LF, CR, LF]" j] by (simp add: HEADER_END_def)
    with that assms(2) show False by (auto simp: nth_append dest: nth_mem)
  qed
  from find_sub_skip [OF this] show ?case
    by (simp add: HEADER_END_def)
next
  case (Cons l ls)
  let ?r = "render ls @ c @ HEADER_END @ body"
  obtain x xs where "?r = x # xs" "x \<noteq> CR"
  proof (cases ls)
    case Nil
    with that assms(2,3) show ?thesis by (cases c) auto
  next
    case (Cons m ms)
    with that Cons.prems show ?thesis by (cases m) auto
  qed
  then have "\<not> prefix crlf ?r" by auto
  then have "find_sub HEADER_END (l @ crlf @ ?r)
      = map_option (\<lambda>i. length (l @ crlf) + i) (find_sub HEADER_END ?r)"
    using Cons.prems by (intro find_header_end_line) auto
  with Cons show ?case by simp
qed

section \<open>Compiling a benign request\<close>

text \<open>
  \<open>small\<close> bounds the padded template: all offsets then fit the template's 32-bit fields.
\<close>

definition small_request :: "spec_builder \<Rightarrow> bool" where
  "small_request b \<longleftrightarrow>
     8 \<le> max_body b \<and>
     length (request_head b CL_SENTINEL) + length (body_tpl b) + max_body b < 2 ^ 32"

lemma length_sentinels [simp]: "length BODY_SENTINEL = 8" "length CL_SENTINEL = 12"
  "length HEADER_END = 4"
  by (simp_all add: BODY_SENTINEL_def CL_SENTINEL_def HEADER_END_def)

lemma length_request_head [simp]:
  "length (request_head b cl) = length (render (header_lines b)) + length CL_NAME + length cl + 4"
  by (simp add: request_head_def)

lemma find_header_end_request:
  assumes "benign b" and "CR \<notin> set cl"
  shows "find_sub HEADER_END (request_head b cl @ body)
    = Some (length (render (header_lines b) @ CL_NAME @ cl))"
proof -
  have "\<forall>l \<in> set (header_lines b). CR \<notin> set l \<and> l \<noteq> []"
    using assms(1) header_lines_not_Nil by (auto simp: benign_def list_all_iff clean_line_def)
  from find_header_end_render [OF this, of "CL_NAME @ cl" body] assms(2) show ?thesis
    by (simp add: request_head_def CL_NAME_def)
qed

lemma compile_Ok:
  assumes "bp_sentinel (es_body spec) = sent" and "bp_max_len (es_body spec) = mx"
    and "find_unique (es_bytes spec) sent = Some boff"
    and "es_content_length spec = Some cl"
    and "find_unique (es_bytes spec) (cls_sentinel cl) = Some coff"
    and "coff < boff + length sent" and "length sent \<le> mx" and "boff + length sent < 2 ^ 32" "mx < 2 ^ 32"
    and bytes: "bytes = (if mx > length sent
       then take boff (es_bytes spec) @ replicate mx SP @ drop (boff + length sent) (es_bytes spec)
       else es_bytes spec)"
    and "find_sub HEADER_END bytes = Some hs" and "hs + 4 < 2 ^ 32"
  shows "compile spec = Ok \<lparr>buf = bytes, out = [], body_off = boff, body_max = mx,
    cl_off = Some coff, cl_width = cls_width cl, http_body_start = hs + 4\<rparr>"
proof -
  have u: "u32_expect coff = Ok coff" "u32_expect boff = Ok boff" "u32_expect mx = Ok mx"
    "u32_expect (mx - length sent) = Ok (mx - length sent)"
    "u32_expect (boff + length sent) = Ok (boff + length sent)" "u32_expect (hs + 4) = Ok (hs + 4)"
    for e :: envelope_error
    using assms(6-9,12) by (auto intro!: u32_expect_Ok)
  show ?thesis
    unfolding compile_def Let_def assms(1-4)
    using assms(6,7,11) bytes by (cases "mx > length sent") (simp_all add: u Let_def assms(5))
qed

lemma compile_build:
  assumes "benign b" and small: "small_request b"
    and k: "find_unique (body_tpl b) BODY_SENTINEL = Some k"
  obtains t mid where "compile (build b) = Ok t"
    and "layout t (render (header_lines b) @ CL_NAME) CL_SENTINEL HEADER_END
           (take k (body_tpl b)) mid (drop (k + 8) (body_tpl b))"
    and "cl_width t = 12" and "body_max t = max_body b" and "length (buf t) < 2 ^ 32"
proof -
  let ?R = "request_head b CL_SENTINEL" and ?T = "body_tpl b"
  let ?boff = "length ?R + k" and ?coff = "length (render (header_lines b) @ CL_NAME)"
  let ?mid = "if max_body b > 8 then replicate (max_body b) SP else BODY_SENTINEL"
  let ?bytes = "?R @ take k ?T @ ?mid @ drop (k + 8) ?T"
  have occ: "occurs_at ?T BODY_SENTINEL k" using k by (simp add: find_unique_iff)
  then have kT: "k + 8 \<le> length ?T" and T: "?T = take k ?T @ BODY_SENTINEL @ drop (k + 8) ?T"
    by (auto simp: occurs_at_def) (metis append_take_drop_id drop_drop add.commute)
  have max8: "8 \<le> max_body b"
    and bound: "length ?R + length ?T + max_body b < 2 ^ 32"
    using small by (simp_all add: small_request_def)
  have body: "find_unique (es_bytes (build b)) BODY_SENTINEL = Some ?boff"
    using assms(1) k by (rule find_unique_body)
  have cl: "find_unique (es_bytes (build b)) CL_SENTINEL = Some ?coff"
    using assms(1) by (rule find_unique_cl)
  have end1: "find_sub HEADER_END ?bytes = Some (?coff + 12)"
    using find_header_end_request [OF assms(1), of CL_SENTINEL "take k ?T @ ?mid @ drop (k + 8) ?T"]
    by (simp add: CL_SENTINEL_def)
  have pad: "(if max_body b > 8 then
       take ?boff (es_bytes (build b)) @ replicate (max_body b) SP
         @ drop (?boff + 8) (es_bytes (build b)) else es_bytes (build b)) = ?bytes"
    using T by (auto simp: es_bytes_build add.commute [of 8])
  define t where "t = \<lparr>buf = ?bytes, out = [], body_off = ?boff, body_max = max_body b,
    cl_off = Some ?coff, cl_width = 12, http_body_start = ?coff + 12 + 4\<rparr>"
  have b: "bp_sentinel (es_body (build b)) = BODY_SENTINEL" "bp_max_len (es_body (build b)) = max_body b"
    "es_content_length (build b) = Some \<lparr>cls_sentinel = CL_SENTINEL, cls_width = 12\<rparr>"
    by (simp_all add: build_def Let_def)
  have "compile (build b) = Ok \<lparr>buf = ?bytes, out = [], body_off = ?boff, body_max = max_body b,
      cl_off = Some ?coff, cl_width = cls_width \<lparr>cls_sentinel = CL_SENTINEL, cls_width = 12\<rparr>,
      http_body_start = ?coff + 12 + 4\<rparr>"
    by (rule compile_Ok [OF b(1,2) body b(3)])
       (use cl pad [symmetric] end1 bound kT max8 in \<open>simp_all only: length_sentinels
          content_length_spec.simps\<close>, simp_all)
  then have "compile (build b) = Ok t" by (simp add: t_def)
  moreover have "layout t (render (header_lines b) @ CL_NAME) CL_SENTINEL HEADER_END
           (take k ?T) ?mid (drop (k + 8) ?T)"
    using kT max8 by (auto simp: layout_def t_def request_head_def)
  moreover have "cl_width t = 12" "body_max t = max_body b" by (simp_all add: t_def)
  moreover have "length (buf t) < 2 ^ 32" using bound kT max8 by (simp add: t_def)
  ultimately show ?thesis using that by blast
qed

section \<open>Frames\<close>

text \<open>The request body and the whole request, as functions of the encoded payload.\<close>

definition spliced_body :: "bytes \<Rightarrow> bytes \<Rightarrow> bytes" where
  "spliced_body tpl e =
     (case find_unique tpl BODY_SENTINEL of
        Some k \<Rightarrow> take k tpl @ e @ drop (k + 8) tpl
      | None \<Rightarrow> tpl)"

definition request_frame :: "spec_builder \<Rightarrow> bytes \<Rightarrow> bytes" where
  "request_frame b e =
     (let body = spliced_body (body_tpl b) e
      in request_head b (cl_field 12 (length body)) @ body)"

lemma length_spliced_body:
  assumes "find_unique tpl BODY_SENTINEL = Some k"
  shows "length (spliced_body tpl e) + 8 = length tpl + length e"
proof -
  have "k + 8 \<le> length tpl" using assms by (simp add: find_unique_iff occurs_at_def)
  then show ?thesis using assms by (simp add: spliced_body_def)
qed

lemma length_decimal_u32: "n < 2 ^ 32 \<Longrightarrow> length (decimal n) \<le> 12"
  by (rule length_decimal_le) auto

lemma splice_benign:
  assumes enc: "length (enc tx) = (length tx + 2) div 3 * 4"
    and b: "benign b" "small_request b" and fits: "(length tx + 2) div 3 * 4 \<le> max_body b"
    and t: "compile (build b) = Ok t"
  shows "envelope_splice enc tx t
    = (Ok (request_frame b (enc tx)), t\<lparr>out := request_frame b (enc tx)\<rparr>)"
proof -
  obtain k where k: "find_unique (body_tpl b) BODY_SENTINEL = Some k"
    using b(1) by (auto simp: benign_def)
  let ?pre = "take k (body_tpl b)" and ?post = "drop (k + 8) (body_tpl b)"
  obtain mid where lay: "layout t (render (header_lines b) @ CL_NAME) CL_SENTINEL HEADER_END
        ?pre mid ?post"
    and w: "cl_width t = 12" and bm: "body_max t = max_body b" and len: "length (buf t) < 2 ^ 32"
    using compile_build [OF b k] t by (metis res.inject(1))
  have body: "spliced_body (body_tpl b) (enc tx) = ?pre @ enc tx @ ?post"
    using k by (simp add: spliced_body_def)
  have "length (spliced_body (body_tpl b) (enc tx)) < 2 ^ 32"
    using length_spliced_body [OF k, of "enc tx"] b(2) fits enc by (simp add: small_request_def)
  then have "length (decimal (length (?pre @ enc tx @ ?post))) \<le> cl_width t"
    unfolding body [symmetric] w by (rule length_decimal_u32)
  from splice_layout [where enc = enc and tx = tx, OF lay enc _ this] len fits bm enc body w
  show ?thesis by (simp add: request_frame_def request_head_def Let_def)
qed

lemma compile_benign: "benign b \<Longrightarrow> small_request b \<Longrightarrow> \<exists>t. compile (build b) = Ok t"
  by (metis benign_def compile_build not_Some_eq)

text \<open>Splicing reads the compiled buffer only, never the previous output.\<close>

lemma patch_out_irrelevant:
  "patch_content_length c o3 (t\<lparr>out := w\<rparr>) = patch_content_length c o3 t"
  by (simp add: patch_content_length_def Let_def cong: if_cong)

lemma splice_out_irrelevant:
  "fst (envelope_splice enc tx (t\<lparr>out := w\<rparr>)) = fst (envelope_splice enc tx t)"
  by (simp add: envelope_splice_def patch_out_irrelevant Let_def cong: if_cong
      split: res.split option.split)

lemma splice_state: "\<exists>w. snd (envelope_splice enc tx t) = t\<lparr>out := w\<rparr>"
proof -
  have "\<exists>w. t = t\<lparr>out := w\<rparr>" by (rule exI [of _ "out t"]) simp
  then show ?thesis
    by (auto simp: envelope_splice_def Let_def split: res.split option.split)
qed

fun splice_all :: "(bytes \<Rightarrow> bytes) \<Rightarrow> bytes list \<Rightarrow> envelope_template \<Rightarrow> envelope_template" where
  "splice_all enc [] t = t"
| "splice_all enc (tx # txs) t = splice_all enc txs (snd (envelope_splice enc tx t))"

lemma splice_all_state: "\<exists>w. splice_all enc txs t = t\<lparr>out := w\<rparr>"
proof (induction txs arbitrary: t)
  case Nil
  show ?case by (rule exI [of _ "out t"]) simp
next
  case (Cons tx txs)
  obtain w where "snd (envelope_splice enc tx t) = t\<lparr>out := w\<rparr>" using splice_state by blast
  with Cons.IH [of "t\<lparr>out := w\<rparr>"] show ?case by simp
qed

section \<open>Properties\<close>

text \<open>The default JSON-RPC request is benign for every clean path and host.\<close>

lemma find_unique_default: "find_unique DEFAULT_BODY BODY_SENTINEL = Some 62"
  by (rule find_unique_search) (simp_all add: DEFAULT_BODY_def BODY_SENTINEL_def)

lemma default_no_cl: "find_sub CL_SENTINEL DEFAULT_BODY = None"
  by (simp add: DEFAULT_BODY_def CL_SENTINEL_def)

lemma send_transaction_benign:
  assumes "clean_line (''POST '' @ path @ '' HTTP/1.1'')" and "clean_line (''Host: '' @ h)"
  shows "benign (send_transaction path h m)"
  using assms default_no_cl find_unique_default
  by (simp add: benign_def send_transaction_def builder_new_def header_lines_def request_path_def
      clean_line_def utf8_ok_ascii_Cons)

lemma send_transaction_small:
  "8 \<le> m \<Longrightarrow> length path + length h + m < 2 ^ 31 \<Longrightarrow> small_request (send_transaction path h m)"
  by (simp add: small_request_def send_transaction_def builder_new_def header_lines_def
      request_path_def DEFAULT_BODY_def CL_SENTINEL_def CL_NAME_def)

lemma small_benign:
  "benign (send_transaction ''/'' ''h'' 16)" "small_request (send_transaction ''/'' ''h'' 16)"
  by (rule send_transaction_benign, simp_all add: clean_line_def utf8_ok_ascii_Cons)
     (rule send_transaction_small, simp_all)

text \<open>
  C1. For a benign request whose padded size fits 32-bit offsets, compiling succeeds, and
  splicing any transaction whose base64 form fits \<open>max_body\<close> returns exactly the request frame:
  the header with the true body length in Content-Length, then the body template with the
  placeholder replaced by the encoded transaction. This holds after any history of earlier
  splices of other transactions, whether they succeeded or not.
\<close>

theorem splice_produces_frame:
  assumes "base64_standard enc dec" and "benign b" and "small_request b"
    and "(length tx + 2) div 3 * 4 \<le> max_body b"
  shows "\<exists>t. compile (build b) = Ok t \<and>
    (\<forall>history. fst (envelope_splice enc tx (splice_all enc history t))
       = Ok (request_frame b (enc tx)))"
proof -
  obtain t where t: "compile (build b) = Ok t" using compile_benign assms(2,3) by blast
  have "fst (envelope_splice enc tx (splice_all enc h t)) = Ok (request_frame b (enc tx))" for h
    using splice_benign [where enc = enc and tx = tx,
        OF base64_standard.enc_length [OF assms(1)] assms(2-4) t]
      splice_all_state [of enc h t] splice_out_irrelevant by (metis fst_conv)
  with t show ?thesis by blast
qed

theorem splice_produces_frame_witness:
  "\<exists>t. compile (build (send_transaction ''/'' ''h'' 16)) = Ok t \<and>
    (\<forall>history. fst (envelope_splice rfc4648_encode ''abc'' (splice_all rfc4648_encode history t))
       = Ok (request_frame (send_transaction ''/'' ''h'' 16) (rfc4648_encode ''abc'')))"
  by (rule splice_produces_frame [OF rfc4648.base64_standard_axioms small_benign])
     (simp add: send_transaction_def builder_new_def)

end
