(* ===== verification/Http_Engine.thy ===== *)
theory Http_Engine
  imports Envelope_Frame
begin

text \<open>
  \<open>protocol/http/engine.rs\<close>: the HTTP/1.1 engine of one connection. It holds the TLS session,
  the compiled envelope and the plaintext received so far. The TLS session is the third-party
  crate \<open>rustls\<close>: a state of type \<open>'t\<close> and the operations of \<open>tls_ops\<close>, arguments of every
  definition that uses them.
\<close>

section \<open>Finding a complete response\<close>

fun find_map :: "('a \<Rightarrow> 'b option) \<Rightarrow> 'a list \<Rightarrow> 'b option" where
  "find_map f [] = None"
| "find_map f (x # xs) = (case f x of None \<Rightarrow> find_map f xs | Some y \<Rightarrow> Some y)"

definition CL_PREFIX :: bytes where
  "CL_PREFIX = ''content-length:''"

definition content_length_value :: "bytes \<Rightarrow> bytes option" where
  "content_length_value l =
     (if length l \<ge> length CL_PREFIX
         \<and> eq_ignore_ascii_case (take (length CL_PREFIX) l) CL_PREFIX
      then Some (trim (drop (length CL_PREFIX) l)) else None)"

text \<open>The borrowed body, \<open>Ok None\<close> while the response is incomplete or not understood.\<close>

definition body_if_complete :: "bytes \<Rightarrow> (bytes option, transport_error) res" where
  "body_if_complete acc =
     (case find_sub HEADER_END acc of
        None \<Rightarrow> Ok None
      | Some p \<Rightarrow>
        (let header_end = p + 4
         in case from_utf8 (take header_end acc) of
              None \<Rightarrow> Ok None
            | Some headers \<Rightarrow>
              (case find_map content_length_value (lines headers) of
                 None \<Rightarrow> Ok None
               | Some cl \<Rightarrow>
                 (case parse_usize cl of
                    None \<Rightarrow> Ok None
                  | Some len \<Rightarrow>
                    if length acc \<ge> usize_add header_end len
                    then bind_res (slice_of acc header_end (usize_add header_end len))
                           (\<lambda>b. Ok (Some b))
                    else Ok None))))"

section \<open>The TLS session\<close>

text \<open>
  The calls the engine makes on a \<open>ClientConnection\<close>. \<open>tls_write_tls\<close> returns the bytes it wrote
  to the sink, \<open>tls_read_tls\<close> the number of bytes it took from the front of the source,
  \<open>tls_read n\<close> what \<open>reader().read\<close> stored in a buffer of \<open>n\<close> bytes.
\<close>

record 't tls_ops =
  tls_server_name :: "bytes \<Rightarrow> (bytes, bytes) res"
  tls_new :: "bytes \<Rightarrow> ('t, bytes) res"
  tls_is_handshaking :: "'t \<Rightarrow> bool"
  tls_wants_write :: "'t \<Rightarrow> bool"
  tls_write_tls :: "'t \<Rightarrow> (bytes, io_error) res \<times> 't"
  tls_write_all :: "bytes \<Rightarrow> 't \<Rightarrow> (unit, io_error) res \<times> 't"
  tls_read_tls :: "bytes \<Rightarrow> 't \<Rightarrow> (nat, io_error) res \<times> 't"
  tls_process_new_packets :: "'t \<Rightarrow> (unit, bytes) res \<times> 't"
  tls_read :: "nat \<Rightarrow> 't \<Rightarrow> (bytes, io_error) res \<times> 't"

record 't http_engine =
  tls :: 't
  envelope :: envelope_template
  rx_plain :: bytes
  ciphertext :: bytes

definition MAX_RESPONSE :: nat where
  "MAX_RESPONSE = 64 * 1024"

definition engine_new ::
  "'t tls_ops \<Rightarrow> bytes \<Rightarrow> envelope_template \<Rightarrow> ('t http_engine, transport_error) res" where
  "engine_new T server_name env =
     bind_res (map_err Tls (tls_server_name T server_name)) (\<lambda>name.
     bind_res (map_err Tls (tls_new T name)) (\<lambda>t.
     Ok \<lparr>tls = t, envelope = env, rx_plain = [], ciphertext = []\<rparr>))"

definition is_handshaking :: "'t tls_ops \<Rightarrow> 't http_engine \<Rightarrow> bool" where
  "is_handshaking T e = tls_is_handshaking T (tls e)"

text \<open>
  Draining the session's output. During the handshake errors are ignored and the loop goes
  on; on the send path an error ends it. Both loops run as long as the session wants to write.
\<close>

partial_function (option) handshake_write_loop ::
  "'t tls_ops \<Rightarrow> 't \<Rightarrow> bytes \<Rightarrow> (bytes \<times> 't) option" where
  "handshake_write_loop T t acc =
     (if tls_wants_write T t then
        (case tls_write_tls T t of (r, t') \<Rightarrow>
           handshake_write_loop T t' (case r of Ok bs \<Rightarrow> acc @ bs | _ \<Rightarrow> acc))
      else Some (acc, t))"

definition handshake_ciphertext ::
  "'t tls_ops \<Rightarrow> 't http_engine \<Rightarrow> (bytes, transport_error) res \<times> 't http_engine" where
  "handshake_ciphertext T e =
     (case handshake_write_loop T (tls e) [] of
        None \<Rightarrow> (Hang, e)
      | Some (bs, t') \<Rightarrow> (Ok bs, e\<lparr>tls := t'\<rparr>))"

partial_function (option) encode_write_loop ::
  "'t tls_ops \<Rightarrow> 't \<Rightarrow> bytes \<Rightarrow> ((unit, io_error) res \<times> bytes \<times> 't) option" where
  "encode_write_loop T t acc =
     (if tls_wants_write T t then
        (case tls_write_tls T t of (r, t') \<Rightarrow>
           (case r of
              Ok bs \<Rightarrow> encode_write_loop T t' (acc @ bs)
            | Err er \<Rightarrow> Some (Err er, acc, t')
            | Panic \<Rightarrow> Some (Panic, acc, t')
            | Hang \<Rightarrow> Some (Hang, acc, t')))
      else Some (Ok (), acc, t))"

definition engine_encode ::
  "'t tls_ops \<Rightarrow> (bytes \<Rightarrow> bytes) \<Rightarrow> bytes \<Rightarrow> 't http_engine
     \<Rightarrow> (bytes, transport_error) res \<times> 't http_engine" where
  "engine_encode T enc tx e =
     (case envelope_splice enc tx (envelope e) of (r, env) \<Rightarrow>
      let e = e\<lparr>envelope := env\<rparr>
      in bind_st (map_err EnvelopeErr r, e) (\<lambda>frame e.
      case tls_write_all T frame (tls e) of (r, t) \<Rightarrow>
      let e = e\<lparr>tls := t\<rparr>
      in bind_st (map_err Io r, e) (\<lambda>_ e.
      let e = e\<lparr>ciphertext := []\<rparr>
      in case encode_write_loop T (tls e) [] of
           None \<Rightarrow> (Hang, e)
         | Some (r, c, t) \<Rightarrow>
           let e = e\<lparr>tls := t, ciphertext := c\<rparr>
           in bind_st (map_err Io r, e) (\<lambda>_ e. (Ok (ciphertext e), e)))))"

section \<open>Receiving\<close>

text \<open>Every pass of the record loop consumes at least one byte, so it ends.\<close>

function read_tls_loop ::
  "'t tls_ops \<Rightarrow> bytes \<Rightarrow> 't \<Rightarrow> (unit, transport_error) res \<times> 't" where
  "read_tls_loop T cipher t =
     (if cipher = [] then (Ok (), t)
      else case tls_read_tls T cipher t of (r, t1) \<Rightarrow>
        (case r of
           Ok n \<Rightarrow>
             if n = 0 then (Ok (), t1)
             else (case tls_process_new_packets T t1 of (r2, t2) \<Rightarrow>
                     (case r2 of
                        Ok _ \<Rightarrow> read_tls_loop T (drop n cipher) t2
                      | Err m \<Rightarrow> (Err (Tls m), t2)
                      | Panic \<Rightarrow> (Panic, t2)
                      | Hang \<Rightarrow> (Hang, t2)))
         | Err er \<Rightarrow> (Err (Io er), t1)
         | Panic \<Rightarrow> (Panic, t1)
         | Hang \<Rightarrow> (Hang, t1)))"
  by pat_completeness auto
termination
  by (relation "measure (\<lambda>(T, c, t). length c)") auto

declare read_tls_loop.simps [simp del]

partial_function (option) read_plain_loop ::
  "'t tls_ops \<Rightarrow> 't \<Rightarrow> bytes \<Rightarrow> ((unit, transport_error) res \<times> bytes \<times> 't) option" where
  "read_plain_loop T t acc =
     (case tls_read T 2048 t of (r, t') \<Rightarrow>
        (case r of
           Ok bs \<Rightarrow> if bs = [] then Some (Ok (), acc, t') else read_plain_loop T t' (acc @ bs)
         | Err er \<Rightarrow>
             if kind er = WouldBlock then Some (Ok (), acc, t') else Some (Err (Io er), acc, t')
         | Panic \<Rightarrow> Some (Panic, acc, t')
         | Hang \<Rightarrow> Some (Hang, acc, t')))"

definition TOO_LARGE :: transport_error where
  "TOO_LARGE = Tls ''response exceeds maximum size''"

text \<open>The end of \<open>ingest\<close>: hand out a complete body and forget everything received.\<close>

definition settle ::
  "'t http_engine \<Rightarrow> (bytes option, transport_error) res \<times> 't http_engine" where
  "settle e =
     (case body_if_complete (rx_plain e) of
        Ok (Some body) \<Rightarrow> (Ok (Some body), e\<lparr>rx_plain := []\<rparr>)
      | Ok None \<Rightarrow>
          if length (rx_plain e) > MAX_RESPONSE then (Err TOO_LARGE, e) else (Ok None, e)
      | Err er \<Rightarrow> (Err er, e)
      | Panic \<Rightarrow> (Panic, e)
      | Hang \<Rightarrow> (Hang, e))"

definition ingest ::
  "'t tls_ops \<Rightarrow> bytes \<Rightarrow> 't http_engine
     \<Rightarrow> (bytes option, transport_error) res \<times> 't http_engine" where
  "ingest T cipher e =
     (if cipher \<noteq> [] then
        (case read_tls_loop T cipher (tls e) of (r, t) \<Rightarrow>
         bind_st (r, e\<lparr>tls := t\<rparr>) (\<lambda>_ e.
         case read_plain_loop T (tls e) (rx_plain e) of
           None \<Rightarrow> (Hang, e)
         | Some (r, rx, t) \<Rightarrow>
           bind_st (r, e\<lparr>rx_plain := rx, tls := t\<rparr>) (\<lambda>_ e. settle e)))
      else settle e)"

section \<open>Complete responses\<close>

text \<open>A message in the shape HTTP gives it: header lines, an empty line, the body.\<close>

definition http_message :: "bytes list \<Rightarrow> bytes \<Rightarrow> bytes" where
  "http_message hs body = render hs @ crlf @ body"

definition header_ok :: "bytes list \<Rightarrow> bool" where
  "header_ok hs \<longleftrightarrow> hs \<noteq> [] \<and>
     list_all (\<lambda>l. l \<noteq> [] \<and> utf8_ok l \<and> CR \<notin> set l \<and> LF \<notin> set l) hs"

lemma utf8_ok_render: "list_all utf8_ok hs \<Longrightarrow> utf8_ok (render hs)"
  by (induction hs) (auto simp: utf8_ok_append)

lemma lines_render:
  "list_all (\<lambda>l. CR \<notin> set l \<and> LF \<notin> set l) hs \<Longrightarrow> lines (render hs @ s) = hs @ lines s"
proof (induction hs)
  case (Cons l hs)
  then show ?case using lines_crlf [of l "render hs @ s"] by simp
qed simp

lemma lines_header:
  assumes "header_ok hs"
  shows "lines (render hs @ crlf) = hs @ [[]]"
proof -
  have "lines ([] @ crlf @ []) = [[]]" by (subst lines_crlf) auto
  then show ?thesis
    using lines_render [of hs crlf] assms by (simp add: header_ok_def list_all_iff)
qed

lemma find_header_end_message:
  assumes "header_ok hs"
  shows "find_sub HEADER_END (http_message hs body) = Some (length (render hs) - 2)"
proof -
  obtain ms c where hs: "hs = ms @ [c]" using assms by (metis header_ok_def rev_exhaust)
  have "find_sub HEADER_END (render ms @ c @ HEADER_END @ body) = Some (length (render ms @ c))"
    by (rule find_header_end_render) (use assms hs in \<open>auto simp: header_ok_def list_all_iff\<close>)
  then show ?thesis by (simp add: hs http_message_def HEADER_END_def)
qed

lemma header_length: "header_ok hs \<Longrightarrow> 2 \<le> length (render hs)"
  by (cases hs) (auto simp: header_ok_def)

lemma take_header:
  assumes "header_ok hs"
  shows "take (length (render hs) - 2 + 4) (http_message hs body) = render hs @ crlf"
  using header_length [OF assms] by (simp add: http_message_def)

lemma find_map_append:
  "find_map f (xs @ ys) = (case find_map f xs of None \<Rightarrow> find_map f ys | Some y \<Rightarrow> Some y)"
  by (induction xs) (auto split: option.splits)

lemma content_length_value_Nil [simp]: "content_length_value [] = None"
  by (simp add: content_length_value_def CL_PREFIX_def)

text \<open>What \<open>body_if_complete\<close> computes once the whole header is there.\<close>

lemma body_if_complete_header:
  assumes h: "header_ok hs" and v: "find_map content_length_value hs = Some v"
    and len: "parse_usize v = Some n"
  defines "he \<equiv> length (render hs) + 2"
  shows "body_if_complete (http_message hs body) =
    (if length (http_message hs body) \<ge> usize_add he n
     then bind_res (slice_of (http_message hs body) he (usize_add he n)) (\<lambda>b. Ok (Some b))
     else Ok None)"
proof -
  have he: "length (render hs) - 2 + 4 = he"
    using header_length [OF h] by (simp add: he_def)
  have u: "from_utf8 (render hs @ crlf) = Some (render hs @ crlf)"
    using h by (simp add: from_utf8_def utf8_ok_append utf8_ok_render header_ok_def list_all_iff)
  have "find_map content_length_value (lines (render hs @ crlf)) = Some v"
    using v by (simp only: lines_header [OF h] find_map_append) simp
  then show ?thesis
    unfolding body_if_complete_def find_header_end_message [OF h] Let_def option.case
      take_header [OF h] u
    using len he by simp
qed

lemma body_if_complete_message:
  assumes "header_ok hs" and "find_map content_length_value hs = Some v"
    and "parse_usize v = Some (length body)"
    and "length (http_message hs (body @ rest)) < 2 ^ 64"
  shows "body_if_complete (http_message hs (body @ rest)) = Ok (Some body)"
proof -
  let ?he = "length (render hs) + 2"
  have "?he + length body < 2 ^ 64" using assms(4) by (simp add: http_message_def)
  then have "usize_add ?he (length body) = ?he + length body" by (rule usize_add_small)
  then show ?thesis
    unfolding body_if_complete_header [OF assms(1-3)] by (simp add: http_message_def)
qed

text \<open>A proper prefix of a message with an exact body is never taken for complete.\<close>

lemma find_sub_prefix:
  assumes "find_sub n q = Some i" and "prefix q r"
  shows "find_sub n r = Some i"
proof -
  obtain s where r: "r = q @ s" using assms(2) by (auto simp: prefix_def)
  have i: "occurs_at q n i" "\<forall>j < i. \<not> occurs_at q n j"
    using assms(1) by (simp_all add: find_sub_Some_iff)
  have "\<not> occurs_at r n j" if "j < i" for j
    using i that by (auto simp: occurs_at_def r)
  then show ?thesis
    using i(1) occurs_at_append_left by (auto simp: find_sub_Some_iff r)
qed

lemma body_if_complete_prefix:
  assumes full: "body_if_complete r = Ok (Some body)"
    and exact: "find_sub HEADER_END r = Some p" "length r = p + 4 + length body"
    and q: "strict_prefix q r"
  shows "body_if_complete q = Ok None"
proof (cases "find_sub HEADER_END q")
  case None
  then show ?thesis by (simp add: body_if_complete_def)
next
  case (Some p')
  then have p': "p' = p"
    using find_sub_prefix [of HEADER_END q p' r] q exact(1) by simp
  have "p + 4 \<le> length q" using find_sub_bound [OF Some] p' by simp
  then have hd_eq: "take (p + 4) q = take (p + 4) r"
    using q by (auto simp: strict_prefix_def prefix_def)
  have lq: "length q < length r" using q by (rule prefix_length_less)
  from full exact(1) obtain hd v n where
    "from_utf8 (take (p + 4) r) = Some hd" "find_map content_length_value (lines hd) = Some v"
    "parse_usize v = Some n" and
    sl: "slice_of r (p + 4) (usize_add (p + 4) n) = (Ok body :: (bytes, transport_error) res)"
    by (auto simp: body_if_complete_def Let_def bind_res_Ok_iff split: option.splits if_splits)
  moreover from sl exact(2) have "usize_add (p + 4) n = length r"
    by (auto simp: slice_of_Ok_iff)
  ultimately show ?thesis
    using Some p' hd_eq lq by (simp add: body_if_complete_def)
qed

section \<open>Segmentation\<close>

text \<open>Reading plaintext appends to the buffer whatever the session holds.\<close>

lemma read_plain_loop_shift:
  assumes "read_plain_loop T t acc = Some (r, q, t')"
  shows "\<exists>p. q = acc @ p \<and> (\<forall>acc'. read_plain_loop T t acc' = Some (r, acc' @ p, t'))"
proof (rule read_plain_loop.raw_induct [where P = "\<lambda>T t acc y. \<exists>p. fst (snd y) = acc @ p \<and>
      (\<forall>acc'. read_plain_loop T t acc' = Some (fst y, acc' @ p, snd (snd y)))", OF _ assms,
      simplified])
  fix f :: "'a tls_ops \<Rightarrow> 'a \<Rightarrow> bytes \<Rightarrow> ((unit, transport_error) res \<times> bytes \<times> 'a) option"
    and T t acc y
  let ?P = "\<lambda>T t acc y. \<exists>p. fst (snd y) = acc @ p \<and>
      (\<forall>acc'. read_plain_loop T t acc' = Some (fst y, acc' @ p, snd (snd y)))"
  assume IH: "\<And>T t acc y. f T t acc = Some y \<Longrightarrow> ?P T t acc y"
    and eq: "(case tls_read T 2048 t of (r, t') \<Rightarrow> (case r of
           Ok bs \<Rightarrow> if bs = [] then Some (Ok (), acc, t') else f T t' (acc @ bs)
         | Err er \<Rightarrow>
             if kind er = WouldBlock then Some (Ok (), acc, t') else Some (Err (Io er), acc, t')
         | Panic \<Rightarrow> Some (Panic, acc, t')
         | Hang \<Rightarrow> Some (Hang, acc, t'))) = Some y"
  show "?P T t acc y"
  proof (cases "\<exists>bs t1. tls_read T 2048 t = (Ok bs, t1) \<and> bs \<noteq> []")
    case True
    then obtain bs t1 where rd: "tls_read T 2048 t = (Ok bs, t1)" "bs \<noteq> []" by blast
    with eq IH [of T t1 "acc @ bs" y] obtain p where
      "fst (snd y) = (acc @ bs) @ p"
      "\<forall>acc'. read_plain_loop T t1 acc' = Some (fst y, acc' @ p, snd (snd y))" by auto
    then show ?thesis
      using rd by (intro exI [of _ "bs @ p"]) (simp add: read_plain_loop.simps [of T t])
  next
    case False
    with eq have "fst (snd y) = acc"
      and "\<forall>acc'. read_plain_loop T t acc' = Some (fst y, acc', snd (snd y))"
      by (auto simp: read_plain_loop.simps [of T t] split: prod.splits res.splits if_splits)
    then show ?thesis by (intro exI [of _ "[]"]) simp
  qed
qed

text \<open>
  \<open>tls_delivers T t cs ps t'\<close>: the session, fed the non-empty ciphertext segments \<open>cs\<close>, decrypts
  them without error and hands out the plaintext pieces \<open>ps\<close>, one per segment.
\<close>

inductive tls_delivers :: "'t tls_ops \<Rightarrow> 't \<Rightarrow> bytes list \<Rightarrow> bytes list \<Rightarrow> 't \<Rightarrow> bool" for T where
  none: "tls_delivers T t [] [] t"
| segment: "c \<noteq> [] \<Longrightarrow> read_tls_loop T c t = (Ok (), t1) \<Longrightarrow>
    read_plain_loop T t1 [] = Some (Ok (), p, t2) \<Longrightarrow> tls_delivers T t2 cs ps t' \<Longrightarrow>
    tls_delivers T t (c # cs) (p # ps) t'"

inductive_cases tls_delivers_ConsE: "tls_delivers T t (c # cs) ps t'"

fun ingest_all :: "'t tls_ops \<Rightarrow> bytes list \<Rightarrow> 't http_engine
    \<Rightarrow> (bytes option, transport_error) res list \<times> 't http_engine" where
  "ingest_all T [] e = ([], e)"
| "ingest_all T (c # cs) e =
     (case ingest T c e of (r, e1) \<Rightarrow> case ingest_all T cs e1 of (rs, e2) \<Rightarrow> (r # rs, e2))"

lemma ingest_segment:
  assumes "c \<noteq> []" and "read_tls_loop T c (tls e) = (Ok (), t1)"
    and "read_plain_loop T t1 [] = Some (Ok (), p, t2)"
  shows "ingest T c e = settle (e\<lparr>rx_plain := rx_plain e @ p, tls := t2\<rparr>)"
proof -
  have "read_plain_loop T t1 (rx_plain e) = Some (Ok (), rx_plain e @ p, t2)"
    using read_plain_loop_shift [OF assms(3)] by auto
  with assms(1,2) show ?thesis by (simp add: ingest_def)
qed

definition exact_response :: "bytes \<Rightarrow> bytes \<Rightarrow> bool" where
  "exact_response r body \<longleftrightarrow>
     body_if_complete r = Ok (Some body) \<and>
     (\<exists>p. find_sub HEADER_END r = Some p \<and> length r = p + 4 + length body)"

lemma settle_partial:
  assumes "exact_response r body" and "length r \<le> MAX_RESPONSE" and "strict_prefix (rx_plain e) r"
  shows "settle e = (Ok None, e)"
  using assms body_if_complete_prefix [of r body _ "rx_plain e"] prefix_length_less [OF assms(3)]
  by (auto simp: settle_def exact_response_def)

lemma settle_complete:
  "exact_response (rx_plain e) body \<Longrightarrow> settle e = (Ok (Some body), e\<lparr>rx_plain := []\<rparr>)"
  by (simp add: settle_def exact_response_def)

lemma ingest_all_response:
  assumes "tls_delivers T (tls e) cs ps t'" and "exact_response r body"
    and "length r \<le> MAX_RESPONSE" and "rx_plain e @ concat ps = r"
    and "ps \<noteq> []" and "last ps \<noteq> []"
  shows "ingest_all T cs e
    = (replicate (length cs - 1) (Ok None) @ [Ok (Some body)], e\<lparr>rx_plain := [], tls := t'\<rparr>)"
  using assms
proof (induction cs arbitrary: e ps)
  case Nil
  then show ?case by (auto elim: tls_delivers.cases)
next
  case (Cons c cs)
  from Cons.prems(1) obtain t1 p t2 qs where
    c: "c \<noteq> []" "read_tls_loop T c (tls e) = (Ok (), t1)"
      "read_plain_loop T t1 [] = Some (Ok (), p, t2)"
    and ps: "ps = p # qs" and rest: "tls_delivers T t2 cs qs t'"
    by (rule tls_delivers_ConsE) blast
  let ?e = "e\<lparr>rx_plain := rx_plain e @ p, tls := t2\<rparr>"
  have step: "ingest T c e = settle ?e" using c by (rule ingest_segment)
  show ?case
  proof (cases cs)
    case Nil
    with rest have "qs = []" "t2 = t'" by (auto elim: tls_delivers.cases)
    with Cons.prems(2,4) ps have "settle ?e = (Ok (Some body), ?e\<lparr>rx_plain := []\<rparr>)"
      by (intro settle_complete) simp
    with step Nil \<open>t2 = t'\<close> show ?thesis by simp
  next
    case (Cons c2 cs2)
    with rest have qs: "qs \<noteq> []" by (auto elim: tls_delivers.cases)
    then have "concat qs \<noteq> []" using Cons.prems(6) ps by (metis concat_eq_Nil_conv last_ConsR last_in_set)
    then have "strict_prefix (rx_plain ?e) r" using Cons.prems(4) ps by (auto simp: strict_prefix_def)
    then have none: "settle ?e = (Ok None, ?e)"
      using Cons.prems(2,3) by (intro settle_partial)
    have "ingest_all T cs ?e = (replicate (length cs - 1) (Ok None) @ [Ok (Some body)],
        ?e\<lparr>rx_plain := [], tls := t'\<rparr>)"
      using Cons.IH [of ?e qs] rest Cons.prems qs ps by simp
    with step none Cons show ?thesis by simp
  qed
qed

section \<open>Termination\<close>

text \<open>
  \<open>tls_returns T measure\<close>: the session's own calls return, every non-empty read takes from a
  finite store of plaintext, and every write takes from a finite store of output.
\<close>

definition tls_returns :: "'t tls_ops \<Rightarrow> ('t \<Rightarrow> nat) \<Rightarrow> ('t \<Rightarrow> nat) \<Rightarrow> bool" where
  "tls_returns T plain pending \<longleftrightarrow>
     (\<forall>t n. fst (tls_read T n t) \<noteq> Hang) \<and>
     (\<forall>t c. fst (tls_read_tls T c t) \<noteq> Hang) \<and>
     (\<forall>t. fst (tls_process_new_packets T t) \<noteq> Hang) \<and>
     (\<forall>t f. fst (tls_write_all T f t) \<noteq> Hang) \<and>
     (\<forall>t n bs t'. tls_read T n t = (Ok bs, t') \<longrightarrow> bs \<noteq> [] \<longrightarrow> plain t' < plain t) \<and>
     (\<forall>t. tls_wants_write T t \<longrightarrow> fst (tls_write_tls T t) \<noteq> Hang
        \<and> pending (snd (tls_write_tls T t)) < pending t)"

lemma read_plain_loop_returns:
  assumes "tls_returns T plain pending"
  shows "\<exists>r q t'. read_plain_loop T t acc = Some (r, q, t') \<and> r \<noteq> Hang"
proof (induction "plain t" arbitrary: t acc rule: less_induct)
  case less
  obtain r t' where rd: "tls_read T 2048 t = (r, t')" by force
  have nh: "r \<noteq> Hang" using assms rd by (metis tls_returns_def fst_conv)
  show ?case
  proof (cases "\<exists>bs. r = Ok bs \<and> bs \<noteq> []")
    case True
    then obtain bs where bs: "r = Ok bs" "bs \<noteq> []" by blast
    then have "plain t' < plain t" using assms rd by (auto simp: tls_returns_def)
    from less [OF this] rd bs show ?thesis by (simp add: read_plain_loop.simps [of T t])
  next
    case False
    with rd nh show ?thesis
      by (auto simp: read_plain_loop.simps [of T t] split: res.splits)
  qed
qed

lemma read_tls_loop_returns:
  assumes "tls_returns T plain pending"
  shows "fst (read_tls_loop T c t) \<noteq> Hang"
proof (induction "length c" arbitrary: c t rule: less_induct)
  case less
  obtain r t1 where rd: "tls_read_tls T c t = (r, t1)" by force
  obtain r2 t2 where pr: "tls_process_new_packets T t1 = (r2, t2)" by force
  have nh: "r \<noteq> Hang" "r2 \<noteq> Hang" using assms rd pr by (metis tls_returns_def fst_conv)+
  have "fst (read_tls_loop T (drop n c) t2) \<noteq> Hang" if "c \<noteq> []" "n \<noteq> 0" for n
    using that by (intro less) (cases c; simp)
  with rd pr nh show ?case
    by (auto simp: read_tls_loop.simps [of T c t] split: res.splits)
qed

lemma encode_write_loop_returns:
  assumes "tls_returns T plain pending"
  shows "\<exists>r c t'. encode_write_loop T t acc = Some (r, c, t') \<and> r \<noteq> Hang"
proof (induction "pending t" arbitrary: t acc rule: less_induct)
  case less
  obtain r t' where wr: "tls_write_tls T t = (r, t')" by force
  show ?case
  proof (cases "tls_wants_write T t")
    case True
    then have "r \<noteq> Hang" "pending t' < pending t"
      using assms wr by (metis tls_returns_def fst_conv snd_conv)+
    with less [of t'] True wr show ?thesis
      by (cases r) (simp_all add: encode_write_loop.simps [of T t])
  qed (simp add: encode_write_loop.simps [of T t])
qed

lemma body_if_complete_not_Hang: "body_if_complete acc \<noteq> Hang"
  by (auto simp: body_if_complete_def Let_def slice_of_def split: option.splits)

lemma settle_not_Hang: "fst (settle e) \<noteq> Hang"
  using body_if_complete_not_Hang [of "rx_plain e"]
  by (auto simp: settle_def split: res.splits option.splits)

lemma cl_digits_loop_not_Hang: "cl_digits_loop s n pos \<noteq> Hang"
  by (induction s n pos rule: cl_digits_loop.induct)
     (subst cl_digits_loop.simps, auto simp: Let_def)

lemma patch_not_Hang: "patch_content_length c o3 t \<noteq> Hang"
  using cl_digits_loop_not_Hang [of "replicate 20 (CHR 0x00)"]
  by (auto simp: patch_content_length_def Let_def copy_into_def bind_res_Hang_iff)

lemma splice_not_Hang: "fst (envelope_splice enc tx t) \<noteq> Hang"
  using patch_not_Hang
  by (auto simp: envelope_splice_def Let_def copy_into_def slice_of_def
      split: res.splits option.splits)

text \<open>
  C25. Encoding a transaction and ingesting received bytes always return, whatever the bytes
  are, as long as the TLS session's own calls return and it holds finitely much plaintext and
  output: neither the record loop, nor the plaintext loop, nor the flush loop spins forever.
\<close>

theorem engine_calls_return:
  assumes "tls_returns T plain pending"
  shows "fst (engine_encode T enc tx e) \<noteq> Hang \<and> fst (ingest T cipher e) \<noteq> Hang"
proof
  obtain r env where sp: "envelope_splice enc tx (envelope e) = (r, env)" by force
  have r: "r \<noteq> Hang" using splice_not_Hang [of enc tx "envelope e"] sp by simp
  have w: "fst (tls_write_all T f t) \<noteq> Hang" for f t using assms by (simp add: tls_returns_def)
  show "fst (engine_encode T enc tx e) \<noteq> Hang"
  proof (cases r)
    case (Ok frame)
    obtain r2 t2 where wa: "tls_write_all T frame (tls e) = (r2, t2)" by force
    then have "r2 \<noteq> Hang" using w [of frame "tls e"] by simp
    moreover obtain r3 c t3 where "encode_write_loop T t2 [] = Some (r3, c, t3)" "r3 \<noteq> Hang"
      using encode_write_loop_returns [OF assms] by blast
    ultimately show ?thesis
      using sp Ok wa by (cases r2; cases r3) (simp_all add: engine_encode_def)
  qed (use sp r in \<open>simp_all add: engine_encode_def\<close>)
next
  obtain r t where rl: "read_tls_loop T cipher (tls e) = (r, t)" by force
  then have r: "r \<noteq> Hang" using read_tls_loop_returns [OF assms, of cipher "tls e"] by simp
  obtain r2 q t2 where rp: "read_plain_loop T t (rx_plain e) = Some (r2, q, t2)" "r2 \<noteq> Hang"
    using read_plain_loop_returns [OF assms] by blast
  show "fst (ingest T cipher e) \<noteq> Hang"
    using rl r rp by (cases r; cases r2) (simp_all add: ingest_def settle_not_Hang)
qed

section \<open>Properties\<close>

text \<open>A session that passes bytes through unchanged; its state is the unread plaintext.\<close>

definition null_tls :: "bytes tls_ops" where
  "null_tls = \<lparr>tls_server_name = Ok, tls_new = (\<lambda>_. Ok []), tls_is_handshaking = (\<lambda>_. False),
     tls_wants_write = (\<lambda>_. False), tls_write_tls = (\<lambda>t. (Ok [], t)),
     tls_write_all = (\<lambda>_ t. (Ok (), t)), tls_read_tls = (\<lambda>c t. (Ok (length c), t @ c)),
     tls_process_new_packets = (\<lambda>t. (Ok (), t)),
     tls_read = (\<lambda>n t. if t = [] then (Err (Simple WouldBlock), t) else (Ok (take n t), drop n t))\<rparr>"

lemma null_tls_sel:
  "tls_read_tls null_tls c t = (Ok (length c), t @ c)"
  "tls_process_new_packets null_tls t = (Ok (), t)"
  "tls_read null_tls n t = (if t = [] then (Err (Simple WouldBlock), t) else (Ok (take n t), drop n t))"
  "tls_wants_write null_tls t = False"
  "tls_write_all null_tls f t = (Ok (), t)"
  by (simp_all add: null_tls_def)

lemma read_tls_loop_null:
  "c \<noteq> [] \<Longrightarrow> read_tls_loop null_tls c t = (Ok (), t @ c)"
  by (simp add: read_tls_loop.simps [of null_tls c t] read_tls_loop.simps [of null_tls "[]"] null_tls_sel)

lemma read_plain_loop_null:
  assumes "length p \<le> 2048"
  shows "read_plain_loop null_tls p acc = Some (Ok (), acc @ p, [])"
proof -
  have "read_plain_loop null_tls [] q = Some (Ok (), q, [])" for q
    by (simp add: read_plain_loop.simps [of null_tls "[]"] null_tls_sel)
  with assms show ?thesis
    by (simp add: read_plain_loop.simps [of null_tls p] null_tls_sel)
qed

lemma tls_delivers_null:
  assumes "list_all (\<lambda>c. c \<noteq> [] \<and> length c \<le> 2048) cs"
  shows "tls_delivers null_tls [] cs cs []"
  using assms
proof (induction cs)
  case (Cons c cs)
  then show ?case
    by (auto intro!: tls_delivers.segment [of c _ "[]" c] simp: read_tls_loop_null read_plain_loop_null)
qed (rule tls_delivers.none)

text \<open>
  C5. A response with a header the engine understands is handed out exactly once and exactly
  when it is complete, however the network cuts it up: for every way of splitting the message
  into TLS segments, every call of \<open>ingest\<close> before the last returns \<open>None\<close>, the last returns
  the body announced by Content-Length, and the receive buffer is empty afterwards.
\<close>

theorem response_any_segmentation:
  assumes "header_ok hs" and "find_map content_length_value hs = Some v"
    and "parse_usize v = Some (length body)" and "length (http_message hs body) \<le> MAX_RESPONSE"
    and "tls_delivers T (tls e) cs ps t'" and "rx_plain e = []"
    and "concat ps = http_message hs body" and "ps \<noteq> []" and "last ps \<noteq> []"
  shows "ingest_all T cs e
    = (replicate (length cs - 1) (Ok None) @ [Ok (Some body)], e\<lparr>rx_plain := [], tls := t'\<rparr>)"
proof -
  have "exact_response (http_message hs body) body"
    using body_if_complete_message [OF assms(1-3), of "[]"] assms(4)
      find_header_end_message [OF assms(1), of body] header_length [OF assms(1)]
    by (auto simp: exact_response_def http_message_def MAX_RESPONSE_def)
  from ingest_all_response [OF assms(5) this assms(4)] assms(6-9) show ?thesis by simp
qed

lemma cl_field_chars: "c \<in> set (cl_field w n) \<Longrightarrow> byte c < 128 \<and> c \<noteq> CR \<and> c \<noteq> LF"
  by (auto simp: cl_field_def dest: decimal_chars)

lemma content_length_value_field: "content_length_value (CL_NAME @ cl_field 12 n) = Some (decimal n)"
proof -
  have "eq_ignore_ascii_case ''Content-Length:'' ''content-length:''"
    by code_simp
  then show ?thesis
    using trim_decimal_padded [of n]
    by (simp add: content_length_value_def CL_PREFIX_def CL_NAME_def cl_field_def)
qed

lemma find_map_None: "list_all (\<lambda>x. f x = None) xs \<Longrightarrow> find_map f xs = None"
  by (induction xs) auto



lemma tls_returns_null: "tls_returns null_tls length (\<lambda>_. 0)"
  by (auto simp: tls_returns_def null_tls_sel split: if_splits)

definition ok_header :: "bytes list" where
  "ok_header = [''HTTP/1.1 200 OK'', ''content-length: 2'']"

lemma ok_header: "header_ok ok_header" "find_map content_length_value ok_header = Some ''2''"
    "parse_usize ''2'' = Some 2"
proof -
  show "header_ok ok_header" by (simp add: ok_header_def header_ok_def utf8_ok_ascii_Cons)
  show "find_map content_length_value ok_header = Some ''2''" by code_simp
  have "decimal 2 = ''2''" by code_simp
  with parse_usize_decimal [of 2] show "parse_usize ''2'' = Some 2" by simp
qed

definition empty_template :: envelope_template where
  "empty_template = \<lparr>buf = [], out = [], body_off = 0, body_max = 0, cl_off = None, cl_width = 0,
     http_body_start = 0\<rparr>"

definition null_engine :: "bytes http_engine" where
  "null_engine = \<lparr>tls = [], envelope = empty_template, rx_plain = [], ciphertext = []\<rparr>"

theorem engine_calls_return_witness:
  "fst (engine_encode null_tls rfc4648_encode ''abc'' (null_engine\<lparr>tls := ''xy''\<rparr>)) \<noteq> Hang
   \<and> fst (ingest null_tls ''z'' (null_engine\<lparr>tls := ''xy''\<rparr>)) \<noteq> Hang"
  by (rule engine_calls_return [OF tls_returns_null])

theorem response_any_segmentation_witness:
  "ingest_all null_tls [render ok_header, crlf @ ''o'', ''k''] null_engine
     = ([Ok None, Ok None, Ok (Some ''ok'')], null_engine)"
proof -
  have d: "tls_delivers null_tls (tls null_engine) [render ok_header, crlf @ ''o'', ''k'']
      [render ok_header, crlf @ ''o'', ''k''] []"
    using tls_delivers_null [of "[render ok_header, crlf @ ''o'', ''k'']"]
    by (simp add: ok_header_def null_engine_def)
  have "length (http_message ok_header ''ok'') \<le> MAX_RESPONSE"
    by (simp add: http_message_def ok_header_def MAX_RESPONSE_def)
  from response_any_segmentation [OF ok_header(1,2) _ this d] ok_header(3) show ?thesis
    by (simp add: null_engine_def http_message_def ok_header_def numeral_2_eq_2)
qed

lemma content_length_value_decimal: "content_length_value (CL_NAME @ decimal n) = Some (decimal n)"
proof -
  have "eq_ignore_ascii_case ''Content-Length:'' ''content-length:''" by code_simp
  then show ?thesis
    using trim_decimal_padded [of n 0]
    by (simp add: content_length_value_def CL_PREFIX_def CL_NAME_def)
qed

text \<open>
  C34. Once a whole header announcing \<open>n\<close> bytes has arrived, looking for the body panics exactly
  when the end of the body does not fit a \<open>usize\<close>, however little of the body is there: the
  sum of header length and announced length wraps, the length test passes, and the slice
  bounds are reversed. Any peer can bring the worker thread down this way.
\<close>

theorem content_length_overflow_panics:
  assumes "header_ok hs" and "find_map content_length_value hs = Some v"
    and "parse_usize v = Some n" and "length (http_message hs rest) < 2 ^ 64"
  shows "body_if_complete (http_message hs rest) = Panic \<longleftrightarrow> 2 ^ 64 \<le> length (render hs) + 2 + n"
proof -
  let ?he = "length (render hs) + 2"
  have n: "n < 2 ^ 64" using assms(3) by (rule parse_usize_less)
  have he: "?he \<le> length (http_message hs rest)" by (simp add: http_message_def)
  show ?thesis
  proof (cases "2 ^ 64 \<le> ?he + n")
    case True
    then have "usize_add ?he n = ?he + n - 2 ^ 64"
      using n he assms(4) unfolding usize_add_def by (subst le_mod_geq) (auto intro!: mod_less)
    then have "usize_add ?he n < ?he" using n True by linarith
    then show ?thesis
      unfolding body_if_complete_header [OF assms(1-3)] using he True
      by (simp add: slice_of_def)
  next
    case False
    then have "usize_add ?he n = ?he + n" by (intro usize_add_small) simp
    then show ?thesis
      unfolding body_if_complete_header [OF assms(1-3)] using False
      by (simp add: slice_of_def)
  qed
qed

theorem content_length_overflow_panics_witness:
  "body_if_complete (http_message [''Content-Length: '' @ decimal (2 ^ 64 - 1)] ''{}'') = Panic"
proof -
  let ?n = "2 ^ 64 - 1 :: nat" and ?hs = "[''Content-Length: '' @ decimal (2 ^ 64 - 1)]"
  have "header_ok ?hs"
    by (auto simp: header_ok_def dest: decimal_chars intro!: utf8_ok_ascii)
  moreover have "find_map content_length_value ?hs = Some (decimal ?n)"
    using content_length_value_decimal [of ?n] by (simp add: CL_NAME_def)
  moreover have "parse_usize (decimal ?n) = Some ?n" by (rule parse_usize_decimal) simp
  moreover have "length (decimal ?n) \<le> 20" by (rule length_decimal_le) auto
  then have "length (http_message ?hs ''{}'') < 2 ^ 64" by (simp add: http_message_def)
  ultimately show ?thesis
    using content_length_overflow_panics [of ?hs "decimal ?n" ?n "''{}''"] by simp
qed

lemma body_if_complete_no_length:
  assumes "header_ok hs" and "find_map content_length_value hs = None"
  shows "body_if_complete (http_message hs body) = Ok None"
proof -
  have "find_map content_length_value (lines (render hs @ crlf)) = None"
    using assms(2) by (simp only: lines_header [OF assms(1)] find_map_append) simp
  then show ?thesis
    unfolding body_if_complete_def find_header_end_message [OF assms(1)] Let_def option.case
      take_header [OF assms(1)] by (simp add: from_utf8_def)
qed

text \<open>
  C35. A response whose header has no Content-Length (chunked transfer coding, for one) blocks
  the connection for good: whatever arrives afterwards, in whatever segments, is appended to
  the receive buffer, no call ever returns a body, and from the byte that exceeds
  \<open>MAX_RESPONSE\<close> on every call reports the size error without discarding anything.
\<close>

theorem no_content_length_blocks:
  assumes "header_ok hs" and "find_map content_length_value hs = None"
    and "tls_delivers T (tls e) cs ps t'" and "rx_plain e = http_message hs body"
  shows "ingest_all T cs e =
    (map (\<lambda>k. if length (rx_plain e @ concat (take (Suc k) ps)) > MAX_RESPONSE
               then Err TOO_LARGE else Ok None) [0..<length cs],
     e\<lparr>rx_plain := rx_plain e @ concat ps, tls := t'\<rparr>)"
  using assms(3,4)
proof (induction cs arbitrary: e ps body)
  case Nil
  then show ?case by (auto elim: tls_delivers.cases)
next
  case (Cons c cs)
  from Cons.prems(1) obtain t1 p t2 qs where
    c: "c \<noteq> []" "read_tls_loop T c (tls e) = (Ok (), t1)"
      "read_plain_loop T t1 [] = Some (Ok (), p, t2)"
    and ps: "ps = p # qs" and rest: "tls_delivers T t2 cs qs t'"
    by (rule tls_delivers_ConsE) blast
  let ?e = "e\<lparr>rx_plain := rx_plain e @ p, tls := t2\<rparr>"
  have rx: "rx_plain ?e = http_message hs (body @ p)"
    using Cons.prems(2) by (simp add: http_message_def)
  have step: "ingest T c e = settle ?e" using c by (rule ingest_segment)
  have "settle ?e = (if length (rx_plain e @ p) > MAX_RESPONSE then Err TOO_LARGE else Ok None, ?e)"
    using body_if_complete_no_length [OF assms(1,2), of "body @ p"] rx
    by (simp add: settle_def)
  moreover have "ingest_all T cs ?e =
      (map (\<lambda>k. if length ((rx_plain e @ p) @ concat (take (Suc k) qs)) > MAX_RESPONSE
               then Err TOO_LARGE else Ok None) [0..<length cs],
       e\<lparr>rx_plain := (rx_plain e @ p) @ concat qs, tls := t'\<rparr>)"
    using Cons.IH [of ?e qs "body @ p"] rest rx by simp
  ultimately show ?case
    using step ps by (simp add: map_upt_Suc add.assoc del: upt_Suc)
qed

text \<open>
  C36. Bytes that arrive in the same segment after the end of a response are lost: the body is
  handed out and the whole receive buffer is cleared, the start of the next response included.
\<close>

theorem pipelined_bytes_dropped:
  assumes "header_ok hs" and "find_map content_length_value hs = Some v"
    and "parse_usize v = Some (length body)"
    and "length (http_message hs (body @ rest)) < 2 ^ 64"
    and "tls_delivers T (tls e) [c] [p] t'" and "rx_plain e @ p = http_message hs (body @ rest)"
  shows "ingest T c e = (Ok (Some body), e\<lparr>rx_plain := [], tls := t'\<rparr>)"
proof -
  from assms(5) obtain t1 t2 where
    c: "c \<noteq> []" "read_tls_loop T c (tls e) = (Ok (), t1)"
      "read_plain_loop T t1 [] = Some (Ok (), p, t2)" and "tls_delivers T t2 [] [] t'"
    by (rule tls_delivers_ConsE) blast
  then have "t2 = t'" by (auto elim: tls_delivers.cases)
  with ingest_segment [OF c] have "ingest T c e = settle (e\<lparr>rx_plain := rx_plain e @ p, tls := t'\<rparr>)"
    by simp
  with body_if_complete_message [OF assms(1-4)] assms(6) show ?thesis
    by (simp add: settle_def)
qed

theorem no_content_length_blocks_witness:
  "ingest_all null_tls [''5'', ''x''] (null_engine\<lparr>rx_plain := http_message [''A: b''] []\<rparr>)
     = ([Ok None, Ok None], null_engine\<lparr>rx_plain := http_message [''A: b''] ''5x''\<rparr>)"
proof -
  have "header_ok [''A: b'']" by (simp add: header_ok_def utf8_ok_ascii_Cons)
  moreover have "find_map content_length_value [''A: b''] = None"
    by (simp add: content_length_value_def CL_PREFIX_def)
  moreover have "tls_delivers null_tls [] [''5'', ''x''] [''5'', ''x''] []"
    by (rule tls_delivers_null) simp
  ultimately show ?thesis
    using no_content_length_blocks [of "[''A: b'']" null_tls
        "null_engine\<lparr>rx_plain := http_message [''A: b''] []\<rparr>" "[''5'', ''x'']" "[''5'', ''x'']" "[]" "[]"]
    by (simp add: null_engine_def http_message_def MAX_RESPONSE_def)
qed

theorem pipelined_bytes_dropped_witness:
  "ingest null_tls (http_message ok_header (''ok'' @ ''HTTP'')) null_engine = (Ok (Some ''ok''), null_engine)"
proof -
  let ?m = "http_message ok_header (''ok'' @ ''HTTP'')"
  have d: "tls_delivers null_tls (tls null_engine) [?m] [?m] []"
    using tls_delivers_null [of "[?m]"] by (simp add: null_engine_def http_message_def ok_header_def)
  have "length ?m < 2 ^ 64" by (simp add: http_message_def ok_header_def)
  from pipelined_bytes_dropped [OF ok_header(1,2) _ this d] ok_header(3) show ?thesis
    by (simp add: null_engine_def numeral_2_eq_2)
qed

end
