(* ===== verification/Raw_Libc.thy ===== *)
theory Raw_Libc
  imports Core_Types
begin

text \<open>
  Byte transport: the trait \<open>ByteIo\<close> of \<open>backend/mod.rs\<close> as a record of operations, and its
  implementation on plain sockets, \<open>backend/raw_libc.rs\<close>, with the UDP helpers the QUIC engine
  uses. The operating system is the record \<open>libc_ops\<close>: every system call is a function of its
  arguments and the world.
\<close>

section \<open>The transport interface\<close>

datatype wire = Datagram socket_addr | Stream_Wire

text \<open>
  \<open>io_poll_recv n\<close> receives into a buffer of \<open>n\<close> bytes and returns what it stored; the empty list
  is \<open>Ok(0)\<close>.
\<close>

record ('b, 'k, 'w) byte_io =
  io_connect :: "bytes \<Rightarrow> 'b \<Rightarrow> 'w \<Rightarrow> ('k, io_error) res \<times> 'b \<times> 'w"
  io_submit :: "wire \<Rightarrow> bytes \<Rightarrow> 'b \<times> 'k \<times> 'w \<Rightarrow> (unit, io_error) res \<times> 'b \<times> 'k \<times> 'w"
  io_poll_recv :: "nat \<Rightarrow> 'b \<times> 'k \<times> 'w \<Rightarrow> (bytes, io_error) res \<times> 'b \<times> 'k \<times> 'w"
  io_drive :: "'b \<Rightarrow> 'w \<Rightarrow> (unit, io_error) res \<times> 'b \<times> 'w"

text \<open>The default method \<open>fn drive(&mut self) {}\<close>.\<close>

definition default_drive :: "'b \<Rightarrow> 'w \<Rightarrow> (unit, io_error) res \<times> 'b \<times> 'w" where
  "default_drive b w = (Ok (), b, w)"

section \<open>System calls\<close>

text \<open>
  A call returns its result, the value of \<open>errno\<close> after it and, for the receiving calls, the
  bytes it stored. Socket set-up goes through the standard library.
\<close>

type_synonym fd = nat

record 'w libc_ops =
  tcp_connect :: "bytes \<Rightarrow> 'w \<Rightarrow> (fd, io_error) res \<times> 'w"
  set_nodelay :: "fd \<Rightarrow> 'w \<Rightarrow> (unit, io_error) res \<times> 'w"
  set_nonblocking :: "fd \<Rightarrow> 'w \<Rightarrow> (unit, io_error) res \<times> 'w"
  udp_bind :: "bytes \<Rightarrow> 'w \<Rightarrow> (fd, io_error) res \<times> 'w"
  c_send :: "fd \<Rightarrow> bytes \<Rightarrow> 'w \<Rightarrow> (int \<times> nat) \<times> 'w"
  c_recv :: "fd \<Rightarrow> nat \<Rightarrow> 'w \<Rightarrow> (int \<times> nat \<times> bytes) \<times> 'w"
  c_recvfrom :: "fd \<Rightarrow> nat \<Rightarrow> 'w \<Rightarrow> (int \<times> nat \<times> bytes) \<times> 'w"
  c_sendto :: "fd \<Rightarrow> bytes \<Rightarrow> bytes \<Rightarrow> 'w \<Rightarrow> (int \<times> nat) \<times> 'w"
  c_sendmsg :: "fd \<Rightarrow> bytes \<Rightarrow> bytes \<Rightarrow> bytes \<Rightarrow> 'w \<Rightarrow> (int \<times> nat) \<times> 'w"

section \<open>TCP\<close>

definition raw_connect ::
  "'w libc_ops \<Rightarrow> bytes \<Rightarrow> unit \<Rightarrow> 'w \<Rightarrow> (fd, io_error) res \<times> unit \<times> 'w" where
  "raw_connect L endpoint b w =
     (case bind_st (tcp_connect L endpoint w) (\<lambda>fd w.
           bind_st (set_nodelay L fd w) (\<lambda>_ w.
           bind_st (set_nonblocking L fd w) (\<lambda>_ w. (Ok fd, w)))) of (r, w) \<Rightarrow> (r, b, w))"

text \<open>The send loop retries on \<open>EINTR\<close> and spins on \<open>EAGAIN\<close>.\<close>

partial_function (option) raw_send_loop ::
  "'w libc_ops \<Rightarrow> fd \<Rightarrow> bytes \<Rightarrow> nat \<Rightarrow> 'w \<Rightarrow> ((unit, io_error) res \<times> 'w) option" where
  "raw_send_loop L fd bs sent w =
     (if sent < length bs then
        (case c_send L fd (drop sent bs) w of ((n, errno), w') \<Rightarrow>
           if n > 0 then raw_send_loop L fd bs (sent + nat n) w'
           else if raw_os_error (Os errno) = Some EINTR then raw_send_loop L fd bs sent w'
           else if kind (Os errno) = WouldBlock then raw_send_loop L fd bs sent w'
           else Some (Err (Os errno), w'))
      else Some (Ok (), w))"

definition raw_submit ::
  "'w libc_ops \<Rightarrow> wire \<Rightarrow> bytes \<Rightarrow> unit \<times> fd \<times> 'w \<Rightarrow> (unit, io_error) res \<times> unit \<times> fd \<times> 'w" where
  "raw_submit L k bs = (\<lambda>(b, fd, w).
     if k \<noteq> Stream_Wire then (Err (Simple Unsupported), b, fd, w)
     else case raw_send_loop L fd bs 0 w of
            None \<Rightarrow> (Hang, b, fd, w)
          | Some (r, w) \<Rightarrow> (r, b, fd, w))"

partial_function (option) raw_recv_loop ::
  "'w libc_ops \<Rightarrow> fd \<Rightarrow> nat \<Rightarrow> 'w \<Rightarrow> ((bytes, io_error) res \<times> 'w) option" where
  "raw_recv_loop L fd len w =
     (case c_recv L fd len w of ((n, errno, bs), w') \<Rightarrow>
        if n > 0 then Some (Ok bs, w')
        else if n = 0 then Some (Err (Simple UnexpectedEof), w')
        else if raw_os_error (Os errno) = Some EINTR then raw_recv_loop L fd len w'
        else if kind (Os errno) = WouldBlock then Some (Ok [], w')
        else Some (Err (Os errno), w'))"

definition raw_poll_recv ::
  "'w libc_ops \<Rightarrow> nat \<Rightarrow> unit \<times> fd \<times> 'w \<Rightarrow> (bytes, io_error) res \<times> unit \<times> fd \<times> 'w" where
  "raw_poll_recv L len = (\<lambda>(b, fd, w).
     case raw_recv_loop L fd len w of
       None \<Rightarrow> (Hang, b, fd, w)
     | Some (r, w) \<Rightarrow> (r, b, fd, w))"

definition raw_libc :: "'w libc_ops \<Rightarrow> (unit, fd, 'w) byte_io" where
  "raw_libc L = \<lparr>io_connect = raw_connect L, io_submit = raw_submit L,
     io_poll_recv = raw_poll_recv L, io_drive = default_drive\<rparr>"

section \<open>UDP\<close>

definition udp_connect :: "'w libc_ops \<Rightarrow> bytes \<Rightarrow> 'w \<Rightarrow> (fd, io_error) res \<times> 'w" where
  "udp_connect L bind_addr w =
     bind_st (udp_bind L bind_addr w) (\<lambda>fd w.
     bind_st (set_nonblocking L fd w) (\<lambda>_ w. (Ok fd, w)))"

definition poll_recv_udp :: "'w libc_ops \<Rightarrow> fd \<Rightarrow> nat \<Rightarrow> 'w \<Rightarrow> (bytes, io_error) res \<times> 'w" where
  "poll_recv_udp L fd len w =
     (case c_recvfrom L fd len w of ((n, errno, bs), w) \<Rightarrow>
        if n > 0 then (Ok bs, w)
        else if n = 0 then (Ok [], w)
        else if kind (Os errno) = WouldBlock then (Ok [], w)
        else if raw_os_error (Os errno) = Some EINTR then (Ok [], w)
        else (Err (Os errno), w))"

text \<open>
  \<open>sockaddr_of\<close>: the kernel's socket address as the bytes of \<open>sockaddr_in\<close> (16) or \<open>sockaddr_in6\<close>
  (28) on a little-endian machine, ports in network order.
\<close>

definition u16_be :: "16 word \<Rightarrow> bytes" where
  "u16_be p = [char_of (unat (drop_bit 8 p)), char_of (unat p mod 256)]"

definition u16_le :: "16 word \<Rightarrow> bytes" where
  "u16_le p = [char_of (unat p mod 256), char_of (unat (drop_bit 8 p))]"

definition u32_le :: "32 word \<Rightarrow> bytes" where
  "u32_le x = map (\<lambda>k. char_of (unat (drop_bit (8 * k) x) mod 256)) [0, 1, 2, 3]"

fun sockaddr_of :: "socket_addr \<Rightarrow> bytes" where
  "sockaddr_of (V4 octets port) =
     u16_le 2 @ u16_be port @ octets @ replicate 8 (CHR 0x00)"
| "sockaddr_of (V6 octets port flowinfo scope_id) =
     u16_le 10 @ u16_be port @ u32_le flowinfo @ octets @ u32_le scope_id"

definition udp_sendto :: "'w libc_ops \<Rightarrow> fd \<Rightarrow> socket_addr \<Rightarrow> bytes \<Rightarrow> 'w \<Rightarrow> (unit, io_error) res \<times> 'w" where
  "udp_sendto L fd dst bs w =
     (case c_sendto L fd (sockaddr_of dst) bs w of ((n, errno), w) \<Rightarrow>
        if n < 0 then
          (if kind (Os errno) = WouldBlock then (Ok (), w) else (Err (Os errno), w))
        else (Ok (), w))"

text \<open>
  The control message of the segmented send: \<open>cmsg_len\<close> 18 (8 bytes), level \<open>SOL_UDP\<close> 17,
  type \<open>UDP_SEGMENT\<close> 103, the segment size, and the padding of \<open>CMSG_SPACE(2)\<close> = 24 bytes.
\<close>

definition gso_control :: "16 word \<Rightarrow> bytes" where
  "gso_control segment_size =
     u32_le 18 @ u32_le 0 @ u32_le 17 @ u32_le 103 @ u16_le segment_size @ replicate 6 (CHR 0x00)"

definition udp_sendmsg_gso ::
  "'w libc_ops \<Rightarrow> fd \<Rightarrow> socket_addr \<Rightarrow> bytes \<Rightarrow> 16 word \<Rightarrow> 'w \<Rightarrow> (unit, io_error) res \<times> 'w" where
  "udp_sendmsg_gso L fd dst bs segment_size w =
     (case c_sendmsg L fd (sockaddr_of dst) bs (gso_control segment_size) w of ((n, errno), w) \<Rightarrow>
        if n < 0 then
          (if kind (Os errno) = WouldBlock then (Ok (), w) else (Err (Os errno), w))
        else (Ok (), w))"

definition udp_conn_send_to :: "'w libc_ops \<Rightarrow> fd \<Rightarrow> socket_addr \<Rightarrow> bytes \<Rightarrow> 'w \<Rightarrow> (unit, io_error) res \<times> 'w" where
  "udp_conn_send_to L fd dst bs w = udp_sendto L fd dst bs w"

section \<open>Sending everything\<close>

text \<open>
  \<open>stream_socket L out\<close>: \<open>send\<close> on a stream socket appends the number of bytes it reports, taken
  from the front of its argument, to what the peer will read (\<open>out fd\<close>), and nothing on failure.
\<close>

definition stream_socket :: "'w libc_ops \<Rightarrow> (fd \<Rightarrow> 'w \<Rightarrow> bytes) \<Rightarrow> bool" where
  "stream_socket L out_bytes \<longleftrightarrow>
     (\<forall>fd bs w n e w'. c_send L fd bs w = ((n, e), w') \<longrightarrow>
        n \<le> int (length bs) \<and> out_bytes fd w' = out_bytes fd w @ take (nat n) bs)"

text \<open>\<open>unblocks L m\<close>: interrupted and blocked sends are finitely many, bounded by the measure \<open>m\<close>.\<close>

definition unblocks :: "'w libc_ops \<Rightarrow> ('w \<Rightarrow> nat) \<Rightarrow> bool" where
  "unblocks L m \<longleftrightarrow>
     (\<forall>fd bs w n e w'. c_send L fd bs w = ((n, e), w') \<longrightarrow>
        m w' \<le> m w \<and> (n \<le> 0 \<longrightarrow> e = EINTR \<or> e = EAGAIN \<longrightarrow> m w' < m w))"

lemma raw_send_loop_bytes:
  assumes "stream_socket L out_bytes" and "unblocks L m" and "sent \<le> length bs"
  shows "\<exists>r k w'. raw_send_loop L fd bs sent w = Some (r, w') \<and> r \<noteq> Hang \<and> r \<noteq> Panic
    \<and> sent \<le> k \<and> k \<le> length bs \<and> out_bytes fd w' = out_bytes fd w @ take (k - sent) (drop sent bs)
    \<and> (r = Ok () \<longrightarrow> k = length bs)"
  using assms(3)
proof (induction "(length bs - sent) + m w" arbitrary: sent w rule: less_induct)
  case less
  show ?case
  proof (cases "sent < length bs")
    case True
    obtain n e w' where c: "c_send L fd (drop sent bs) w = ((n, e), w')" by (metis prod.exhaust)
    have io: "n \<le> int (length bs - sent)" "out_bytes fd w' = out_bytes fd w @ take (nat n) (drop sent bs)"
      "m w' \<le> m w" "n \<le> 0 \<Longrightarrow> e = EINTR \<or> e = EAGAIN \<Longrightarrow> m w' < m w"
      using assms(1,2) c unfolding stream_socket_def unblocks_def by (metis length_drop)+
    show ?thesis
    proof (cases "n > 0")
      case pos: True
      let ?s = "sent + nat n"
      have "length bs - ?s + m w' < length bs - sent + m w" "?s \<le> length bs"
        using pos io True by linarith+
      from less.hyps [OF this] obtain r k w2 where
        "raw_send_loop L fd bs ?s w' = Some (r, w2)" "r \<noteq> Hang" "r \<noteq> Panic" "?s \<le> k" "k \<le> length bs"
        and o2: "out_bytes fd w2 = out_bytes fd w' @ take (k - ?s) (drop ?s bs)" "r = Ok () \<longrightarrow> k = length bs"
        by blast
      moreover have "take (nat n) (drop sent bs) @ take (k - ?s) (drop ?s bs) = take (k - sent) (drop sent bs)"
        using \<open>?s \<le> k\<close> take_add [of "nat n" "k - ?s" "drop sent bs"] by (simp add: add.commute)
      ultimately show ?thesis
        using True c pos io(2)
        by (intro exI [of _ r] exI [of _ k] exI [of _ w2]) (auto simp: raw_send_loop.simps [of L fd bs sent])
    next
      case False
      show ?thesis
      proof (cases "e = EINTR \<or> e = EAGAIN")
        case True
        then have "length bs - sent + m w' < length bs - sent + m w" using io(4) False by simp
        note less.hyps [OF this less.prems]
        moreover have "raw_send_loop L fd bs sent w = raw_send_loop L fd bs sent w'"
          using \<open>sent < length bs\<close> c False True
          by (auto simp: raw_send_loop.simps [of L fd bs sent w] decode_error_kind_def)
        moreover have "out_bytes fd w' = out_bytes fd w" using io(2) False by simp
        ultimately show ?thesis by simp
      next
        case e: False
        have "raw_send_loop L fd bs sent w = Some (Err (Os e), w')"
          using True c False e
          by (auto simp: raw_send_loop.simps [of L fd bs sent w] decode_error_kind_def)
        then show ?thesis
          using io(2) False less.prems by (intro exI [of _ "Err (Os e)"] exI [of _ sent] exI [of _ w']) simp
      qed
    qed
  next
    case False
    then have "raw_send_loop L fd bs sent w = Some (Ok (), w)"
      by (simp add: raw_send_loop.simps [of L fd bs sent w])
    moreover have "sent = length bs" using False less.prems by simp
    ultimately show ?thesis by (intro exI [of _ "Ok ()"] exI [of _ sent] exI [of _ w]) simp
  qed
qed

section \<open>Properties\<close>

text \<open>
  Submitting to a stream socket returns, however often the kernel interrupts, blocks or
  accepts only part of the data (finitely often each): on success the peer receives exactly the
  submitted bytes, in order and once; on an error it has received a prefix of them.
\<close>

theorem raw_submit_delivers:
  assumes "stream_socket L out_bytes" and "unblocks L m"
  shows "\<exists>r k w'. raw_submit L Stream_Wire bs ((), fd, w) = (r, (), fd, w') \<and> r \<noteq> Hang \<and> r \<noteq> Panic
    \<and> k \<le> length bs \<and> out_bytes fd w' = out_bytes fd w @ take k bs \<and> (r = Ok () \<longrightarrow> k = length bs)"
proof -
  obtain r k w' where "raw_send_loop L fd bs 0 w = Some (r, w')" "r \<noteq> Hang" "r \<noteq> Panic"
    "k \<le> length bs" "out_bytes fd w' = out_bytes fd w @ take k bs" "r = Ok () \<longrightarrow> k = length bs"
    using raw_send_loop_bytes [OF assms, of 0 bs fd w] by auto
  then show ?thesis by (intro exI [of _ r] exI [of _ k] exI [of _ w']) (simp add: raw_submit_def)
qed

text \<open>A socket that blocks for a while and then takes at most three bytes at a time.\<close>

definition slow_os :: "(nat \<times> bytes) libc_ops" where
  "slow_os = \<lparr>tcp_connect = (\<lambda>_ w. (Ok 3, w)), set_nodelay = (\<lambda>_ w. (Ok (), w)),
     set_nonblocking = (\<lambda>_ w. (Ok (), w)), udp_bind = (\<lambda>_ w. (Ok 4, w)),
     c_send = (\<lambda>_ bs (b, o'). if b > 0 then ((- 1, EAGAIN), (b - 1, o'))
       else ((int (length (take 3 bs)), 0), (b, o' @ take 3 bs))),
     c_recv = (\<lambda>_ _ w. ((- 1, EAGAIN, []), w)), c_recvfrom = (\<lambda>_ _ w. ((- 1, EAGAIN, []), w)),
     c_sendto = (\<lambda>_ _ bs w. ((int (length bs), 0), w)),
     c_sendmsg = (\<lambda>_ _ bs _ w. ((int (length bs), 0), w))\<rparr>"

lemma slow_os_contract: "stream_socket slow_os (\<lambda>_ w. snd w)" "unblocks slow_os fst"
proof -
  have "take (nat (int (length (take 3 bs)))) bs = take 3 bs" for bs :: bytes
    by (cases "length bs \<le> 3") (simp_all add: min_def)
  moreover have "length (take 3 bs) \<le> length bs" for bs :: bytes by simp
  ultimately show "stream_socket slow_os (\<lambda>_ w. snd w)" "unblocks slow_os fst"
    by (auto simp: stream_socket_def unblocks_def slow_os_def simp del: length_take split: if_splits)
qed

theorem raw_submit_delivers_witness:
  "\<exists>r k w'. raw_submit slow_os Stream_Wire ''hello'' ((), 3, (2, ''>'')) = (r, (), 3, w') \<and> r \<noteq> Hang \<and> r \<noteq> Panic
    \<and> k \<le> length ''hello'' \<and> snd w' = snd (2 :: nat, ''>'') @ take k ''hello'' \<and> (r = Ok () \<longrightarrow> k = length ''hello'')"
  using raw_submit_delivers [OF slow_os_contract, of "''hello''" 3 "(2, ''>'')"] .

end
