(* ===== verification/Conn.thy ===== *)
theory Conn
  imports Http_Engine Raw_Libc
begin

text \<open>
  Connections, \<open>conn/mod.rs\<close>: an HTTP connection is a byte transport with a TLS engine on top, a
  QUIC connection is a QUIC engine that remembers the last job; a provider has two connections,
  an active one and a standby. Clock readings are nanoseconds; \<open>clock\<close> is \<open>Instant::now\<close>.
\<close>

section \<open>HTTP connections\<close>

record ('b, 'k, 't) http_conn =
  hc_io :: 'b
  hc_raw :: 'k
  hc_engine :: "'t http_engine"

text \<open>One round of the handshake loop, and the loop, which ends only when the peer lets it.\<close>

definition handshake_step ::
  "('b, 'k, 'w) byte_io \<Rightarrow> 't tls_ops \<Rightarrow> ('b, 'k, 't) http_conn \<times> 'w
     \<Rightarrow> (unit, transport_error) res \<times> ('b, 'k, 't) http_conn \<times> 'w" where
  "handshake_step B T = (\<lambda>(c, w).
     case handshake_ciphertext T (hc_engine c) of (r, e) \<Rightarrow>
     bind_st (r, c\<lparr>hc_engine := e\<rparr>, w) (\<lambda>out (c, w).
     bind_st (if out \<noteq> [] then
                (case io_submit B Stream_Wire out (hc_io c, hc_raw c, w) of (r, b, k, w) \<Rightarrow>
                   (map_err Io r, c\<lparr>hc_io := b, hc_raw := k\<rparr>, w))
              else (Ok (), c, w)) (\<lambda>_ (c, w).
     bind_st (case io_drive B (hc_io c) w of (r, b, w) \<Rightarrow> (discard r, c\<lparr>hc_io := b\<rparr>, w)) (\<lambda>_ (c, w).
     case io_poll_recv B 4096 (hc_io c, hc_raw c, w) of (r, b, k, w) \<Rightarrow>
     bind_st (map_err Io r, c\<lparr>hc_io := b, hc_raw := k\<rparr>, w) (\<lambda>bs (c, w).
     if bs = [] then (Ok (), c, w)
     else case ingest T bs (hc_engine c) of (r, e) \<Rightarrow>
          bind_st (r, c\<lparr>hc_engine := e\<rparr>, w) (\<lambda>_ s. (Ok (), s)))))))"

partial_function (option) handshake_loop ::
  "('b, 'k, 'w) byte_io \<Rightarrow> 't tls_ops \<Rightarrow> ('b, 'k, 't) http_conn \<times> 'w
     \<Rightarrow> ((unit, transport_error) res \<times> ('b, 'k, 't) http_conn \<times> 'w) option" where
  "handshake_loop B T s =
     (if is_handshaking T (hc_engine (fst s)) then
        (case handshake_step B T s of (r, s') \<Rightarrow>
           (case r of
              Ok _ \<Rightarrow> handshake_loop B T s'
            | Err e \<Rightarrow> Some (Err e, s')
            | Panic \<Rightarrow> Some (Panic, s')
            | Hang \<Rightarrow> Some (Hang, s')))
      else Some (Ok (), s))"

definition connect_with ::
  "('b, 'k, 'w) byte_io \<Rightarrow> 't tls_ops \<Rightarrow> 'b \<Rightarrow> provider_config \<Rightarrow> envelope_template \<Rightarrow> 'w
     \<Rightarrow> (('b, 'k, 't) http_conn, transport_error) res \<times> 'w" where
  "connect_with B T io cfg env w =
     (let addr = ep_host (pc_endpoint cfg) @ '':'' @ decimal (unat (ep_port (pc_endpoint cfg)))
      in case io_connect B addr io w of (r, io, w) \<Rightarrow>
         bind_st (map_err ConnectErr r, w) (\<lambda>raw w.
         bind_st (engine_new T (ep_server_name (pc_endpoint cfg)) env, w) (\<lambda>engine w.
         case handshake_loop B T (\<lparr>hc_io = io, hc_raw = raw, hc_engine = engine\<rparr>, w) of
           None \<Rightarrow> (Hang, w)
         | Some (r, c, w) \<Rightarrow> bind_st (r, w) (\<lambda>_ w. (Ok c, w)))))"

definition http_send_tx ::
  "('b, 'k, 'w) byte_io \<Rightarrow> 't tls_ops \<Rightarrow> (bytes \<Rightarrow> bytes) \<Rightarrow> bytes \<Rightarrow> ('b, 'k, 't) http_conn \<Rightarrow> 'w
     \<Rightarrow> (unit, transport_error) res \<times> ('b, 'k, 't) http_conn \<times> 'w" where
  "http_send_tx B T enc tx c w =
     (case engine_encode T enc tx (hc_engine c) of (r, e) \<Rightarrow>
      bind_st (r, c\<lparr>hc_engine := e\<rparr>, w) (\<lambda>cipher (c, w).
      case io_submit B Stream_Wire cipher (hc_io c, hc_raw c, w) of (r, b, k, w) \<Rightarrow>
        (map_err Io r, c\<lparr>hc_io := b, hc_raw := k\<rparr>, w)))"

definition http_drive ::
  "('b, 'k, 'w) byte_io \<Rightarrow> ('b, 'k, 't) http_conn \<Rightarrow> 'w
     \<Rightarrow> (unit, transport_error) res \<times> ('b, 'k, 't) http_conn \<times> 'w" where
  "http_drive B c w = (case io_drive B (hc_io c) w of (r, b, w) \<Rightarrow> (discard r, c\<lparr>hc_io := b\<rparr>, w))"

definition poll_response ::
  "('b, 'k, 'w) byte_io \<Rightarrow> 't tls_ops \<Rightarrow> ('b, 'k, 't) http_conn \<Rightarrow> 'w
     \<Rightarrow> (bytes option, transport_error) res \<times> ('b, 'k, 't) http_conn \<times> 'w" where
  "poll_response B T c w =
     (case io_poll_recv B 4096 (hc_io c, hc_raw c, w) of (r, b, k, w) \<Rightarrow>
      bind_st (map_err Io r, c\<lparr>hc_io := b, hc_raw := k\<rparr>, w) (\<lambda>bs (c, w).
      case ingest T bs (hc_engine c) of (r, e) \<Rightarrow> (r, c\<lparr>hc_engine := e\<rparr>, w)))"

section \<open>QUIC connections\<close>

definition QUIC_RESPONSE_WINDOW_MS :: nat where
  "QUIC_RESPONSE_WINDOW_MS = 500"

text \<open>The QUIC engine's operations and the clock, as the connection uses them.\<close>

record ('g, 'w) quic_ops =
  clock :: "'w \<Rightarrow> nat \<times> 'w"
  qe_send_tx :: "bytes \<Rightarrow> nat \<Rightarrow> 'g \<Rightarrow> 'w \<Rightarrow> (unit, transport_error) res \<times> 'g \<times> 'w"
  qe_drive :: "nat \<Rightarrow> 'g \<Rightarrow> 'w \<Rightarrow> (unit, transport_error) res \<times> 'g \<times> 'w"
  qe_is_closed :: "'g \<Rightarrow> bool"

record 'g quic_conn =
  qc_engine :: 'g
  qc_inflight :: "(64 word \<times> 64 word) option"
  qc_sent_at :: "nat option"

definition quic_new :: "'g \<Rightarrow> 'g quic_conn" where
  "quic_new g = \<lparr>qc_engine = g, qc_inflight = None, qc_sent_at = None\<rparr>"

definition quic_send_tx ::
  "('g, 'w) quic_ops \<Rightarrow> job \<Rightarrow> 64 word \<Rightarrow> bytes \<Rightarrow> 'g quic_conn \<Rightarrow> 'w
     \<Rightarrow> (unit, transport_error) res \<times> 'g quic_conn \<times> 'w" where
  "quic_send_tx Q j sent_tsc tx c w =
     (case clock Q w of (now, w) \<Rightarrow>
      case qe_send_tx Q tx now (qc_engine c) w of (r, g, w) \<Rightarrow>
      bind_st (r, c\<lparr>qc_engine := g\<rparr>, w) (\<lambda>_ (c, w).
        (Ok (), c\<lparr>qc_inflight := Some (job_id j, sent_tsc), qc_sent_at := Some now\<rparr>, w)))"

text \<open>\<open>elapsed\<close> is a saturating subtraction from a new clock reading.\<close>

definition poll_noresp_window ::
  "('g, 'w) quic_ops \<Rightarrow> 'g quic_conn \<Rightarrow> 'w \<Rightarrow> (64 word \<times> 64 word) option \<times> 'g quic_conn \<times> 'w" where
  "poll_noresp_window Q c w =
     (case (qc_inflight c, qc_sent_at c) of
        (Some p, Some sent_at) \<Rightarrow>
          (case clock Q w of (now, w) \<Rightarrow>
             if now - sent_at > QUIC_RESPONSE_WINDOW_MS * 1000000
             then (Some p, c\<lparr>qc_inflight := None, qc_sent_at := None\<rparr>, w)
             else (None, c, w))
      | _ \<Rightarrow> (None, c, w))"

definition quic_drive ::
  "('g, 'w) quic_ops \<Rightarrow> 'g quic_conn \<Rightarrow> 'w \<Rightarrow> (unit, transport_error) res \<times> 'g quic_conn \<times> 'w" where
  "quic_drive Q c w =
     (case clock Q w of (now, w) \<Rightarrow>
      case qe_drive Q now (qc_engine c) w of (r, g, w) \<Rightarrow> (discard r, c\<lparr>qc_engine := g\<rparr>, w))"

definition quic_is_dead :: "('g, 'w) quic_ops \<Rightarrow> 'g quic_conn \<Rightarrow> bool" where
  "quic_is_dead Q c = qe_is_closed Q (qc_engine c)"

section \<open>Connection pairs\<close>

datatype ('h, 'q) conn_state = Http_Conn 'h | Quic_Conn 'q

record 'c conn_slot =
  conn :: 'c
  healthy :: bool

record 'c dual_conn =
  active :: "'c conn_slot"
  standby :: "'c conn_slot"

definition dual_new :: "'c \<Rightarrow> 'c \<Rightarrow> 'c dual_conn" where
  "dual_new a s = \<lparr>active = \<lparr>conn = a, healthy = True\<rparr>, standby = \<lparr>conn = s, healthy = True\<rparr>\<rparr>"

definition dual_swap :: "'c dual_conn \<Rightarrow> 'c dual_conn" where
  "dual_swap d = \<lparr>active = (standby d)\<lparr>healthy := True\<rparr>, standby = active d\<rparr>"

definition replace_standby :: "'c \<Rightarrow> 'c dual_conn \<Rightarrow> 'c dual_conn" where
  "replace_standby c d = d\<lparr>standby := (standby d)\<lparr>conn := c, healthy := True\<rparr>\<rparr>"

definition http_conn_failed_io :: "io_error \<Rightarrow> bool" where
  "http_conn_failed_io e \<longleftrightarrow>
     kind e \<in> {UnexpectedEof, BrokenPipe, ConnectionReset, ConnectionAborted}"

section \<open>The connection interface\<close>

text \<open>What a worker calls on a connection, whatever its transport.\<close>

record ('h, 'q, 'w) conn_ops =
  h_send_tx :: "bytes \<Rightarrow> 'h \<Rightarrow> 'w \<Rightarrow> (unit, transport_error) res \<times> 'h \<times> 'w"
  h_poll_response :: "'h \<Rightarrow> 'w \<Rightarrow> (bytes option, transport_error) res \<times> 'h \<times> 'w"
  h_drive :: "'h \<Rightarrow> 'w \<Rightarrow> (unit, transport_error) res \<times> 'h \<times> 'w"
  q_send_tx :: "job \<Rightarrow> 64 word \<Rightarrow> bytes \<Rightarrow> 'q \<Rightarrow> 'w \<Rightarrow> (unit, transport_error) res \<times> 'q \<times> 'w"
  q_poll_noresp_window :: "'q \<Rightarrow> 'w \<Rightarrow> (64 word \<times> 64 word) option \<times> 'q \<times> 'w"
  q_drive :: "'q \<Rightarrow> 'w \<Rightarrow> (unit, transport_error) res \<times> 'q \<times> 'w"
  q_is_dead :: "'q \<Rightarrow> bool"

definition conn_ops_of ::
  "('b, 'k, 'w) byte_io \<Rightarrow> 't tls_ops \<Rightarrow> (bytes \<Rightarrow> bytes) \<Rightarrow> ('g, 'w) quic_ops
     \<Rightarrow> (('b, 'k, 't) http_conn, 'g quic_conn, 'w) conn_ops" where
  "conn_ops_of B T enc Q =
     \<lparr>h_send_tx = http_send_tx B T enc, h_poll_response = poll_response B T, h_drive = http_drive B,
      q_send_tx = quic_send_tx Q, q_poll_noresp_window = poll_noresp_window Q,
      q_drive = quic_drive Q, q_is_dead = quic_is_dead Q\<rparr>"

definition conn_drive ::
  "('h, 'q, 'w) conn_ops \<Rightarrow> ('h, 'q) conn_state \<Rightarrow> 'w
     \<Rightarrow> (unit, transport_error) res \<times> ('h, 'q) conn_state \<times> 'w" where
  "conn_drive K c w =
     (case c of
        Http_Conn h \<Rightarrow> (case h_drive K h w of (r, h, w) \<Rightarrow> (r, Http_Conn h, w))
      | Quic_Conn q \<Rightarrow> (case q_drive K q w of (r, q, w) \<Rightarrow> (r, Quic_Conn q, w)))"

section \<open>Properties\<close>

text \<open>The results of \<open>n\<close> polls in a row, and the clock readings of \<open>n\<close> readings in a row.\<close>

fun quic_polls ::
  "('g, 'w) quic_ops \<Rightarrow> nat \<Rightarrow> 'g quic_conn \<Rightarrow> 'w \<Rightarrow> (64 word \<times> 64 word) option list" where
  "quic_polls Q 0 c w = []"
| "quic_polls Q (Suc n) c w =
     (case poll_noresp_window Q c w of (r, c, w) \<Rightarrow> r # quic_polls Q n c w)"

fun readings :: "('g, 'w) quic_ops \<Rightarrow> nat \<Rightarrow> 'w \<Rightarrow> nat list" where
  "readings Q 0 w = []"
| "readings Q (Suc n) w = (case clock Q w of (t, w) \<Rightarrow> t # readings Q n w)"

lemma quic_polls_idle: "qc_inflight c = None \<Longrightarrow> quic_polls Q n c w = replicate n None"
  by (induction n) (simp_all add: poll_noresp_window_def)

lemma quic_polls_window:
  assumes "qc_inflight c = Some p" and "qc_sent_at c = Some s"
  shows "quic_polls Q n c w =
    (let k = length (takeWhile (\<lambda>t. t - s \<le> 500000000) (readings Q n w))
     in replicate k None @ (if k < n then Some p # replicate (n - k - 1) None else []))"
proof (induction n arbitrary: w)
  case (Suc n)
  obtain t w' where "clock Q w = (t, w')" by force
  with Suc [of w'] assms show ?case
    by (simp add: poll_noresp_window_def QUIC_RESPONSE_WINDOW_MS_def quic_polls_idle Let_def)
qed simp

text \<open>
  C28. A transaction sent over QUIC is reported as unanswered exactly once, at the first poll
  whose clock reading is more than 500 ms after the send; every earlier and every later poll
  reports nothing (until the next send).
\<close>

theorem quic_unanswered_once:
  assumes "quic_send_tx Q j tsc tx c w0 = (Ok (), c', w)"
  shows "\<exists>s. s = fst (clock Q w0) \<and> quic_polls Q n c' w =
    (let k = length (takeWhile (\<lambda>t. t - s \<le> 500000000) (readings Q n w))
     in replicate k None @ (if k < n then Some (job_id j, tsc) # replicate (n - k - 1) None else []))"
proof -
  obtain now w1 where t: "clock Q w0 = (now, w1)" by force
  obtain r g w2 where "qe_send_tx Q tx now (qc_engine c) w1 = (r, g, w2)" by (metis prod.exhaust)
  with assms t have "qc_inflight c' = Some (job_id j, tsc)" "qc_sent_at c' = Some now"
    by (cases r; auto simp: quic_send_tx_def)+
  with quic_polls_window [of c' "(job_id j, tsc)" now Q n w] t show ?thesis by simp
qed

text \<open>An engine that accepts everything, on a clock that advances 0.2 s per reading.\<close>

definition tick_quic :: "(unit, nat) quic_ops" where
  "tick_quic = \<lparr>clock = (\<lambda>w. (w, w + 200000000)), qe_send_tx = (\<lambda>_ _ g w. (Ok (), g, w)),
     qe_drive = (\<lambda>_ g w. (Ok (), g, w)), qe_is_closed = (\<lambda>_. False)\<rparr>"

theorem quic_unanswered_once_witness:
  "quic_polls tick_quic 5 (quic_new ()\<lparr>qc_inflight := Some (7, 1), qc_sent_at := Some 0\<rparr>) 200000000
     = [None, None, Some (7, 1), None, None]"
proof -
  have "quic_send_tx tick_quic \<lparr>job_id = 7, job_ctx = 0\<rparr> 1 [] (quic_new ()) 0
      = (Ok (), quic_new ()\<lparr>qc_inflight := Some (7, 1), qc_sent_at := Some 0\<rparr>, 200000000)"
    by (simp add: quic_send_tx_def tick_quic_def quic_new_def)
  note once = quic_unanswered_once [OF this, of 5]
  have five: "(5 :: nat) = Suc (Suc (Suc (Suc (Suc 0))))" by simp
  have "readings tick_quic 5 200000000 = [200000000, 400000000, 600000000, 800000000, 1000000000]"
    unfolding five by (simp add: tick_quic_def)
  with once show ?thesis by (simp add: tick_quic_def numeral_2_eq_2)
qed

text \<open>What can happen to a pair: failover, a new standby, and changes inside the active connection.\<close>

datatype 'c dual_op = Swap | Replace 'c | Update "'c \<Rightarrow> 'c"

fun dual_step :: "'c dual_op \<Rightarrow> 'c dual_conn \<Rightarrow> 'c dual_conn" where
  "dual_step Swap d = dual_swap d"
| "dual_step (Replace c) d = replace_standby c d"
| "dual_step (Update f) d = d\<lparr>active := (active d)\<lparr>conn := f (conn (active d))\<rparr>\<rparr>"

lemma dual_step_healthy:
  "healthy (active d) \<and> healthy (standby d) \<Longrightarrow>
   healthy (active (dual_step op d)) \<and> healthy (standby (dual_step op d))"
  by (cases op) (simp_all add: dual_swap_def replace_standby_def)

text \<open>
  The health flags of a pair never tell anything: whatever failovers and reconnects happen,
  both connections are marked healthy, the failed one that was just swapped out included.
\<close>

theorem dual_always_healthy:
  "healthy (active (fold dual_step ops (dual_new a s))) \<and> healthy (standby (fold dual_step ops (dual_new a s)))"
proof -
  have "healthy (active d) \<and> healthy (standby d) \<Longrightarrow>
      healthy (active (fold dual_step ops d)) \<and> healthy (standby (fold dual_step ops d))" for d
    by (induction ops arbitrary: d) (use dual_step_healthy in auto)
  then show ?thesis by (simp add: dual_new_def)
qed

end
