(* ===== verification/Reconnect.thy ===== *)
theory Reconnect
  imports Conn
begin

text \<open>
  The reconnect thread, \<open>conn/reconnect.rs\<close>. Workers and thread talk over bounded channels of the
  crate \<open>crossbeam_channel\<close>: one request channel, and one response channel per provider. Their
  calls are the record \<open>xchan_ops\<close>; a channel is named by a handle.
\<close>

section \<open>Requests and responses\<close>

datatype conn_kind = RawLibcKind | IoUringKind | LibTpaKind

record reconnect_req =
  rq_provider_idx :: nat
  rq_kind :: conn_kind

text \<open>\<open>ConnBox\<close>: a box of any type, which the worker tries to downcast to its connection type.\<close>

datatype ('h, 'q) conn_box = Conn_Box "('h, 'q) conn_state" | Other_Box

record ('h, 'q) reconnect_resp =
  rp_provider_idx :: nat
  rp_conn :: "('h, 'q) conn_box"

datatype reconnect_error = NotSupported | Build bytes

datatype recv_result = Received reconnect_req | Timeout | Disconnected

record ('h, 'q, 'w) xchan_ops =
  req_try_send :: "reconnect_req \<Rightarrow> 'w \<Rightarrow> bool \<times> 'w"
  req_recv_timeout :: "'w \<Rightarrow> recv_result \<times> 'w"
  resp_try_send :: "nat \<Rightarrow> ('h, 'q) reconnect_resp \<Rightarrow> 'w \<Rightarrow> bool \<times> 'w"
  resp_try_recv :: "nat \<Rightarrow> 'w \<Rightarrow> ('h, 'q) reconnect_resp option \<times> 'w"

section \<open>The thread\<close>

text \<open>
  \<open>mk\<close> is the method \<open>build\<close> of the \<open>ReconnectBuilder\<close>. An iteration of the loop either goes on or returns from the
  thread's function.
\<close>

type_synonym ('h, 'q, 'w) reconnect_builder =
  "nat \<Rightarrow> conn_kind \<Rightarrow> 'w \<Rightarrow> (('h, 'q) conn_box, reconnect_error) res \<times> 'w"

datatype flow = Continue | Return

definition reconnect_iteration ::
  "('h, 'q, 'w) xchan_ops \<Rightarrow> ('h, 'q, 'w) reconnect_builder \<Rightarrow> ('w \<Rightarrow> bool) \<Rightarrow> nat list \<Rightarrow> 'w
     \<Rightarrow> (flow, unit) res \<times> 'w" where
  "reconnect_iteration X mk stop resp_txs w =
     (if stop w then (Ok Return, w)
      else case req_recv_timeout X w of
             (Received req, w) \<Rightarrow>
               (if rq_kind req = LibTpaKind then (Ok Continue, w)
                else case mk (rq_provider_idx req) (rq_kind req) w of
                       (Ok c, w) \<Rightarrow>
                         (let idx = rq_provider_idx req
                          in if idx < length resp_txs
                             then (Ok Continue,
                                   snd (resp_try_send X (resp_txs ! idx)
                                          \<lparr>rp_provider_idx = idx, rp_conn = c\<rparr> w))
                             else (Ok Continue, w))
                     | (Err _, w) \<Rightarrow> (Ok Continue, w)
                     | (Panic, w) \<Rightarrow> (Panic, w)
                     | (Hang, w) \<Rightarrow> (Hang, w))
           | (Timeout, w) \<Rightarrow> (Ok Continue, w)
           | (Disconnected, w) \<Rightarrow> (Ok Return, w))"

partial_function (option) run_reconnect_loop ::
  "('h, 'q, 'w) xchan_ops \<Rightarrow> ('h, 'q, 'w) reconnect_builder \<Rightarrow> ('w \<Rightarrow> bool) \<Rightarrow> nat list \<Rightarrow> 'w
     \<Rightarrow> ((unit, unit) res \<times> 'w) option" where
  "run_reconnect_loop X mk stop resp_txs w =
     (case reconnect_iteration X mk stop resp_txs w of
        (r, w') \<Rightarrow>
          (case r of
             Ok f \<Rightarrow>
               (if f = Continue then run_reconnect_loop X mk stop resp_txs w' else Some (Ok (), w'))
           | Err e \<Rightarrow> Some (Err e, w')
           | Panic \<Rightarrow> Some (Panic, w')
           | Hang \<Rightarrow> Some (Hang, w')))"

section \<open>The contract of the channels\<close>

text \<open>
  What \<open>crossbeam_channel\<close> documents about bounded channels, for requests with capacity 64 and
  responses with capacity 1: FIFO order, a full channel refuses, and no operation on one
  channel touches another one.
\<close>

locale crossbeam_channels =
  fixes X :: "('h, 'q, 'w) xchan_ops"
    and reqs :: "'w \<Rightarrow> reconnect_req list"
    and resps :: "nat \<Rightarrow> 'w \<Rightarrow> ('h, 'q) reconnect_resp list"
  assumes try_send_req: "reqs (snd (req_try_send X r w)) = (if length (reqs w) < 64 then reqs w @ [r] else reqs w)"
    and try_send_req_frame: "resps h (snd (req_try_send X r w)) = resps h w"
    and recv_some: "reqs w = r # rs \<Longrightarrow>
      \<exists>w'. req_recv_timeout X w = (Received r, w') \<and> reqs w' = rs \<and> (\<forall>h. resps h w' = resps h w)"
    and try_send_resp: "resps h (snd (resp_try_send X h' p w))
      = (if h = h' \<and> resps h w = [] then [p] else resps h w)"
    and try_send_resp_frame: "reqs (snd (resp_try_send X h' p w)) = reqs w"
    and try_recv_some: "resps h w = p # ps \<Longrightarrow>
      \<exists>w'. resp_try_recv X h w = (Some p, w') \<and> reqs w' = reqs w
        \<and> (\<forall>h'. resps h' w' = (if h' = h then ps else resps h' w))"
    and try_recv_none: "resps h w = [] \<Longrightarrow>
      \<exists>w'. resp_try_recv X h w = (None, w') \<and> reqs w' = reqs w \<and> (\<forall>h'. resps h' w' = resps h' w)"
begin

text \<open>A request that reaches the thread ends as a connection in the slot of its provider.\<close>

lemma iteration_serves:
  assumes "\<not> stop w" and "reqs w = r # rs" and "rq_kind r \<noteq> LibTpaKind"
    and "rq_provider_idx r < length resp_txs" and "resps (resp_txs ! rq_provider_idx r) w = []"
    and "\<And>w. \<exists>w'. mk (rq_provider_idx r) (rq_kind r) w = (Ok c, w')
           \<and> reqs w' = reqs w \<and> (\<forall>h. resps h w' = resps h w)"
  obtains w' where "reconnect_iteration X mk stop resp_txs w = (Ok Continue, w')"
    and "reqs w' = rs"
    and "\<And>h. resps h w' = (if h = resp_txs ! rq_provider_idx r
           then [\<lparr>rp_provider_idx = rq_provider_idx r, rp_conn = c\<rparr>] else resps h w)"
proof -
  obtain w1 where w1: "req_recv_timeout X w = (Received r, w1)" "reqs w1 = rs" "\<forall>h. resps h w1 = resps h w"
    using recv_some [OF assms(2)] by blast
  obtain w2 where w2: "mk (rq_provider_idx r) (rq_kind r) w1 = (Ok c, w2)" "reqs w2 = reqs w1"
    "\<forall>h. resps h w2 = resps h w1"
    using assms(6) by blast
  let ?p = "\<lparr>rp_provider_idx = rq_provider_idx r, rp_conn = c\<rparr>"
  let ?w = "snd (resp_try_send X (resp_txs ! rq_provider_idx r) ?p w2)"
  have "reconnect_iteration X mk stop resp_txs w = (Ok Continue, ?w)"
    using assms(1,3,4) w1(1) w2(1) by (simp add: reconnect_iteration_def Let_def)
  moreover have "reqs ?w = rs" using w1 w2 by (simp add: try_send_resp_frame)
  moreover have "resps h ?w = (if h = resp_txs ! rq_provider_idx r then [?p] else resps h w)" for h
    using w1 w2 assms(5) by (simp add: try_send_resp)
  ultimately show ?thesis using that by blast
qed

end

text \<open>Channels kept as lists.\<close>

record ('h, 'q) xworld =
  xw_reqs :: "reconnect_req list"
  xw_resps :: "nat \<Rightarrow> ('h, 'q) reconnect_resp list"
  xw_stop :: bool

definition list_xchan :: "('h, 'q, ('h, 'q) xworld) xchan_ops" where
  "list_xchan = \<lparr>
     req_try_send = (\<lambda>r w. if length (xw_reqs w) < 64 then (True, w\<lparr>xw_reqs := xw_reqs w @ [r]\<rparr>) else (False, w)),
     req_recv_timeout = (\<lambda>w. case xw_reqs w of [] \<Rightarrow> (Timeout, w) | r # rs \<Rightarrow> (Received r, w\<lparr>xw_reqs := rs\<rparr>)),
     resp_try_send = (\<lambda>h p w. if xw_resps w h = [] then (True, w\<lparr>xw_resps := (xw_resps w)(h := [p])\<rparr>) else (False, w)),
     resp_try_recv = (\<lambda>h w. case xw_resps w h of [] \<Rightarrow> (None, w)
       | p # ps \<Rightarrow> (Some p, w\<lparr>xw_resps := (xw_resps w)(h := ps)\<rparr>))\<rparr>"

interpretation lx: crossbeam_channels list_xchan xw_reqs "\<lambda>h w. xw_resps w h"
  by unfold_locales (auto simp: list_xchan_def)

end
