(* ===== verification/Worker_Par.thy ===== *)
theory Worker_Par
  imports Result_Lane Reconnect
begin

unbundle bit_operations_syntax

text \<open>
  The worker of the parallel transport, \<open>transport/parallel.rs\<close>: one thread per provider that
  pops jobs, sends them on the active connection, reaps responses and fails over. One
  iteration of its loop is one function; everything a worker shares with other threads is
  either a channel in its state or part of the world. The release profile's wrap-around
  of \<open>jobs_sent\<close> and \<open>tick\<close> is that of their word types.
\<close>

section \<open>State\<close>

definition TRIGGER_RING :: nat where
  "TRIGGER_RING = 256"

definition PERIODIC_MASK :: "32 word" where
  "PERIODIC_MASK = 0x3FF"

text \<open>
  The calls a worker makes on other code: rings, connections, reconnect channels, the processor,
  the stop flag, the user's transaction source, and the cell its diagnostics are published in.
  \<open>fill\<close> returns the length and the new contents of the scratch array.
\<close>

record ('h, 'q, 'jq, 'rq, 'w) worker_env =
  job_ring :: "('jq, job) ring_ops"
  result_ring :: "('rq, raw_resp) ring_ops"
  cops :: "('h, 'q, 'w) conn_ops"
  xchan :: "('h, 'q, 'w) xchan_ops"
  hw :: "'w hw_ops"
  stop_load :: "'w \<Rightarrow> bool"
  fill :: "provider_id \<Rightarrow> job \<Rightarrow> bytes \<Rightarrow> 'w \<Rightarrow> 16 word \<times> bytes \<times> 'w"
  diag_write :: "nat \<Rightarrow> worker_diag \<Rightarrow> 'w \<Rightarrow> 'w"
  trigger_addr :: nat

record ('h, 'q, 'jq, 'rq) par_worker =
  pw_provider_idx :: nat
  pw_trigger :: "'jq spsc"
  pw_result_tx :: "'rq spsc"
  pw_dual_conn :: "('h, 'q) conn_state dual_conn"
  pw_inflight :: "(job \<times> 64 word) option"
  pw_reconnect_resp_rx :: nat
  pw_conn_kind :: conn_kind
  pw_tick :: "32 word"
  pw_diag :: nat
  pw_jobs_sent :: "64 word"
  pw_scratch :: bytes

text \<open>The scratch array is a local of \<open>run\<close>, zeroed when the thread starts.\<close>

definition par_new ::
  "nat \<Rightarrow> 'jq spsc \<Rightarrow> 'rq spsc \<Rightarrow> ('h, 'q) conn_state dual_conn \<Rightarrow> nat \<Rightarrow> conn_kind \<Rightarrow> nat
     \<Rightarrow> ('h, 'q, 'jq, 'rq) par_worker" where
  "par_new idx trig res dc rx k dg =
     \<lparr>pw_provider_idx = idx, pw_trigger = trig, pw_result_tx = res, pw_dual_conn = dc,
      pw_inflight = None, pw_reconnect_resp_rx = rx, pw_conn_kind = k, pw_tick = 0,
      pw_diag = dg, pw_jobs_sent = 0, pw_scratch = replicate MAX_TX_LEN (CHR 0x00)\<rparr>"

section \<open>Operations\<close>

definition active_conn :: "('h, 'q, 'jq, 'rq) par_worker \<Rightarrow> ('h, 'q) conn_state" where
  "active_conn s = conn (active (pw_dual_conn s))"

definition set_active_conn ::
  "('h, 'q) conn_state \<Rightarrow> ('h, 'q, 'jq, 'rq) par_worker \<Rightarrow> ('h, 'q, 'jq, 'rq) par_worker" where
  "set_active_conn c s =
     s\<lparr>pw_dual_conn := (pw_dual_conn s)\<lparr>active := (active (pw_dual_conn s))\<lparr>conn := c\<rparr>\<rparr>\<rparr>"

definition par_do_failover ::
  "('h, 'q, 'jq, 'rq, 'w) worker_env \<Rightarrow> ('h, 'q, 'jq, 'rq) par_worker \<times> 'w
     \<Rightarrow> ('h, 'q, 'jq, 'rq) par_worker \<times> 'w" where
  "par_do_failover E = (\<lambda>(s, w).
     let s = s\<lparr>pw_inflight := None\<rparr>;
         s = s\<lparr>pw_dual_conn := dual_swap (pw_dual_conn s)\<rparr>
     in (s, snd (req_try_send (xchan E)
                   \<lparr>rq_provider_idx = pw_provider_idx s, rq_kind = pw_conn_kind s\<rparr> w)))"

definition par_mark_sent ::
  "job \<Rightarrow> 64 word \<Rightarrow> ('h, 'q, 'jq, 'rq) par_worker \<Rightarrow> ('h, 'q, 'jq, 'rq) par_worker" where
  "par_mark_sent j sent s = s\<lparr>pw_inflight := Some (j, sent), pw_jobs_sent := pw_jobs_sent s + 1\<rparr>"

definition par_send_to ::
  "('h, 'q, 'jq, 'rq, 'w) worker_env \<Rightarrow> job \<Rightarrow> 64 word \<Rightarrow> nat \<Rightarrow> ('h, 'q, 'jq, 'rq) par_worker \<times> 'w
     \<Rightarrow> (unit, unit) res \<times> ('h, 'q, 'jq, 'rq) par_worker \<times> 'w" where
  "par_send_to E j sent len = (\<lambda>(s, w).
     bind_st (slice_of (pw_scratch s) 0 len, s, w) (\<lambda>tx (s, w).
     case active_conn s of
       Http_Conn h \<Rightarrow>
         (case h_send_tx (cops E) tx h w of (r, h, w) \<Rightarrow>
          let s = set_active_conn (Http_Conn h) s
          in case r of
               Ok _ \<Rightarrow> (Ok (), par_mark_sent j sent s, w)
             | Err (Io e) \<Rightarrow>
                 (if http_conn_failed_io e then
                    (case par_do_failover E (s, w) of (s, w) \<Rightarrow>
                     case active_conn s of
                       Http_Conn h2 \<Rightarrow>
                         (case h_send_tx (cops E) tx h2 w of (r2, h2, w) \<Rightarrow>
                          let s = set_active_conn (Http_Conn h2) s
                          in (discard r2, if is_ok r2 then par_mark_sent j sent s else s, w))
                     | Quic_Conn _ \<Rightarrow> (Ok (), s, w))
                  else (Ok (), s, w))
             | Err _ \<Rightarrow> (Ok (), s, w)
             | Panic \<Rightarrow> (Panic, s, w)
             | Hang \<Rightarrow> (Hang, s, w))
     | Quic_Conn q \<Rightarrow>
         (case q_send_tx (cops E) j sent tx q w of (r, q, w) \<Rightarrow>
          bind_st (discard r, set_active_conn (Quic_Conn q) s, w) (\<lambda>_ (s, w).
            (Ok (), s\<lparr>pw_jobs_sent := pw_jobs_sent s + 1\<rparr>, w)))))"

text \<open>The two responses \<open>reap\<close> can produce. \<open>Vec::extend\<close> of at most \<open>RESP_CAP\<close> bytes cannot overflow the array.\<close>

definition settled_resp :: "64 word \<Rightarrow> provider_id \<Rightarrow> 64 word \<Rightarrow> 64 word \<Rightarrow> bytes \<Rightarrow> raw_resp" where
  "settled_resp jid pid sent now body =
     raw_resp_new\<lparr>rr_job := jid, rr_provider := pid, rr_sent_tsc := sent, rr_settled_tsc := now,
       rr_bytes := take (min (length body) RESP_CAP) body\<rparr>"

definition unanswered_resp :: "64 word \<Rightarrow> provider_id \<Rightarrow> 64 word \<Rightarrow> 64 word \<Rightarrow> raw_resp" where
  "unanswered_resp jid pid sent now =
     raw_resp_new\<lparr>rr_job := jid, rr_provider := pid, rr_sent_tsc := sent, rr_settled_tsc := now,
       rr_outcome_hint := Some NoResponse\<rparr>"

definition par_push_result ::
  "('h, 'q, 'jq, 'rq, 'w) worker_env \<Rightarrow> raw_resp \<Rightarrow> ('h, 'q, 'jq, 'rq) par_worker
     \<Rightarrow> ('h, 'q, 'jq, 'rq) par_worker" where
  "par_push_result E resp s =
     s\<lparr>pw_result_tx := snd (try_push (result_ring E) resp (pw_result_tx s))\<rparr>"

text \<open>The result's value is the flag \<open>failed\<close>.\<close>

definition par_poll ::
  "('h, 'q, 'jq, 'rq, 'w) worker_env \<Rightarrow> provider_id \<Rightarrow> ('h, 'q, 'jq, 'rq) par_worker \<times> 'w
     \<Rightarrow> (bool, unit) res \<times> ('h, 'q, 'jq, 'rq) par_worker \<times> 'w" where
  "par_poll E pid = (\<lambda>(s, w).
     case active_conn s of
       Http_Conn h \<Rightarrow>
         (case h_poll_response (cops E) h w of (r, h, w) \<Rightarrow>
          let s = set_active_conn (Http_Conn h) s
          in case r of
               Ok (Some body) \<Rightarrow>
                 (case pw_inflight s of
                    Some (j, sent) \<Rightarrow>
                      (let s = s\<lparr>pw_inflight := None\<rparr>
                       in case rdtsc (hw E) w of (now, w) \<Rightarrow>
                            (Ok False, par_push_result E (settled_resp (job_id j) pid sent now body) s, w))
                  | None \<Rightarrow> (Ok False, s, w))
             | Ok None \<Rightarrow> (Ok False, s, w)
             | Err (Io e) \<Rightarrow> (Ok (http_conn_failed_io e), s, w)
             | Err _ \<Rightarrow> (Ok False, s, w)
             | Panic \<Rightarrow> (Panic, s, w)
             | Hang \<Rightarrow> (Hang, s, w))
     | Quic_Conn q \<Rightarrow>
         (if q_is_dead (cops E) q then (Ok True, s, w)
          else case q_poll_noresp_window (cops E) q w of (p, q, w) \<Rightarrow>
               let s = set_active_conn (Quic_Conn q) s
               in case p of
                    Some (jid, sent) \<Rightarrow>
                      (case rdtsc (hw E) w of (now, w) \<Rightarrow>
                         (Ok False, par_push_result E (unanswered_resp jid pid sent now) s, w))
                  | None \<Rightarrow> (Ok False, s, w)))"

definition par_reap ::
  "('h, 'q, 'jq, 'rq, 'w) worker_env \<Rightarrow> provider_id \<Rightarrow> ('h, 'q, 'jq, 'rq) par_worker \<times> 'w
     \<Rightarrow> (unit, unit) res \<times> ('h, 'q, 'jq, 'rq) par_worker \<times> 'w" where
  "par_reap E pid s =
     bind_st (par_poll E pid s) (\<lambda>failed s.
       (Ok (), if failed then par_do_failover E s else s))"

definition check_standby_delivery ::
  "('h, 'q, 'jq, 'rq, 'w) worker_env \<Rightarrow> ('h, 'q, 'jq, 'rq) par_worker \<times> 'w
     \<Rightarrow> ('h, 'q, 'jq, 'rq) par_worker \<times> 'w" where
  "check_standby_delivery E = (\<lambda>(s, w).
     case resp_try_recv (xchan E) (pw_reconnect_resp_rx s) w of
       (Some resp, w) \<Rightarrow>
         (case rp_conn resp of
            Conn_Box c \<Rightarrow> (s\<lparr>pw_dual_conn := replace_standby c (pw_dual_conn s)\<rparr>, w)
          | Other_Box \<Rightarrow> (s, w))
     | (None, w) \<Rightarrow> (s, w))"

definition par_publish_diag ::
  "('h, 'q, 'jq, 'rq, 'w) worker_env \<Rightarrow> ('h, 'q, 'jq, 'rq) par_worker \<times> 'w
     \<Rightarrow> ('h, 'q, 'jq, 'rq) par_worker \<times> 'w" where
  "par_publish_diag E = (\<lambda>(s, w).
     (s, diag_write E (pw_diag s)
           \<lparr>wd_alive = True, wd_jobs_sent = pw_jobs_sent s, wd_fill_ns = hist_default,
            wd_submit_ns = hist_default\<rparr> w))"

section \<open>The loop\<close>

definition par_take_job ::
  "('h, 'q, 'jq, 'rq, 'w) worker_env \<Rightarrow> provider_id \<Rightarrow> ('h, 'q, 'jq, 'rq) par_worker \<times> 'w
     \<Rightarrow> (unit, unit) res \<times> ('h, 'q, 'jq, 'rq) par_worker \<times> 'w" where
  "par_take_job E pid = (\<lambda>(s, w).
     case try_pop (job_ring E) (pw_trigger s) of
       (Some j, t) \<Rightarrow>
         (case rdtsc (hw E) w of (sent, w) \<Rightarrow>
          case fill E pid j (pw_scratch s) w of (len, scratch, w) \<Rightarrow>
          par_send_to E j sent (unat len) (s\<lparr>pw_trigger := t, pw_scratch := scratch\<rparr>, w))
     | (None, t) \<Rightarrow> (Ok (), s\<lparr>pw_trigger := t\<rparr>, w))"

definition par_drive ::
  "('h, 'q, 'jq, 'rq, 'w) worker_env \<Rightarrow> ('h, 'q, 'jq, 'rq) par_worker \<times> 'w
     \<Rightarrow> (unit, unit) res \<times> ('h, 'q, 'jq, 'rq) par_worker \<times> 'w" where
  "par_drive E = (\<lambda>(s, w).
     case conn_drive (cops E) (active_conn s) w of (r, c, w) \<Rightarrow> (discard r, set_active_conn c s, w))"

definition par_maintain ::
  "('h, 'q, 'jq, 'rq, 'w) worker_env \<Rightarrow> ('h, 'q, 'jq, 'rq) par_worker \<times> 'w
     \<Rightarrow> ('h, 'q, 'jq, 'rq) par_worker \<times> 'w" where
  "par_maintain E s = par_publish_diag E (check_standby_delivery E s)"

definition par_idle ::
  "('h, 'q, 'jq, 'rq, 'w) worker_env \<Rightarrow> ('h, 'q, 'jq, 'rq) par_worker \<times> 'w
     \<Rightarrow> ('h, 'q, 'jq, 'rq) par_worker \<times> 'w" where
  "par_idle E = (\<lambda>(s, w).
     (s, idle_wait (hw E) (trigger_addr E)
           (\<lambda>w. is_empty (job_ring E) (pw_trigger s) \<and> \<not> stop_load E w) w))"

text \<open>The body of the loop in \<open>run\<close>; the loop tests the stop flag before each iteration.\<close>

definition par_iteration ::
  "('h, 'q, 'jq, 'rq, 'w) worker_env \<Rightarrow> ('h, 'q, 'jq, 'rq) par_worker \<times> 'w
     \<Rightarrow> (unit, unit) res \<times> ('h, 'q, 'jq, 'rq) par_worker \<times> 'w" where
  "par_iteration E x =
     (let pid = provider_of_index (pw_provider_idx (fst x))
      in bind_st (par_take_job E pid x) (\<lambda>_ x.
         bind_st (par_drive E x) (\<lambda>_ x.
         bind_st (par_reap E pid x) (\<lambda>_ (s, w).
         let s = s\<lparr>pw_tick := pw_tick s + 1\<rparr>;
             x = (if pw_tick s AND PERIODIC_MASK = 0 then par_maintain E (s, w) else (s, w));
             x = (if is_empty (job_ring E) (pw_trigger (fst x)) then par_maintain E (par_idle E x) else x)
         in (Ok (), x)))))"

partial_function (option) par_run ::
  "('h, 'q, 'jq, 'rq, 'w) worker_env \<Rightarrow> ('h, 'q, 'jq, 'rq) par_worker \<times> 'w
     \<Rightarrow> ((unit, unit) res \<times> ('h, 'q, 'jq, 'rq) par_worker \<times> 'w) option" where
  "par_run E x =
     (if stop_load E (snd x) then Some (Ok (), x)
      else case par_iteration E x of (r, x') \<Rightarrow>
        (case r of
           Ok _ \<Rightarrow> par_run E x'
         | Err e \<Rightarrow> Some (Err e, x')
         | Panic \<Rightarrow> Some (Panic, x')
         | Hang \<Rightarrow> Some (Hang, x')))"

text \<open>Everything an iteration unfolds to, for evaluation on concrete states.\<close>

lemmas worker_defs = par_iteration_def par_take_job_def par_send_to_def par_drive_def par_reap_def
  par_poll_def par_maintain_def check_standby_delivery_def par_publish_diag_def par_idle_def
  active_conn_def set_active_conn_def par_mark_sent_def par_push_result_def try_pop_def try_push_def
  is_empty_def notify_def conn_drive_def rdtsc_def slice_of_def PERIODIC_MASK_def MAX_TX_LEN_def Let_def

end
