(* ===== verification/Worker_Props.thy ===== *)
theory Worker_Props
  imports Worker_Par
begin

unbundle bit_operations_syntax

text \<open>
  Properties of the parallel worker: how sends and outcomes are accounted for over whole
  executions, what failover does, that iterations complete, and when maintenance happens.
\<close>

section \<open>Accounting\<close>

lemma set_active_conn_sel [simp]:
  "pw_provider_idx (set_active_conn c s) = pw_provider_idx s"
  "pw_trigger (set_active_conn c s) = pw_trigger s"
  "pw_result_tx (set_active_conn c s) = pw_result_tx s"
  "pw_inflight (set_active_conn c s) = pw_inflight s"
  "pw_reconnect_resp_rx (set_active_conn c s) = pw_reconnect_resp_rx s"
  "pw_conn_kind (set_active_conn c s) = pw_conn_kind s"
  "pw_tick (set_active_conn c s) = pw_tick s"
  "pw_diag (set_active_conn c s) = pw_diag s"
  "pw_jobs_sent (set_active_conn c s) = pw_jobs_sent s"
  "pw_scratch (set_active_conn c s) = pw_scratch s"
  "active_conn (set_active_conn c s) = c"
  "standby (pw_dual_conn (set_active_conn c s)) = standby (pw_dual_conn s)"
  by (simp_all add: set_active_conn_def active_conn_def)

fun is_http :: "('h, 'q) conn_state \<Rightarrow> bool" where
  "is_http (Http_Conn _) = True"
| "is_http (Quic_Conn _) = False"

definition http_worker :: "('h, 'q, 'jq, 'rq) par_worker \<Rightarrow> bool" where
  "http_worker s \<longleftrightarrow> is_http (active_conn s) \<and> is_http (conn (standby (pw_dual_conn s)))"

definition http_deliveries :: "('h, 'q, 'jq, 'rq, 'w) worker_env \<Rightarrow> bool" where
  "http_deliveries E \<longleftrightarrow> (\<forall>h w p w' c. resp_try_recv (xchan E) h w = (Some p, w') \<longrightarrow>
     rp_conn p = Conn_Box c \<longrightarrow> is_http c)"

definition pending :: "('h, 'q, 'jq, 'rq) par_worker \<Rightarrow> nat" where
  "pending s = (if pw_inflight s = None then 0 else 1)"

definition accounts ::
  "('h, 'q, 'jq, 'rq) par_worker \<Rightarrow> nat \<Rightarrow> nat \<Rightarrow> ('h, 'q, 'jq, 'rq) par_worker \<Rightarrow> bool" where
  "accounts s a b s' \<longleftrightarrow> pw_jobs_sent s' = pw_jobs_sent s + of_nat a
     \<and> counter (pw_result_tx s') = counter (pw_result_tx s) + of_nat b
     \<and> b + pending s' \<le> a + pending s"

lemma accounts_trans:
  "accounts s a b s1 \<Longrightarrow> accounts s1 c d s2 \<Longrightarrow> accounts s (a + c) (b + d) s2"
  by (simp add: accounts_def)

lemma accounts_same:
  "pw_jobs_sent s' = pw_jobs_sent s \<Longrightarrow> counter (pw_result_tx s') = counter (pw_result_tx s)
   \<Longrightarrow> pw_inflight s' = pw_inflight s \<Longrightarrow> accounts s 0 0 s'"
  by (simp add: accounts_def pending_def)

lemma try_push_counter:
  "counter (snd (try_push R v c)) = counter c \<or> counter (snd (try_push R v c)) = counter c + 1"
  by (auto simp: try_push_def notify_def split: prod.splits push_result.splits)

lemma failover_sel [simp]:
  "pw_jobs_sent (fst (par_do_failover E x)) = pw_jobs_sent (fst x)"
  "pw_result_tx (fst (par_do_failover E x)) = pw_result_tx (fst x)"
  "pw_inflight (fst (par_do_failover E x)) = None"
  "pw_scratch (fst (par_do_failover E x)) = pw_scratch (fst x)"
  "pw_tick (fst (par_do_failover E x)) = pw_tick (fst x)"
  "pw_trigger (fst (par_do_failover E x)) = pw_trigger (fst x)"
  "pw_provider_idx (fst (par_do_failover E x)) = pw_provider_idx (fst x)"
  "active_conn (fst (par_do_failover E x)) = conn (standby (pw_dual_conn (fst x)))"
  "conn (standby (pw_dual_conn (fst (par_do_failover E x)))) = active_conn (fst x)"
  by (simp_all add: par_do_failover_def active_conn_def dual_swap_def Let_def split_beta)

lemma failover_accounts: "accounts s 0 0 (fst (par_do_failover E (s, w)))"
  by (simp add: accounts_def pending_def)

lemma failover_http: "http_worker (fst (par_do_failover E (s, w))) = http_worker s"
  by (auto simp: http_worker_def)

lemma mark_sent_accounts: "accounts s 1 0 (par_mark_sent j t s)"
  by (simp add: accounts_def par_mark_sent_def pending_def)


lemma par_send_to_accounts:
  assumes "par_send_to E j t len (s, w) = (Ok (), s', w')" and "http_worker s"
  shows "\<exists>a \<le> 1. accounts s a 0 s' \<and> http_worker s'"
proof -
  obtain h where h: "active_conn s = Http_Conn h"
    using assms(2) by (cases "active_conn s") (auto simp: http_worker_def)
  obtain tx where tx: "slice_of (pw_scratch s) 0 len = (Ok tx :: (bytes, unit) res)"
    using assms(1) by (cases "slice_of (pw_scratch s) 0 len :: (bytes, unit) res")
      (auto simp: par_send_to_def)
  obtain r h1 w1 where snd1: "h_send_tx (cops E) tx h w = (r, h1, w1)" by (metis prod.exhaust)
  let ?s = "set_active_conn (Http_Conn h1) s"
  have same: "accounts s 0 0 ?s" by (rule accounts_same) simp_all
  have http: "http_worker ?s" using assms(2) by (simp add: http_worker_def)
  note unf = assms(1) [unfolded par_send_to_def, simplified, unfolded tx, simplified, unfolded h, simplified,
      unfolded snd1, simplified, unfolded Let_def]
  consider (ok) "r = Ok ()" | (failed) e where "r = Err (Io e)" "http_conn_failed_io e"
    | (other) "s' = ?s"
    using unf by (cases r) (auto split: transport_error.splits if_splits)
  then show ?thesis
  proof cases
    case ok
    then have "s' = par_mark_sent j t ?s" using unf by simp
    moreover have "accounts s (0 + 1) (0 + 0) (par_mark_sent j t ?s)"
      by (rule accounts_trans [OF same mark_sent_accounts])
    moreover have "http_worker (par_mark_sent j t ?s)"
      using http by (simp add: http_worker_def par_mark_sent_def active_conn_def)
    ultimately show ?thesis by auto
  next
    case failed
    obtain s2 w2 where f: "par_do_failover E (?s, w1) = (s2, w2)" by force
    have a2: "accounts s (0 + 0) (0 + 0) s2"
      using accounts_trans [OF same failover_accounts [of ?s E w1]] f by simp
    have h2: "http_worker s2" using failover_http [of E ?s w1] f http by simp
    obtain k where k: "active_conn s2 = Http_Conn k"
      using h2 by (cases "active_conn s2") (auto simp: http_worker_def)
    obtain r2 k2 w3 where snd2: "h_send_tx (cops E) tx k w2 = (r2, k2, w3)" by (metis prod.exhaust)
    let ?s2 = "set_active_conn (Http_Conn k2) s2"
    have s': "s' = (if is_ok r2 then par_mark_sent j t ?s2 else ?s2)"
      using unf failed f k snd2 by (auto simp: Let_def)
    have a3: "accounts s 0 0 ?s2"
      using accounts_trans [OF a2, of 0 0 ?s2] by (simp add: accounts_same)
    have "http_worker ?s2" "http_worker (par_mark_sent j t ?s2)"
      using h2 by (simp_all add: http_worker_def par_mark_sent_def active_conn_def set_active_conn_def)
    with a3 accounts_trans [OF a3 mark_sent_accounts [of ?s2 j t]] s' show ?thesis
      by (cases "is_ok r2") auto
  next
    case other
    with same http show ?thesis by auto
  qed
qed

lemma par_poll_accounts:
  assumes "par_poll E pid (s, w) = (Ok f, s', w')" and "http_worker s"
  shows "\<exists>b \<le> 1. accounts s 0 b s' \<and> http_worker s'"
proof -
  obtain h where h: "active_conn s = Http_Conn h"
    using assms(2) by (cases "active_conn s") (auto simp: http_worker_def)
  obtain r h1 w1 where poll: "h_poll_response (cops E) h w = (r, h1, w1)" by (metis prod.exhaust)
  let ?s = "set_active_conn (Http_Conn h1) s"
  have same: "accounts s 0 0 ?s" by (rule accounts_same) simp_all
  have http: "http_worker ?s" using assms(2) by (simp add: http_worker_def)
  consider (body) body j t where "r = Ok (Some body)" "pw_inflight s = Some (j, t)" | (other) "s' = ?s"
    using assms(1) h poll
    by (cases r) (auto simp: par_poll_def Let_def split: option.splits transport_error.splits)
  then show ?thesis
  proof cases
    case body
    obtain now w2 where t: "rdtsc (hw E) w1 = (now, w2)" by force
    have s': "s' = par_push_result E (settled_resp (job_id j) pid t now body) (?s\<lparr>pw_inflight := None\<rparr>)"
      using assms(1) h poll body t by (simp add: par_poll_def Let_def)
    let ?resp = "settled_resp (job_id j) pid t now body"
    have "\<exists>b \<le> 1. counter (pw_result_tx s') = counter (pw_result_tx s) + of_nat b"
      using try_push_counter [of "result_ring E" ?resp "pw_result_tx s"]
      by (auto simp: s' par_push_result_def intro: exI [of _ 0] exI [of _ 1])
    moreover have "pw_jobs_sent s' = pw_jobs_sent s" "pw_inflight s' = None" "http_worker s'"
      using http by (simp_all add: s' par_push_result_def http_worker_def active_conn_def)
    ultimately show ?thesis using body by (auto simp: accounts_def pending_def)
  next
    case other
    with same http show ?thesis by auto
  qed
qed


lemma par_reap_accounts:
  assumes "par_reap E pid (s, w) = (Ok (), s', w')" and "http_worker s"
  shows "\<exists>b \<le> 1. accounts s 0 b s' \<and> http_worker s'"
proof -
  obtain r s1 w1 where p: "par_poll E pid (s, w) = (r, s1, w1)" by (metis prod.exhaust)
  with assms(1) obtain f where r: "r = Ok f" by (cases r) (auto simp: par_reap_def)
  obtain b where b: "b \<le> 1" "accounts s 0 b s1" "http_worker s1"
    using par_poll_accounts [OF p [unfolded r] assms(2)] by blast
  show ?thesis
  proof (cases f)
    case True
    then have s': "s' = fst (par_do_failover E (s1, w1))"
      using assms(1) p r by (simp add: par_reap_def)
    have "accounts s 0 b s'" using accounts_trans [OF b(2) failover_accounts [of s1 E w1]] s' by simp
    moreover have "http_worker s'" using failover_http [of E s1 w1] b(3) s' by simp
    ultimately show ?thesis using b(1) by blast
  next
    case False
    with assms(1) p r have "s' = s1" by (simp add: par_reap_def)
    with b show ?thesis by blast
  qed
qed

lemma par_maintain_sel:
  assumes "http_deliveries E" and "http_worker s" and "par_maintain E (s, w) = (s', w')"
  shows "http_worker s' \<and> pw_jobs_sent s' = pw_jobs_sent s \<and> pw_result_tx s' = pw_result_tx s
    \<and> pw_inflight s' = pw_inflight s"
proof -
  obtain po w1 where rv: "resp_try_recv (xchan E) (pw_reconnect_resp_rx s) w = (po, w1)" by force
  consider (new) p c where "po = Some p" "rp_conn p = Conn_Box c"
      "s' = s\<lparr>pw_dual_conn := replace_standby c (pw_dual_conn s)\<rparr>" | (same) "s' = s"
    using assms(3) rv
    by (cases po; cases "rp_conn (the po)")
       (simp_all add: par_maintain_def check_standby_delivery_def par_publish_diag_def)
  then show ?thesis
  proof cases
    case new
    then have "is_http c" using assms(1) rv unfolding http_deliveries_def by blast
    with new assms(2) show ?thesis
      by (simp add: http_worker_def active_conn_def replace_standby_def)
  qed (use assms(2) in simp)
qed

lemma accounts_refl: "accounts s 0 0 s"
  by (simp add: accounts_def)

lemma par_maintain_accounts:
  "http_deliveries E \<Longrightarrow> http_worker s \<Longrightarrow> par_maintain E (s, w) = (s', w') \<Longrightarrow>
   accounts s 0 0 s' \<and> http_worker s'"
  using par_maintain_sel [of E s w s' w'] by (simp add: accounts_def pending_def)

lemma par_take_job_accounts:
  assumes "par_take_job E pid (s, w) = (Ok (), s', w')" and "http_worker s"
  shows "\<exists>a \<le> 1. accounts s a 0 s' \<and> http_worker s'"
proof -
  obtain jo t where pop: "try_pop (job_ring E) (pw_trigger s) = (jo, t)" by force
  show ?thesis
  proof (cases jo)
    case None
    with assms pop have "s' = s\<lparr>pw_trigger := t\<rparr>" by (simp add: par_take_job_def)
    then have "accounts s 0 0 s'" "http_worker s'"
      using assms(2) by (simp_all add: accounts_def pending_def http_worker_def active_conn_def)
    then show ?thesis by blast
  next
    case (Some j)
    obtain t1 w1 where t1: "rdtsc (hw E) w = (t1, w1)" by force
    obtain len sc w2 where f: "fill E pid j (pw_scratch s) w1 = (len, sc, w2)" by (metis prod.exhaust)
    let ?s = "s\<lparr>pw_trigger := t, pw_scratch := sc\<rparr>"
    have send: "par_send_to E j t1 (unat len) (?s, w2) = (Ok (), s', w')"
      using assms(1) pop Some t1 f by (simp add: par_take_job_def)
    have "http_worker ?s" using assms(2) by (simp add: http_worker_def active_conn_def)
    from par_send_to_accounts [OF send this] obtain a where
      a: "a \<le> 1" "accounts ?s a 0 s'" "http_worker s'" by blast
    from a(2) have "accounts s a 0 s'" by (simp add: accounts_def pending_def)
    with a(1,3) show ?thesis by blast
  qed
qed

lemma par_drive_accounts:
  assumes "par_drive E (s, w) = (r, s', w')" and "http_worker s"
  shows "accounts s 0 0 s' \<and> http_worker s'"
proof -
  obtain h where h: "active_conn s = Http_Conn h"
    using assms(2) by (cases "active_conn s") (auto simp: http_worker_def)
  obtain r1 h1 w1 where "h_drive (cops E) h w = (r1, h1, w1)" by (metis prod.exhaust)
  with h assms(1) have "s' = set_active_conn (Http_Conn h1) s"
    by (simp add: par_drive_def conn_drive_def)
  then show ?thesis
    using assms(2) by (simp add: accounts_def pending_def http_worker_def)
qed

lemma par_iteration_Ok:
  assumes "par_iteration E (s, w) = (Ok (), s', w')"
  obtains s1 w1 s2 w2 s3 w3 s4 w4 where
    "par_take_job E (provider_of_index (pw_provider_idx s)) (s, w) = (Ok (), s1, w1)"
    "par_drive E (s1, w1) = (Ok (), s2, w2)"
    "par_reap E (provider_of_index (pw_provider_idx s)) (s2, w2) = (Ok (), s3, w3)"
    "(s4, w4) = (if (pw_tick s3 + 1) AND PERIODIC_MASK = 0 then par_maintain E (s3\<lparr>pw_tick := pw_tick s3 + 1\<rparr>, w3)
       else (s3\<lparr>pw_tick := pw_tick s3 + 1\<rparr>, w3))"
    "(s', w') = (if is_empty (job_ring E) (pw_trigger s4) then par_maintain E (par_idle E (s4, w4)) else (s4, w4))"
proof -
  let ?pid = "provider_of_index (pw_provider_idx s)"
  obtain r1 s1 w1 where 1: "par_take_job E ?pid (s, w) = (r1, s1, w1)" by (metis prod.exhaust)
  with assms have r1: "r1 = Ok ()" by (cases r1) (auto simp: par_iteration_def)
  obtain r2 s2 w2 where 2: "par_drive E (s1, w1) = (r2, s2, w2)" by (metis prod.exhaust)
  with assms 1 r1 have r2: "r2 = Ok ()" by (cases r2) (auto simp: par_iteration_def)
  obtain r3 s3 w3 where 3: "par_reap E ?pid (s2, w2) = (r3, s3, w3)" by (metis prod.exhaust)
  with assms 1 r1 2 r2 have r3: "r3 = Ok ()" by (cases r3) (auto simp: par_iteration_def)
  obtain s4 w4 where 4: "(if (pw_tick s3 + 1) AND PERIODIC_MASK = 0
      then par_maintain E (s3\<lparr>pw_tick := pw_tick s3 + 1\<rparr>, w3)
      else (s3\<lparr>pw_tick := pw_tick s3 + 1\<rparr>, w3)) = (s4, w4)" by force
  have "(s', w') = (if is_empty (job_ring E) (pw_trigger s4) then par_maintain E (par_idle E (s4, w4)) else (s4, w4))"
    using assms 1 r1 2 r2 3 r3 4 by (simp add: par_iteration_def Let_def split: if_splits)
  from that [OF 1 [unfolded r1] 2 [unfolded r2] 3 [unfolded r3] 4 [symmetric] this] show ?thesis .
qed

lemma par_iteration_accounts:
  assumes "par_iteration E (s, w) = (Ok (), s', w')" and "http_worker s" and "http_deliveries E"
  shows "\<exists>a \<le> 1. \<exists>b \<le> 1. accounts s a b s' \<and> http_worker s'"
  using assms(1)
proof (rule par_iteration_Ok)
  fix s1 w1 s2 w2 s3 w3 s4 w4
  assume 1: "par_take_job E (provider_of_index (pw_provider_idx s)) (s, w) = (Ok (), s1, w1)"
    and 2: "par_drive E (s1, w1) = (Ok (), s2, w2)"
    and 3: "par_reap E (provider_of_index (pw_provider_idx s)) (s2, w2) = (Ok (), s3, w3)"
    and 4: "(s4, w4) = (if (pw_tick s3 + 1) AND PERIODIC_MASK = 0
      then par_maintain E (s3\<lparr>pw_tick := pw_tick s3 + 1\<rparr>, w3) else (s3\<lparr>pw_tick := pw_tick s3 + 1\<rparr>, w3))"
    and 5: "(s', w') = (if is_empty (job_ring E) (pw_trigger s4) then par_maintain E (par_idle E (s4, w4)) else (s4, w4))"
  obtain a where a: "a \<le> 1" "accounts s a 0 s1" "http_worker s1"
    using par_take_job_accounts [OF 1 assms(2)] by blast
  have d: "accounts s1 0 0 s2" "http_worker s2" using par_drive_accounts [OF 2 a(3)] by simp_all
  obtain b where b: "b \<le> 1" "accounts s2 0 b s3" "http_worker s3"
    using par_reap_accounts [OF 3 d(2)] by blast
  let ?s = "s3\<lparr>pw_tick := pw_tick s3 + 1\<rparr>"
  have t: "accounts s3 0 0 ?s" "http_worker ?s"
    using b(3) by (simp_all add: accounts_def pending_def http_worker_def active_conn_def)
  have m4: "accounts ?s 0 0 s4 \<and> http_worker s4"
    using par_maintain_accounts [OF assms(3) t(2), of w3 s4 w4] t(2) 4 accounts_refl
    by (cases "(pw_tick s3 + 1) AND PERIODIC_MASK = 0") simp_all
  obtain w5 where "par_idle E (s4, w4) = (s4, w5)" by (simp add: par_idle_def)
  then have m5: "accounts s4 0 0 s' \<and> http_worker s'"
    using par_maintain_accounts [OF assms(3), of s4 w5 s' w'] m4 5 accounts_refl
    by (cases "is_empty (job_ring E) (pw_trigger s4)") simp_all
  have "accounts s a b s'"
    using a(2) d(1) b(2) t(1) m4 m5 by (simp add: accounts_def)
  with a(1) b(1) m5 show ?thesis by blast
qed


section \<open>Executions\<close>

text \<open>
  \<open>par_exec E x a b y\<close>: from \<open>x\<close> the worker can get to \<open>y\<close> by iterations of its loop, between which
  other threads may fill the trigger ring, empty the result ring and change the world at will;
  on the way \<open>a\<close> sends succeeded and \<open>b\<close> responses were put on the result ring.
\<close>

inductive par_exec ::
  "('h, 'q, 'jq, 'rq, 'w) worker_env \<Rightarrow> ('h, 'q, 'jq, 'rq) par_worker \<times> 'w \<Rightarrow> nat \<Rightarrow> nat
     \<Rightarrow> ('h, 'q, 'jq, 'rq) par_worker \<times> 'w \<Rightarrow> bool" for E x where
  start: "par_exec E x 0 0 x"
| iterate: "par_exec E x a b (s, w) \<Longrightarrow> par_iteration E (s, w) = (Ok (), s', w') \<Longrightarrow>
    par_exec E x (a + unat (pw_jobs_sent s' - pw_jobs_sent s))
      (b + unat (counter (pw_result_tx s') - counter (pw_result_tx s))) (s', w')"
| others: "par_exec E x a b (s, w) \<Longrightarrow>
    par_exec E x a b (s\<lparr>pw_trigger := t, pw_result_tx := (pw_result_tx s)\<lparr>inner := q\<rparr>\<rparr>, w')"

lemma unat_of_nat_01: "a \<le> 1 \<Longrightarrow> unat (of_nat a :: 64 word) = a"
  by (cases "a = 0"; cases "a = 1") auto

lemma par_exec_accounts:
  assumes "par_exec E (s0, w0) a b y" and "http_deliveries E" and "http_worker s0"
  shows "http_worker (fst y) \<and> b + pending (fst y) \<le> a + pending s0"
  using assms(1)
proof (induction rule: par_exec.induct)
  case start
  show ?case using assms(3) by simp
next
  case (iterate a b s w s' w')
  then have IH: "http_worker s" "b + pending s \<le> a + pending s0" by simp_all
  from par_iteration_accounts [OF iterate.hyps(2) IH(1) assms(2)] obtain c d where
    cd: "c \<le> 1" "d \<le> 1" "accounts s c d s'" "http_worker s'" by blast
  then have "unat (pw_jobs_sent s' - pw_jobs_sent s) = c"
    "unat (counter (pw_result_tx s') - counter (pw_result_tx s)) = d"
    using unat_of_nat_01 by (simp_all add: accounts_def)
  with cd IH show ?case by (simp add: accounts_def)
next
  case (others a b s w t q w')
  then show ?case by (simp add: http_worker_def active_conn_def pending_def)
qed

section \<open>Properties\<close>

text \<open>
  Scripted connections: each send and each poll takes its result from a list, and succeeds or
  finds nothing when the list has run out.
\<close>

type_synonym script = "(unit, transport_error) res list \<times> (bytes option, transport_error) res list"

definition script_conn :: "(script, unit, 'w) conn_ops" where
  "script_conn = \<lparr>
     h_send_tx = (\<lambda>_ (ss, ps) w. case ss of [] \<Rightarrow> (Ok (), ([], ps), w) | r # rs \<Rightarrow> (r, (rs, ps), w)),
     h_poll_response = (\<lambda>(ss, ps) w. case ps of [] \<Rightarrow> (Ok None, (ss, []), w) | r # rs \<Rightarrow> (r, (ss, rs), w)),
     h_drive = (\<lambda>h w. (Ok (), h, w)),
     q_send_tx = (\<lambda>_ _ _ q w. (Ok (), q, w)), q_poll_noresp_window = (\<lambda>q w. (None, q, w)),
     q_drive = (\<lambda>q w. (Ok (), q, w)), q_is_dead = (\<lambda>_. False)\<rparr>"

type_synonym script_world = "(script, unit) xworld"

definition script_env ::
  "(script, unit, nat \<times> job list, nat \<times> raw_resp list, script_world) worker_env" where
  "script_env = \<lparr>job_ring = list_ring, result_ring = list_ring, cops = script_conn, xchan = list_xchan,
     hw = null_hw, stop_load = xw_stop, fill = (\<lambda>_ _ sc w. (3, sc, w)), diag_write = (\<lambda>_ _ w. w),
     trigger_addr = 0\<rparr>"

definition quiet_world :: script_world where
  "quiet_world = \<lparr>xw_reqs = [], xw_resps = (\<lambda>_. []), xw_stop = False\<rparr>"

definition script_worker :: "script \<Rightarrow> script \<Rightarrow> job list
    \<Rightarrow> (script, unit, nat \<times> job list, nat \<times> raw_resp list) par_worker" where
  "script_worker a b js = par_new 0 \<lparr>inner = (256, js), counter = of_nat (length js)\<rparr> (channel list_ring 256)
     (dual_new (Http_Conn a) (Http_Conn b)) 0 RawLibcKind 0"

lemmas script_defs = script_env_def script_conn_def script_worker_def par_new_def quiet_world_def
  list_ring_def list_xchan_def channel_def notifier_new_def dual_new_def

lemma script_http: "http_worker (script_worker a b js)"
  by (simp add: http_worker_def script_defs active_conn_def)

text \<open>
  A provider never gets more outcomes than jobs that were sent to it: in every execution of a
  worker with HTTP connections, whatever the other threads do, the responses put on the result
  ring plus the job still in flight are at most the successful sends (plus the job that was in
  flight at the start).
\<close>

theorem outcomes_bounded_by_sends:
  assumes "http_deliveries E" and "http_worker s0" and "par_exec E (s0, w0) a b (s, w)"
  shows "b + pending s \<le> a + pending s0"
  using par_exec_accounts [OF assms(3,1,2)] by simp


definition job1 :: job where
  "job1 = \<lparr>job_id = 1, job_ctx = 0\<rparr>"

definition job2 :: job where
  "job2 = \<lparr>job_id = 2, job_ctx = 0\<rparr>"

lemma script_deliveries:
  "http_deliveries (script_env\<lparr>xchan := list_xchan\<lparr>resp_try_recv := (\<lambda>_ w. (None, w))\<rparr>\<rparr>)"
  by (simp add: http_deliveries_def)

theorem outcomes_bounded_by_sends_witness:
  "\<exists>s w. par_exec (script_env\<lparr>xchan := list_xchan\<lparr>resp_try_recv := (\<lambda>_ w. (None, w))\<rparr>\<rparr>)
      (script_worker ([], [Ok (Some ''a'')]) ([], []) [job1], quiet_world) 1 1 (s, w)
    \<and> 1 + pending s \<le> 1 + pending (script_worker ([], [Ok (Some ''a'')]) ([], []) [job1])"
proof -
  let ?E = "script_env\<lparr>xchan := list_xchan\<lparr>resp_try_recv := (\<lambda>_ w. (None, w))\<rparr>\<rparr>"
  let ?s = "script_worker ([], [Ok (Some ''a'')]) ([], []) [job1]"
  obtain s' w' where it: "par_iteration ?E (?s, quiet_world) = (Ok (), s', w')"
    and d: "pw_jobs_sent s' - pw_jobs_sent ?s = 1" "counter (pw_result_tx s') - counter (pw_result_tx ?s) = 1"
    
    by (simp add: worker_defs script_defs)
  from par_exec.iterate [OF par_exec.start it] d have "par_exec ?E (?s, quiet_world) 1 1 (s', w')"
    by simp
  with outcomes_bounded_by_sends [OF script_deliveries script_http this] show ?thesis by blast
qed

text \<open>
  C21. A send that fails because the connection is gone is retried exactly once, on the standby:
  the pair is swapped, a reconnect is requested, and the job is in flight and counted exactly if
  the retry succeeded. An older job that was in flight is forgotten.
\<close>

theorem failover_on_send:
  assumes "len \<le> length (pw_scratch s)" and "tx = take len (pw_scratch s)"
    and "active_conn s = Http_Conn h" and "conn (standby (pw_dual_conn s)) = Http_Conn h2"
    and "h_send_tx (cops E) tx h w = (Err (Io e), h', w1)" and "http_conn_failed_io e"
    and "h_send_tx (cops E) tx h2 (snd (req_try_send (xchan E)
           \<lparr>rq_provider_idx = pw_provider_idx s, rq_kind = pw_conn_kind s\<rparr> w1)) = (r, h2', w2)"
    and "r \<noteq> Panic" and "r \<noteq> Hang"
  shows "\<exists>s'. par_send_to E j t len (s, w) = (Ok (), s', w2)
    \<and> active_conn s' = Http_Conn h2' \<and> conn (standby (pw_dual_conn s')) = Http_Conn h'
    \<and> pw_inflight s' = (if is_ok r then Some (j, t) else None)
    \<and> pw_jobs_sent s' = (if is_ok r then pw_jobs_sent s + 1 else pw_jobs_sent s)"
proof -
  let ?s = "set_active_conn (Http_Conn h') s"
  obtain s2 where f: "par_do_failover E (?s, w1) = (s2, snd (req_try_send (xchan E)
      \<lparr>rq_provider_idx = pw_provider_idx s, rq_kind = pw_conn_kind s\<rparr> w1))"
    by (simp add: par_do_failover_def)
  then have s2: "active_conn s2 = Http_Conn h2" "conn (standby (pw_dual_conn s2)) = Http_Conn h'"
    "pw_inflight s2 = None" "pw_jobs_sent s2 = pw_jobs_sent s"
    using failover_sel(1,3,8,9) [of E "(?s, w1)"] assms(4) by simp_all
  let ?s' = "set_active_conn (Http_Conn h2') s2"
  have "par_send_to E j t len (s, w) = (discard r, if is_ok r then par_mark_sent j t ?s' else ?s', w2)"
    using assms(1-3,5-7) f s2(1) by (simp add: par_send_to_def Let_def)
  moreover have "discard r = (Ok () :: (unit, unit) res)" using assms(8,9) by simp
  ultimately show ?thesis
    using s2 by (cases "is_ok r") (simp_all add: par_mark_sent_def active_conn_def set_active_conn_def)
qed

theorem failover_on_send_witness:
  "\<exists>s'. par_send_to script_env job1 7 3
      (script_worker ([Err (Io (Os EPIPE))], []) ([], []) [], quiet_world)
    = (Ok (), s', quiet_world\<lparr>xw_reqs := [\<lparr>rq_provider_idx = 0, rq_kind = RawLibcKind\<rparr>]\<rparr>)
    \<and> active_conn s' = Http_Conn ([], []) \<and> conn (standby (pw_dual_conn s')) = Http_Conn ([], [])
    \<and> pw_inflight s' = Some (job1, 7) \<and> pw_jobs_sent s' = 1"
  using failover_on_send [of 3 "script_worker ([Err (Io (Os EPIPE))], []) ([], []) []" _ "([Err (Io (Os EPIPE))], [])"
      "([], [])" script_env quiet_world "Os EPIPE" "([], [])" quiet_world "Ok ()" "([], [])"
      "quiet_world\<lparr>xw_reqs := [\<lparr>rq_provider_idx = 0, rq_kind = RawLibcKind\<rparr>]\<rparr>" job1 7]
  by (simp add: script_defs active_conn_def MAX_TX_LEN_def http_conn_failed_io_def decode_error_kind_def)

text \<open>
  C31. When the peer closes or resets the connection while a job is in flight, the worker swaps to
  the standby and forgets the job: no outcome is put on the result ring, neither a failover nor
  any other one.
\<close>

theorem failover_on_poll_loses_job:
  assumes "active_conn s = Http_Conn h" and "h_poll_response (cops E) h w = (Err (Io e), h', w1)"
    and "http_conn_failed_io e"
  shows "\<exists>s' w'. par_reap E pid (s, w) = (Ok (), s', w')
    \<and> pw_inflight s' = None \<and> pw_result_tx s' = pw_result_tx s
    \<and> active_conn s' = conn (standby (pw_dual_conn s)) \<and> conn (standby (pw_dual_conn s')) = Http_Conn h'"
proof -
  let ?s = "set_active_conn (Http_Conn h') s"
  have "par_poll E pid (s, w) = (Ok True, ?s, w1)"
    using assms by (simp add: par_poll_def Let_def)
  then have "par_reap E pid (s, w) = (Ok (), par_do_failover E (?s, w1))"
    by (simp add: par_reap_def)
  moreover obtain s' w' where f: "par_do_failover E (?s, w1) = (s', w')" by force
  ultimately show ?thesis
    using failover_sel(2,3,8,9) [of E "(?s, w1)"] by simp
qed

theorem failover_on_poll_loses_job_witness:
  "\<exists>s' w'. par_reap script_env 0 ((script_worker ([], [Err (Io (Simple UnexpectedEof))]) ([], []) [])
        \<lparr>pw_inflight := Some (job1, 7)\<rparr>, quiet_world) = (Ok (), s', w')
    \<and> pw_inflight s' = None \<and> pw_result_tx s' = channel list_ring 256
    \<and> active_conn s' = Http_Conn ([], []) \<and> conn (standby (pw_dual_conn s')) = Http_Conn ([], [])"
  using failover_on_poll_loses_job [of "(script_worker ([], [Err (Io (Simple UnexpectedEof))]) ([], []) [])
        \<lparr>pw_inflight := Some (job1, 7)\<rparr>" "([], [Err (Io (Simple UnexpectedEof))])" script_env quiet_world
        "Simple UnexpectedEof" "([], [])" quiet_world 0]
  by (simp add: script_defs active_conn_def http_conn_failed_io_def)

text \<open>
  C32. There is one slot for the job in flight and no pipelining discipline: if a second job is
  sent before the response to the first has been reaped, the first response that arrives is
  reported as the outcome of the second job, and nothing of the first job is left.
\<close>

theorem second_send_takes_response:
  assumes "pw_inflight s = Some (j1, t1)"
    and "active_conn s = Http_Conn h" and "len \<le> length (pw_scratch s)"
    and "h_send_tx (cops E) (take len (pw_scratch s)) h w = (Ok (), h1, w1)"
    and "h_poll_response (cops E) h1 w1 = (Ok (Some body), h2, w2)"
    and "rdtsc (hw E) w2 = (now, w3)"
    and "rtrb_ring (result_ring E) ring_items ring_cap"
    and "length (ring_items (inner (pw_result_tx s))) < ring_cap (inner (pw_result_tx s))"
  shows "\<exists>s'. bind_st (par_send_to E j2 t2 len (s, w)) (\<lambda>_ x. par_reap E pid x) = (Ok (), s', w3)
    \<and> ring_items (inner (pw_result_tx s')) = ring_items (inner (pw_result_tx s)) @
        [settled_resp (job_id j2) pid t2 now body]
    \<and> pw_inflight s' = None"
proof -
  let ?s = "par_mark_sent j2 t2 (set_active_conn (Http_Conn h1) s)"
  have send: "par_send_to E j2 t2 len (s, w) = (Ok (), ?s, w1)"
    using assms(2-4) by (simp add: par_send_to_def Let_def)
  have act: "active_conn ?s = Http_Conn h1"
    by (simp add: par_mark_sent_def active_conn_def set_active_conn_def)
  let ?s2 = "(set_active_conn (Http_Conn h2) ?s)\<lparr>pw_inflight := None\<rparr>"
  let ?resp = "settled_resp (job_id j2) pid t2 now body"
  have "par_reap E pid (?s, w1) = (Ok (), par_push_result E ?resp ?s2, w3)"
    using act assms(5,6) by (simp add: par_reap_def par_poll_def Let_def) (simp add: par_mark_sent_def)
  moreover obtain c where "try_push (result_ring E) ?resp (pw_result_tx s) = (Ok (), c)"
    "ring_items (inner c) = ring_items (inner (pw_result_tx s)) @ [?resp]"
    using rtrb_ring.try_push_room [OF assms(7,8), of ?resp] by blast
  ultimately show ?thesis
    using send by (simp add: par_push_result_def par_mark_sent_def set_active_conn_def)
qed

theorem second_send_takes_response_witness:
  "\<exists>s'. bind_st (par_send_to script_env job2 9 3
        ((script_worker ([], [Ok (Some ''first'')]) ([], []) [])\<lparr>pw_inflight := Some (job1, 7)\<rparr>, quiet_world))
      (\<lambda>_ x. par_reap script_env 0 x) = (Ok (), s', quiet_world)
    \<and> snd (inner (pw_result_tx s')) = [settled_resp 2 0 9 0 ''first''] \<and> pw_inflight s' = None"
  using second_send_takes_response [of "(script_worker ([], [Ok (Some ''first'')]) ([], []) [])
        \<lparr>pw_inflight := Some (job1, 7)\<rparr>" job1 7 "([], [Ok (Some ''first'')])" 3 script_env quiet_world
        "([], [Ok (Some ''first'')])" quiet_world "''first''" "([], [])" quiet_world 0 quiet_world snd fst
        job2 9 0] lr.rtrb_ring_axioms
  by (simp add: script_defs active_conn_def rdtsc_def MAX_TX_LEN_def job2_def)

text \<open>
  \<open>calm E\<close>: no call on a connection panics or blocks for ever, and the transaction source keeps to
  its signature: it leaves the array's length alone and returns a length inside it.
\<close>

definition calm :: "('h, 'q, 'jq, 'rq, 'w) worker_env \<Rightarrow> bool" where
  "calm E \<longleftrightarrow>
     (\<forall>tx h w. fst (h_send_tx (cops E) tx h w) \<noteq> Panic \<and> fst (h_send_tx (cops E) tx h w) \<noteq> Hang) \<and>
     (\<forall>h w. fst (h_poll_response (cops E) h w) \<noteq> Panic \<and> fst (h_poll_response (cops E) h w) \<noteq> Hang) \<and>
     (\<forall>h w. fst (h_drive (cops E) h w) \<noteq> Panic \<and> fst (h_drive (cops E) h w) \<noteq> Hang) \<and>
     (\<forall>j t tx q w. fst (q_send_tx (cops E) j t tx q w) \<noteq> Panic \<and> fst (q_send_tx (cops E) j t tx q w) \<noteq> Hang) \<and>
     (\<forall>q w. fst (q_drive (cops E) q w) \<noteq> Panic \<and> fst (q_drive (cops E) q w) \<noteq> Hang) \<and>
     (\<forall>p j sc w. length sc = MAX_TX_LEN \<longrightarrow>
        length (fst (snd (fill E p j sc w))) = MAX_TX_LEN \<and> unat (fst (fill E p j sc w)) \<le> MAX_TX_LEN)"

lemma par_send_to_returns:
  assumes "calm E" and "len \<le> length (pw_scratch s)"
  shows "\<exists>s' w'. par_send_to E j t len (s, w) = (Ok (), s', w') \<and> pw_scratch s' = pw_scratch s"
proof (cases "active_conn s")
  case (Quic_Conn q)
  obtain r q' w' where q: "q_send_tx (cops E) j t (take len (pw_scratch s)) q w = (r, q', w')" by (metis prod.exhaust)
  then have "r \<noteq> Panic" "r \<noteq> Hang" using assms(1) unfolding calm_def by (metis fst_conv)+
  with Quic_Conn q assms(2) show ?thesis by (cases r) (simp_all add: par_send_to_def)
next
  case (Http_Conn h)
  let ?tx = "take len (pw_scratch s)"
  obtain r h' w1 where snd1: "h_send_tx (cops E) ?tx h w = (r, h', w1)" by (metis prod.exhaust)
  then have r: "r \<noteq> Panic" "r \<noteq> Hang" using assms(1) unfolding calm_def by (metis fst_conv)+
  show ?thesis
  proof (cases "\<exists>e. r = Err (Io e) \<and> http_conn_failed_io e")
    case True
    then obtain e where e: "r = Err (Io e)" "http_conn_failed_io e" by blast
    let ?s = "set_active_conn (Http_Conn h') s"
    obtain s2 w2 where f: "par_do_failover E (?s, w1) = (s2, w2)" by force
    then have sc: "pw_scratch s2 = pw_scratch s" using failover_sel(4) [of E "(?s, w1)"] by simp
    show ?thesis
    proof (cases "active_conn s2")
      case (Http_Conn k)
      obtain r2 k' w3 where snd2: "h_send_tx (cops E) ?tx k w2 = (r2, k', w3)" by (metis prod.exhaust)
      then have "r2 \<noteq> Panic" "r2 \<noteq> Hang" using assms(1) unfolding calm_def by (metis fst_conv)+
      then have "discard r2 = (Ok () :: (unit, unit) res)" by simp
      with Http_Conn snd1 snd2 e f \<open>active_conn s = _\<close> assms(2) sc show ?thesis
        by (simp add: par_send_to_def Let_def par_mark_sent_def)
    qed (use snd1 e f \<open>active_conn s = _\<close> assms(2) sc in \<open>simp add: par_send_to_def Let_def\<close>)
  next
    case False
    then show ?thesis
      using Http_Conn snd1 r assms(2)
      by (cases r) (auto simp: par_send_to_def Let_def par_mark_sent_def split: transport_error.splits)
  qed
qed

lemma par_poll_returns:
  assumes "calm E"
  shows "\<exists>f s' w'. par_poll E pid (s, w) = (Ok f, s', w') \<and> pw_scratch s' = pw_scratch s"
proof (cases "active_conn s")
  case (Quic_Conn q)
  obtain p q' w1 where "q_poll_noresp_window (cops E) q w = (p, q', w1)" by (metis prod.exhaust)
  moreover obtain now w2 where "rdtsc (hw E) w1 = (now, w2)" by force
  ultimately show ?thesis
    using Quic_Conn by (cases p) (auto simp: par_poll_def Let_def par_push_result_def)
next
  case (Http_Conn h)
  obtain r h' w1 where poll: "h_poll_response (cops E) h w = (r, h', w1)" by (metis prod.exhaust)
  then have r: "r \<noteq> Panic" "r \<noteq> Hang" using assms(1) unfolding calm_def by (metis fst_conv)+
  obtain now w2 where t: "rdtsc (hw E) w1 = (now, w2)" by force
  show ?thesis
  proof (cases r)
    case (Ok b)
    with Http_Conn poll t show ?thesis
      by (cases b; cases "pw_inflight s") (auto simp: par_poll_def Let_def par_push_result_def)
  next
    case (Err e)
    with Http_Conn poll show ?thesis by (cases e) (auto simp: par_poll_def Let_def)
  qed (use r in simp_all)
qed

lemma par_take_job_returns:
  assumes "calm E" and "length (pw_scratch s) = MAX_TX_LEN"
  shows "\<exists>s' w'. par_take_job E pid (s, w) = (Ok (), s', w') \<and> length (pw_scratch s') = MAX_TX_LEN"
proof -
  obtain jo t where pop: "try_pop (job_ring E) (pw_trigger s) = (jo, t)" by force
  show ?thesis
  proof (cases jo)
    case None
    with pop assms(2) show ?thesis by (simp add: par_take_job_def)
  next
    case (Some j)
    obtain t1 w1 where t1: "rdtsc (hw E) w = (t1, w1)" by force
    obtain len sc w2 where f: "fill E pid j (pw_scratch s) w1 = (len, sc, w2)" by (metis prod.exhaust)
    then have sc: "length sc = MAX_TX_LEN" "unat len \<le> MAX_TX_LEN"
      using assms unfolding calm_def by (metis fst_conv snd_conv)+
    let ?s = "s\<lparr>pw_trigger := t, pw_scratch := sc\<rparr>"
    have "unat len \<le> length (pw_scratch ?s)" using sc by simp
    from par_send_to_returns [OF assms(1) this, of j t1 w2] obtain s' w' where
      "par_send_to E j t1 (unat len) (?s, w2) = (Ok (), s', w')" "pw_scratch s' = sc" by auto
    with pop Some t1 f sc assms(2) show ?thesis by (simp add: par_take_job_def)
  qed
qed

lemma par_maintain_scratch: "pw_scratch (fst (par_maintain E (s, w))) = pw_scratch s"
proof -
  obtain po w1 where "resp_try_recv (xchan E) (pw_reconnect_resp_rx s) w = (po, w1)" by force
  then show ?thesis
    by (cases po; cases "rp_conn (the po)")
       (simp_all add: par_maintain_def check_standby_delivery_def par_publish_diag_def)
qed

lemma par_drive_returns:
  assumes "calm E"
  shows "\<exists>s' w'. par_drive E (s, w) = (Ok (), s', w') \<and> pw_scratch s' = pw_scratch s"
proof (cases "active_conn s")
  case (Http_Conn h)
  obtain r h' w' where d: "h_drive (cops E) h w = (r, h', w')" by (metis prod.exhaust)
  then have "r \<noteq> Panic" "r \<noteq> Hang" using assms unfolding calm_def by (metis fst_conv)+
  with Http_Conn d show ?thesis by (cases r) (simp_all add: par_drive_def conn_drive_def)
next
  case (Quic_Conn q)
  obtain r q' w' where d: "q_drive (cops E) q w = (r, q', w')" by (metis prod.exhaust)
  then have "r \<noteq> Panic" "r \<noteq> Hang" using assms unfolding calm_def by (metis fst_conv)+
  with Quic_Conn d show ?thesis by (cases r) (simp_all add: par_drive_def conn_drive_def)
qed


definition steady_env ::
  "(script, unit, nat \<times> job list, nat \<times> raw_resp list, script_world) worker_env" where
  "steady_env = script_env\<lparr>cops := script_conn\<lparr>h_send_tx := (\<lambda>_ h w. (Ok (), h, w)),
     h_poll_response := (\<lambda>h w. (Ok None, h, w))\<rparr>\<rparr>"

lemma calm_steady: "calm steady_env"
  by (simp add: calm_def steady_env_def script_env_def script_conn_def MAX_TX_LEN_def)


text \<open>
  C33. The length the source returns is a 16-bit number that nothing checks: if it exceeds the
  1232 bytes of the array, the iteration panics and the worker thread is gone.
\<close>

theorem oversized_fill_panics:
  assumes "try_pop (job_ring E) (pw_trigger s) = (Some j, t)" and "rdtsc (hw E) w = (tsc, w1)"
    and "fill E (provider_of_index (pw_provider_idx s)) j (pw_scratch s) w1 = (len, sc, w2)"
    and "length sc < unat len"
  shows "fst (par_iteration E (s, w)) = Panic"
  using assms by (simp add: par_iteration_def par_take_job_def par_send_to_def slice_of_def Let_def)

theorem oversized_fill_panics_witness:
  "fst (par_iteration (script_env\<lparr>fill := (\<lambda>_ _ sc w. (1233, sc, w))\<rparr>)
     (script_worker ([], []) ([], []) [job1], quiet_world)) = Panic"
  by (rule oversized_fill_panics [where len = 1233 and sc = "replicate MAX_TX_LEN (CHR 0x00)" and j = job1
        and ?w2.0 = quiet_world and tsc = 0 and t = "\<lparr>inner = (256, []), counter = 1\<rparr>"
        and ?w1.0 = quiet_world])
     (simp_all add: script_defs try_pop_def rdtsc_def MAX_TX_LEN_def)

text \<open>
  A worker that never finds its queue empty does its maintenance (taking new standby
  connections, publishing diagnostics) in every 1024th iteration, across the wrap-around of the
  32-bit tick too.
\<close>

theorem maintenance_period:
  "(pw_tick s + 1) AND PERIODIC_MASK = 0 \<longleftrightarrow> unat (pw_tick s) mod 1024 = 1023"
proof -
  have "(0x3FF :: 32 word) = mask 10" by (simp add: mask_eq_exp_minus_1)
  then have m: "(pw_tick s + 1) AND PERIODIC_MASK = take_bit 10 (pw_tick s + 1)"
    by (simp add: PERIODIC_MASK_def take_bit_eq_mask)
  have u: "unat (take_bit 10 (pw_tick s + 1)) = unat (pw_tick s + 1) mod 1024"
    by (subst unsigned_take_bit_eq) (simp add: take_bit_eq_mod)
  have "unat (pw_tick s + 1) mod 1024 = (unat (pw_tick s) + 1) mod 1024"
    by (simp add: unat_word_ariths mod_mod_cancel)
  moreover have "take_bit 10 (pw_tick s + 1) = 0 \<longleftrightarrow> unat (take_bit 10 (pw_tick s + 1)) = 0"
    by (simp only: unat_eq_zero)
  ultimately have "take_bit 10 (pw_tick s + 1) = 0 \<longleftrightarrow> (unat (pw_tick s) + 1) mod 1024 = 0"
    by (simp only: u)
  also have "\<dots> \<longleftrightarrow> unat (pw_tick s) mod 1024 = 1023" by (auto simp: mod_Suc)
  finally show ?thesis unfolding m .
qed

end
