(* ===== verification/Worker_Seq.thy ===== *)
theory Worker_Seq
  imports Worker_Props
begin

unbundle bit_operations_syntax

text \<open>
  The worker of the sequential transport, \<open>transport/sequential.rs\<close>: one thread for all
  providers, with a vector where the parallel worker has one value. Indexing a vector
  outside its range panics, as in the source. The projection of this state to one provider is
  the state of a parallel worker, and every operation on provider \<open>i\<close> is the parallel worker's
  operation on the projection.
\<close>

section \<open>State\<close>

record ('h, 'q, 'jq, 'rq) seq_worker =
  sw_trigger :: "'jq spsc"
  sw_conns :: "('h, 'q) conn_state dual_conn list"
  sw_result_tx :: "'rq spsc list"
  sw_inflight :: "(job \<times> 64 word) option list"
  sw_reconnect_resp_rx :: "nat list"
  sw_conn_kind :: conn_kind
  sw_tick :: "32 word"
  sw_diag :: "nat list"
  sw_jobs_sent :: "64 word list"
  sw_scratch :: bytes

definition seq_new ::
  "'jq spsc \<Rightarrow> ('h, 'q) conn_state dual_conn list \<Rightarrow> 'rq spsc list \<Rightarrow> nat list \<Rightarrow> conn_kind \<Rightarrow> nat list
     \<Rightarrow> ('h, 'q, 'jq, 'rq) seq_worker" where
  "seq_new trig conns res rxs k dgs =
     (let n = length conns
      in \<lparr>sw_trigger = trig, sw_conns = conns, sw_result_tx = res, sw_inflight = replicate n None,
          sw_reconnect_resp_rx = rxs, sw_conn_kind = k, sw_tick = 0, sw_diag = dgs,
          sw_jobs_sent = replicate n 0, sw_scratch = replicate MAX_TX_LEN (CHR 0x00)\<rparr>)"

section \<open>Operations\<close>

definition seq_set_conn ::
  "nat \<Rightarrow> ('h, 'q) conn_state \<Rightarrow> ('h, 'q, 'jq, 'rq) seq_worker \<Rightarrow> ('h, 'q, 'jq, 'rq) seq_worker" where
  "seq_set_conn i c s =
     s\<lparr>sw_conns := (sw_conns s)[i := (sw_conns s ! i)\<lparr>active := (active (sw_conns s ! i))\<lparr>conn := c\<rparr>\<rparr>]\<rparr>"

definition seq_do_failover ::
  "('h, 'q, 'jq, 'rq, 'w) worker_env \<Rightarrow> nat \<Rightarrow> ('h, 'q, 'jq, 'rq) seq_worker \<times> 'w
     \<Rightarrow> (unit, unit) res \<times> ('h, 'q, 'jq, 'rq) seq_worker \<times> 'w" where
  "seq_do_failover E i = (\<lambda>(s, w).
     bind_st (store (sw_inflight s) i None, s, w) (\<lambda>fl (s, w).
     let s = s\<lparr>sw_inflight := fl\<rparr>
     in bind_st (index (sw_conns s) i, s, w) (\<lambda>d (s, w).
     let s = s\<lparr>sw_conns := (sw_conns s)[i := dual_swap d]\<rparr>
     in (Ok (), s, snd (req_try_send (xchan E) \<lparr>rq_provider_idx = i, rq_kind = sw_conn_kind s\<rparr> w)))))"

definition seq_mark_sent ::
  "nat \<Rightarrow> job \<Rightarrow> 64 word \<Rightarrow> ('h, 'q, 'jq, 'rq) seq_worker \<times> 'w
     \<Rightarrow> (unit, unit) res \<times> ('h, 'q, 'jq, 'rq) seq_worker \<times> 'w" where
  "seq_mark_sent i j sent = (\<lambda>(s, w).
     bind_st (store (sw_inflight s) i (Some (j, sent)), s, w) (\<lambda>fl (s, w).
     let s = s\<lparr>sw_inflight := fl\<rparr>
     in bind_st (index (sw_jobs_sent s) i, s, w) (\<lambda>n (s, w).
        (Ok (), s\<lparr>sw_jobs_sent := (sw_jobs_sent s)[i := n + 1]\<rparr>, w))))"

definition seq_send_to ::
  "('h, 'q, 'jq, 'rq, 'w) worker_env \<Rightarrow> nat \<Rightarrow> job \<Rightarrow> 64 word \<Rightarrow> nat \<Rightarrow> ('h, 'q, 'jq, 'rq) seq_worker \<times> 'w
     \<Rightarrow> (unit, unit) res \<times> ('h, 'q, 'jq, 'rq) seq_worker \<times> 'w" where
  "seq_send_to E i j sent len = (\<lambda>(s, w).
     bind_st (slice_of (sw_scratch s) 0 len, s, w) (\<lambda>tx (s, w).
     bind_st (index (sw_conns s) i, s, w) (\<lambda>d (s, w).
     case conn (active d) of
       Http_Conn h \<Rightarrow>
         (case h_send_tx (cops E) tx h w of (r, h, w) \<Rightarrow>
          let s = seq_set_conn i (Http_Conn h) s
          in case r of
               Ok _ \<Rightarrow> seq_mark_sent i j sent (s, w)
             | Err (Io e) \<Rightarrow>
                 (if http_conn_failed_io e then
                    bind_st (seq_do_failover E i (s, w)) (\<lambda>_ (s, w).
                    bind_st (index (sw_conns s) i, s, w) (\<lambda>d (s, w).
                    case conn (active d) of
                      Http_Conn h2 \<Rightarrow>
                        (case h_send_tx (cops E) tx h2 w of (r2, h2, w) \<Rightarrow>
                         let s = seq_set_conn i (Http_Conn h2) s
                         in if is_ok r2 then seq_mark_sent i j sent (s, w) else (discard r2, s, w))
                    | Quic_Conn _ \<Rightarrow> (Ok (), s, w)))
                  else (Ok (), s, w))
             | Err _ \<Rightarrow> (Ok (), s, w)
             | Panic \<Rightarrow> (Panic, s, w)
             | Hang \<Rightarrow> (Hang, s, w))
     | Quic_Conn q \<Rightarrow>
         (case q_send_tx (cops E) j sent tx q w of (r, q, w) \<Rightarrow>
          bind_st (discard r, seq_set_conn i (Quic_Conn q) s, w) (\<lambda>_ (s, w).
          bind_st (index (sw_jobs_sent s) i, s, w) (\<lambda>n (s, w).
            (Ok (), s\<lparr>sw_jobs_sent := (sw_jobs_sent s)[i := n + 1]\<rparr>, w)))))))"

definition seq_push_result ::
  "('h, 'q, 'jq, 'rq, 'w) worker_env \<Rightarrow> nat \<Rightarrow> raw_resp \<Rightarrow> ('h, 'q, 'jq, 'rq) seq_worker \<times> 'w
     \<Rightarrow> (bool, unit) res \<times> ('h, 'q, 'jq, 'rq) seq_worker \<times> 'w" where
  "seq_push_result E i resp = (\<lambda>(s, w).
     bind_st (index (sw_result_tx s) i, s, w) (\<lambda>c (s, w).
       (Ok False, s\<lparr>sw_result_tx := (sw_result_tx s)[i := snd (try_push (result_ring E) resp c)]\<rparr>, w)))"

definition seq_poll ::
  "('h, 'q, 'jq, 'rq, 'w) worker_env \<Rightarrow> nat \<Rightarrow> provider_id \<Rightarrow> ('h, 'q, 'jq, 'rq) seq_worker \<times> 'w
     \<Rightarrow> (bool, unit) res \<times> ('h, 'q, 'jq, 'rq) seq_worker \<times> 'w" where
  "seq_poll E i pid = (\<lambda>(s, w).
     bind_st (index (sw_conns s) i, s, w) (\<lambda>d (s, w).
     case conn (active d) of
       Http_Conn h \<Rightarrow>
         (case h_poll_response (cops E) h w of (r, h, w) \<Rightarrow>
          let s = seq_set_conn i (Http_Conn h) s
          in case r of
               Ok (Some body) \<Rightarrow>
                 bind_st (index (sw_inflight s) i, s, w) (\<lambda>fl (s, w).
                 case fl of
                   Some (j, sent) \<Rightarrow>
                     (let s = s\<lparr>sw_inflight := (sw_inflight s)[i := None]\<rparr>
                      in case rdtsc (hw E) w of (now, w) \<Rightarrow>
                           seq_push_result E i (settled_resp (job_id j) pid sent now body) (s, w))
                 | None \<Rightarrow> (Ok False, s, w))
             | Ok None \<Rightarrow> (Ok False, s, w)
             | Err (Io e) \<Rightarrow> (Ok (http_conn_failed_io e), s, w)
             | Err _ \<Rightarrow> (Ok False, s, w)
             | Panic \<Rightarrow> (Panic, s, w)
             | Hang \<Rightarrow> (Hang, s, w))
     | Quic_Conn q \<Rightarrow>
         (if q_is_dead (cops E) q then (Ok True, s, w)
          else case q_poll_noresp_window (cops E) q w of (p, q, w) \<Rightarrow>
               let s = seq_set_conn i (Quic_Conn q) s
               in case p of
                    Some (jid, sent) \<Rightarrow>
                      (case rdtsc (hw E) w of (now, w) \<Rightarrow>
                         seq_push_result E i (unanswered_resp jid pid sent now) (s, w))
                  | None \<Rightarrow> (Ok False, s, w))))"

definition seq_reap ::
  "('h, 'q, 'jq, 'rq, 'w) worker_env \<Rightarrow> nat \<Rightarrow> provider_id \<Rightarrow> ('h, 'q, 'jq, 'rq) seq_worker \<times> 'w
     \<Rightarrow> (unit, unit) res \<times> ('h, 'q, 'jq, 'rq) seq_worker \<times> 'w" where
  "seq_reap E i pid x =
     bind_st (seq_poll E i pid x) (\<lambda>failed x. if failed then seq_do_failover E i x else (Ok (), x))"

definition seq_drive ::
  "('h, 'q, 'jq, 'rq, 'w) worker_env \<Rightarrow> nat \<Rightarrow> ('h, 'q, 'jq, 'rq) seq_worker \<times> 'w
     \<Rightarrow> (unit, unit) res \<times> ('h, 'q, 'jq, 'rq) seq_worker \<times> 'w" where
  "seq_drive E i = (\<lambda>(s, w).
     bind_st (index (sw_conns s) i, s, w) (\<lambda>d (s, w).
     case conn_drive (cops E) (conn (active d)) w of (r, c, w) \<Rightarrow> (discard r, seq_set_conn i c s, w)))"

definition take_standby ::
  "('h, 'q, 'jq, 'rq, 'w) worker_env \<Rightarrow> nat \<Rightarrow> ('h, 'q, 'jq, 'rq) seq_worker \<times> 'w
     \<Rightarrow> (unit, unit) res \<times> ('h, 'q, 'jq, 'rq) seq_worker \<times> 'w" where
  "take_standby E i = (\<lambda>(s, w).
     bind_st (index (sw_reconnect_resp_rx s) i, s, w) (\<lambda>rx (s, w).
     case resp_try_recv (xchan E) rx w of
       (Some resp, w) \<Rightarrow>
         (case rp_conn resp of
            Conn_Box c \<Rightarrow>
              bind_st (index (sw_conns s) (rp_provider_idx resp), s, w) (\<lambda>d (s, w).
                (Ok (), s\<lparr>sw_conns := (sw_conns s)[rp_provider_idx resp := replace_standby c d]\<rparr>, w))
          | Other_Box \<Rightarrow> (Ok (), s, w))
     | (None, w) \<Rightarrow> (Ok (), s, w)))"

definition check_standby_deliveries ::
  "('h, 'q, 'jq, 'rq, 'w) worker_env \<Rightarrow> ('h, 'q, 'jq, 'rq) seq_worker \<times> 'w
     \<Rightarrow> (unit, unit) res \<times> ('h, 'q, 'jq, 'rq) seq_worker \<times> 'w" where
  "check_standby_deliveries E x =
     for_each [0..<length (sw_reconnect_resp_rx (fst x))] (take_standby E) x"

definition seq_publish_diag ::
  "('h, 'q, 'jq, 'rq, 'w) worker_env \<Rightarrow> ('h, 'q, 'jq, 'rq) seq_worker \<times> 'w
     \<Rightarrow> (unit, unit) res \<times> ('h, 'q, 'jq, 'rq) seq_worker \<times> 'w" where
  "seq_publish_diag E x =
     for_each [0..<length (sw_diag (fst x))] (\<lambda>i (s, w).
       bind_st (index (sw_diag s) i, s, w) (\<lambda>cell (s, w).
       bind_st (index (sw_jobs_sent s) i, s, w) (\<lambda>n (s, w).
         (Ok (), s, diag_write E cell
            \<lparr>wd_alive = True, wd_jobs_sent = n, wd_fill_ns = hist_default, wd_submit_ns = hist_default\<rparr> w)))) x"

section \<open>The loop\<close>

definition seq_fill_send ::
  "('h, 'q, 'jq, 'rq, 'w) worker_env \<Rightarrow> job \<Rightarrow> 64 word \<Rightarrow> nat \<Rightarrow> ('h, 'q, 'jq, 'rq) seq_worker \<times> 'w
     \<Rightarrow> (unit, unit) res \<times> ('h, 'q, 'jq, 'rq) seq_worker \<times> 'w" where
  "seq_fill_send E j sent i = (\<lambda>(s, w).
     case fill E (provider_of_index i) j (sw_scratch s) w of (len, scratch, w) \<Rightarrow>
       seq_send_to E i j sent (unat len) (s\<lparr>sw_scratch := scratch\<rparr>, w))"

definition seq_take_job ::
  "('h, 'q, 'jq, 'rq, 'w) worker_env \<Rightarrow> ('h, 'q, 'jq, 'rq) seq_worker \<times> 'w
     \<Rightarrow> (unit, unit) res \<times> ('h, 'q, 'jq, 'rq) seq_worker \<times> 'w" where
  "seq_take_job E = (\<lambda>(s, w).
     case try_pop (job_ring E) (sw_trigger s) of
       (Some j, t) \<Rightarrow>
         (case rdtsc (hw E) w of (sent, w) \<Rightarrow>
          let s = s\<lparr>sw_trigger := t\<rparr>
          in bind_st (for_each [0..<length (sw_conns s)] (seq_fill_send E j sent) (s, w)) (\<lambda>_ (s, w).
             for_each [0..<length (sw_conns s)] (seq_drive E) (s, w)))
     | (None, t) \<Rightarrow> (Ok (), s\<lparr>sw_trigger := t\<rparr>, w))"

definition seq_service ::
  "('h, 'q, 'jq, 'rq, 'w) worker_env \<Rightarrow> nat \<Rightarrow> ('h, 'q, 'jq, 'rq) seq_worker \<times> 'w
     \<Rightarrow> (unit, unit) res \<times> ('h, 'q, 'jq, 'rq) seq_worker \<times> 'w" where
  "seq_service E i x =
     bind_st (seq_drive E i x) (\<lambda>_ x. seq_reap E i (provider_of_index i) x)"

definition seq_maintain ::
  "('h, 'q, 'jq, 'rq, 'w) worker_env \<Rightarrow> ('h, 'q, 'jq, 'rq) seq_worker \<times> 'w
     \<Rightarrow> (unit, unit) res \<times> ('h, 'q, 'jq, 'rq) seq_worker \<times> 'w" where
  "seq_maintain E x = bind_st (check_standby_deliveries E x) (\<lambda>_ x. seq_publish_diag E x)"

definition seq_idle ::
  "('h, 'q, 'jq, 'rq, 'w) worker_env \<Rightarrow> ('h, 'q, 'jq, 'rq) seq_worker \<times> 'w
     \<Rightarrow> ('h, 'q, 'jq, 'rq) seq_worker \<times> 'w" where
  "seq_idle E = (\<lambda>(s, w).
     (s, idle_wait (hw E) (trigger_addr E)
           (\<lambda>w. is_empty (job_ring E) (sw_trigger s) \<and> \<not> stop_load E w) w))"

definition seq_iteration ::
  "('h, 'q, 'jq, 'rq, 'w) worker_env \<Rightarrow> ('h, 'q, 'jq, 'rq) seq_worker \<times> 'w
     \<Rightarrow> (unit, unit) res \<times> ('h, 'q, 'jq, 'rq) seq_worker \<times> 'w" where
  "seq_iteration E x =
     bind_st (seq_take_job E x) (\<lambda>_ x.
     bind_st (for_each [0..<length (sw_conns (fst x))] (seq_service E) x) (\<lambda>_ (s, w).
     let s = s\<lparr>sw_tick := sw_tick s + 1\<rparr>
     in bind_st (if sw_tick s AND PERIODIC_MASK = 0 then seq_maintain E (s, w) else (Ok (), s, w)) (\<lambda>_ x.
        if is_empty (job_ring E) (sw_trigger (fst x)) then seq_maintain E (seq_idle E x) else (Ok (), x))))"

partial_function (option) seq_run ::
  "('h, 'q, 'jq, 'rq, 'w) worker_env \<Rightarrow> ('h, 'q, 'jq, 'rq) seq_worker \<times> 'w
     \<Rightarrow> ((unit, unit) res \<times> ('h, 'q, 'jq, 'rq) seq_worker \<times> 'w) option" where
  "seq_run E x =
     (if stop_load E (snd x) then Some (Ok (), x)
      else case seq_iteration E x of (r, x') \<Rightarrow>
        (case r of
           Ok _ \<Rightarrow> seq_run E x'
         | Err e \<Rightarrow> Some (Err e, x')
         | Panic \<Rightarrow> Some (Panic, x')
         | Hang \<Rightarrow> Some (Hang, x')))"

end
