(* ===== verification/Worker_Refine.thy ===== *)
theory Worker_Refine
  imports Worker_Seq
begin

unbundle bit_operations_syntax

text \<open>
  How the two workers are related: an operation of the sequential worker on provider \<open>i\<close> is the
  parallel worker's operation on the projection of its state to \<open>i\<close>, and with one provider the
  two loops are the same program.
\<close>

section \<open>Projection to one provider\<close>

definition seq_wf :: "('h, 'q, 'jq, 'rq) seq_worker \<Rightarrow> bool" where
  "seq_wf s \<longleftrightarrow> length (sw_inflight s) = length (sw_conns s) \<and> length (sw_jobs_sent s) = length (sw_conns s)
     \<and> length (sw_result_tx s) = length (sw_conns s) \<and> length (sw_reconnect_resp_rx s) = length (sw_conns s)
     \<and> length (sw_diag s) = length (sw_conns s)"

definition proj :: "nat \<Rightarrow> ('h, 'q, 'jq, 'rq) seq_worker \<Rightarrow> ('h, 'q, 'jq, 'rq) par_worker" where
  "proj i s = \<lparr>pw_provider_idx = i, pw_trigger = sw_trigger s, pw_result_tx = sw_result_tx s ! i,
     pw_dual_conn = sw_conns s ! i, pw_inflight = sw_inflight s ! i,
     pw_reconnect_resp_rx = sw_reconnect_resp_rx s ! i, pw_conn_kind = sw_conn_kind s,
     pw_tick = sw_tick s, pw_diag = sw_diag s ! i, pw_jobs_sent = sw_jobs_sent s ! i,
     pw_scratch = sw_scratch s\<rparr>"

definition put_at :: "nat \<Rightarrow> ('h, 'q, 'jq, 'rq) seq_worker \<Rightarrow> ('h, 'q, 'jq, 'rq) par_worker
    \<Rightarrow> ('h, 'q, 'jq, 'rq) seq_worker" where
  "put_at i s p = s\<lparr>sw_trigger := pw_trigger p, sw_conns := (sw_conns s)[i := pw_dual_conn p],
     sw_result_tx := (sw_result_tx s)[i := pw_result_tx p], sw_inflight := (sw_inflight s)[i := pw_inflight p],
     sw_tick := pw_tick p, sw_jobs_sent := (sw_jobs_sent s)[i := pw_jobs_sent p], sw_scratch := pw_scratch p\<rparr>"

definition lift_at :: "nat \<Rightarrow> ('h, 'q, 'jq, 'rq) seq_worker \<Rightarrow> ('a, 'e) res \<times> ('h, 'q, 'jq, 'rq) par_worker \<times> 'w
    \<Rightarrow> ('a, 'e) res \<times> ('h, 'q, 'jq, 'rq) seq_worker \<times> 'w" where
  "lift_at i s x = (fst x, put_at i s (fst (snd x)), snd (snd x))"

lemma lift_at_pair [simp]: "lift_at i s (r, p, w) = (r, put_at i s p, w)"
  by (simp add: lift_at_def)

lemma proj_sel [simp]:
  "pw_provider_idx (proj i s) = i" "pw_trigger (proj i s) = sw_trigger s"
  "pw_result_tx (proj i s) = sw_result_tx s ! i" "pw_dual_conn (proj i s) = sw_conns s ! i"
  "pw_inflight (proj i s) = sw_inflight s ! i" "pw_conn_kind (proj i s) = sw_conn_kind s"
  "pw_reconnect_resp_rx (proj i s) = sw_reconnect_resp_rx s ! i"
  "pw_tick (proj i s) = sw_tick s" "pw_jobs_sent (proj i s) = sw_jobs_sent s ! i"
  "pw_diag (proj i s) = sw_diag s ! i" "pw_scratch (proj i s) = sw_scratch s"
  by (simp_all add: proj_def)

lemma put_at_proj [simp]: "put_at i s (proj i s) = s"
  by (simp add: put_at_def)

text \<open>Each update of the vectors at \<open>i\<close> is an update of the projection.\<close>

lemma put_at_updates:
  "put_at i s p\<lparr>sw_inflight := (sw_inflight (put_at i s p))[i := f]\<rparr> = put_at i s (p\<lparr>pw_inflight := f\<rparr>)"
  "put_at i s p\<lparr>sw_jobs_sent := (sw_jobs_sent (put_at i s p))[i := n]\<rparr> = put_at i s (p\<lparr>pw_jobs_sent := n\<rparr>)"
  "put_at i s p\<lparr>sw_conns := (sw_conns (put_at i s p))[i := d]\<rparr> = put_at i s (p\<lparr>pw_dual_conn := d\<rparr>)"
  "put_at i s p\<lparr>sw_result_tx := (sw_result_tx (put_at i s p))[i := c]\<rparr> = put_at i s (p\<lparr>pw_result_tx := c\<rparr>)"
  "put_at i s p\<lparr>sw_scratch := sc\<rparr> = put_at i s (p\<lparr>pw_scratch := sc\<rparr>)"
  "put_at i s p\<lparr>sw_trigger := t\<rparr> = put_at i s (p\<lparr>pw_trigger := t\<rparr>)"
  "put_at i s p\<lparr>sw_tick := k\<rparr> = put_at i s (p\<lparr>pw_tick := k\<rparr>)"
  by (simp_all add: put_at_def)

lemma put_at_nth:
  assumes "seq_wf s" and "i < length (sw_conns s)"
  shows "sw_inflight (put_at i s p) ! i = pw_inflight p" "sw_jobs_sent (put_at i s p) ! i = pw_jobs_sent p"
    "sw_conns (put_at i s p) ! i = pw_dual_conn p" "sw_result_tx (put_at i s p) ! i = pw_result_tx p"
    "length (sw_inflight (put_at i s p)) = length (sw_conns s)" "length (sw_jobs_sent (put_at i s p)) = length (sw_conns s)"
    "length (sw_conns (put_at i s p)) = length (sw_conns s)" "length (sw_result_tx (put_at i s p)) = length (sw_conns s)"
    "sw_scratch (put_at i s p) = pw_scratch p" "sw_conn_kind (put_at i s p) = sw_conn_kind s"
    "sw_trigger (put_at i s p) = pw_trigger p" "sw_tick (put_at i s p) = pw_tick p"
    "sw_reconnect_resp_rx (put_at i s p) = sw_reconnect_resp_rx s" "sw_diag (put_at i s p) = sw_diag s"
  using assms by (simp_all add: put_at_def seq_wf_def)

lemma seq_set_conn_put:
  assumes "seq_wf s" and "i < length (sw_conns s)"
  shows "seq_set_conn i c (put_at i s p) = put_at i s (set_active_conn c p)"
  unfolding seq_set_conn_def put_at_nth [OF assms] set_active_conn_def by (simp add: put_at_updates)

lemma seq_mark_sent_put:
  assumes "seq_wf s" and "i < length (sw_conns s)"
  shows "seq_mark_sent i j t (put_at i s p, w) = (Ok (), put_at i s (par_mark_sent j t p), w)"
  using assms by (simp add: seq_mark_sent_def put_at_nth Let_def par_mark_sent_def put_at_updates)


text \<open>\<open>of_provider i s p\<close>: \<open>p\<close> has the identity that provider \<open>i\<close> has in \<open>s\<close>.\<close>

definition of_provider :: "nat \<Rightarrow> ('h, 'q, 'jq, 'rq) seq_worker \<Rightarrow> ('h, 'q, 'jq, 'rq) par_worker \<Rightarrow> bool" where
  "of_provider i s p \<longleftrightarrow> seq_wf s \<and> i < length (sw_conns s) \<and> pw_provider_idx p = i
     \<and> pw_conn_kind p = sw_conn_kind s \<and> pw_reconnect_resp_rx p = sw_reconnect_resp_rx s ! i
     \<and> pw_diag p = sw_diag s ! i"

lemma of_provider_proj: "seq_wf s \<Longrightarrow> i < length (sw_conns s) \<Longrightarrow> of_provider i s (proj i s)"
  by (simp add: of_provider_def)

lemma of_provider_set [simp]: "of_provider i s (set_active_conn c p) = of_provider i s p"
  by (simp add: of_provider_def)

lemma of_providerD:
  assumes "of_provider i s p"
  shows "seq_wf s" "i < length (sw_conns s)" "pw_provider_idx p = i" "pw_conn_kind p = sw_conn_kind s"
  using assms by (simp_all add: of_provider_def)

lemmas put_simps = put_at_nth put_at_updates seq_set_conn_put seq_mark_sent_put

lemma seq_do_failover_put:
  assumes "of_provider i s p"
  shows "seq_do_failover E i (put_at i s p, w) = lift_at i s (Ok (), par_do_failover E (p, w))"
  using of_providerD [OF assms]
  by (simp add: seq_do_failover_def par_do_failover_def put_simps Let_def lift_at_def)

lemma seq_drive_put:
  assumes "of_provider i s p"
  shows "seq_drive E i (put_at i s p, w) = lift_at i s (par_drive E (p, w))"
  using of_providerD(1,2) [OF assms]
  by (simp add: seq_drive_def par_drive_def put_simps active_conn_def split: prod.split)

lemma seq_push_result_put:
  assumes "of_provider i s p"
  shows "seq_push_result E i resp (put_at i s p, w) = lift_at i s (Ok False, par_push_result E resp p, w)"
  using of_providerD(1,2) [OF assms]
  by (simp add: seq_push_result_def par_push_result_def put_simps)

lemma of_provider_failover: "of_provider i s p \<Longrightarrow> of_provider i s (fst (par_do_failover E (p, w)))"
  by (simp add: of_provider_def par_do_failover_def Let_def)

lemma seq_send_to_put:
  assumes "of_provider i s p"
  shows "seq_send_to E i j t len (put_at i s p, w) = lift_at i s (par_send_to E j t len (p, w))"
proof -
  note d = of_providerD [OF assms]
  show ?thesis
  proof (cases "slice_of (pw_scratch p) 0 len :: (bytes, unit) res")
    case (Ok tx)
    show ?thesis
    proof (cases "active_conn p")
      case (Quic_Conn q)
      obtain r q' w1 where "q_send_tx (cops E) j t tx q w = (r, q', w1)" by (metis prod.exhaust)
      with Ok Quic_Conn d show ?thesis
        by (cases r) (simp_all add: seq_send_to_def par_send_to_def put_simps active_conn_def)
    next
      case (Http_Conn h)
      obtain r h' w1 where s1: "h_send_tx (cops E) tx h w = (r, h', w1)" by (metis prod.exhaust)
      let ?p = "set_active_conn (Http_Conn h') p"
      obtain p2 w2 where f: "par_do_failover E (?p, w1) = (p2, w2)" by force
      have p2: "of_provider i s p2" using of_provider_failover [of i s ?p E w1] assms f by simp
      have fo: "seq_do_failover E i (put_at i s ?p, w1) = (Ok (), put_at i s p2, w2)"
        using seq_do_failover_put [of i s ?p E w1] assms f by simp
      show ?thesis
      proof (cases "\<exists>e. r = Err (Io e) \<and> http_conn_failed_io e")
        case True
        then obtain e where e: "r = Err (Io e)" "http_conn_failed_io e" by blast
        show ?thesis
        proof (cases "active_conn p2")
          case (Http_Conn k)
          obtain r2 k' w3 where "h_send_tx (cops E) tx k w2 = (r2, k', w3)" by (metis prod.exhaust)
          with Ok \<open>active_conn p = _\<close> s1 e f fo Http_Conn d of_providerD [OF p2] show ?thesis
            by (cases r2) (simp_all add: seq_send_to_def par_send_to_def put_simps active_conn_def Let_def)
        next
          case (Quic_Conn q)
          with Ok \<open>active_conn p = _\<close> s1 e f fo d of_providerD [OF p2] show ?thesis
            by (simp add: seq_send_to_def par_send_to_def put_simps active_conn_def Let_def)
        qed
      next
        case False
        with Ok Http_Conn s1 d show ?thesis
          by (cases r) (auto simp: seq_send_to_def par_send_to_def put_simps active_conn_def Let_def
              split: transport_error.splits)
      qed
    qed
  qed (use d in \<open>simp_all add: seq_send_to_def par_send_to_def put_simps\<close>)
qed


lemma seq_poll_put:
  assumes "of_provider i s p"
  shows "seq_poll E i pid (put_at i s p, w) = lift_at i s (par_poll E pid (p, w))"
proof -
  note d = of_providerD(1,2) [OF assms]
  have push: "seq_push_result E i resp (put_at i s p', w') = lift_at i s (Ok False, par_push_result E resp p', w')" for resp p' w'
    using d by (simp add: seq_push_result_def par_push_result_def put_simps)
  show ?thesis
  proof (cases "active_conn p")
    case (Quic_Conn q)
    obtain n q' w1 where "q_poll_noresp_window (cops E) q w = (n, q', w1)" by (metis prod.exhaust)
    with Quic_Conn d push show ?thesis
      by (cases n) (auto simp: seq_poll_def par_poll_def put_simps active_conn_def split: prod.split)
  next
    case (Http_Conn h)
    obtain r h' w1 where h1: "h_poll_response (cops E) h w = (r, h', w1)" by (metis prod.exhaust)
    show ?thesis
    proof (cases "\<exists>b. r = Ok (Some b)")
      case True
      with h1 Http_Conn d push show ?thesis
        by (cases "pw_inflight p") (auto simp: seq_poll_def par_poll_def put_simps active_conn_def Let_def split: prod.split)
    next
      case False
      with h1 Http_Conn d show ?thesis
        by (cases r) (auto simp: seq_poll_def par_poll_def put_simps active_conn_def Let_def
              split: transport_error.splits option.splits)
    qed
  qed
qed


lemma par_poll_identity:
  "pw_provider_idx (fst (snd (par_poll E pid (p, w)))) = pw_provider_idx p
   \<and> pw_conn_kind (fst (snd (par_poll E pid (p, w)))) = pw_conn_kind p
   \<and> pw_reconnect_resp_rx (fst (snd (par_poll E pid (p, w)))) = pw_reconnect_resp_rx p
   \<and> pw_diag (fst (snd (par_poll E pid (p, w)))) = pw_diag p"
  by (simp add: par_poll_def par_push_result_def Let_def
      split: conn_state.split prod.split res.split option.split transport_error.split)

lemma of_provider_poll: "of_provider i s p \<Longrightarrow> of_provider i s (fst (snd (par_poll E pid (p, w))))"
  using par_poll_identity [of E pid p w] by (simp add: of_provider_def)

lemma seq_reap_put:
  assumes "of_provider i s p"
  shows "seq_reap E i pid (put_at i s p, w) = lift_at i s (par_reap E pid (p, w))"
proof -
  obtain r p1 w1 where p: "par_poll E pid (p, w) = (r, p1, w1)" by (metis prod.exhaust)
  have "of_provider i s p1" using of_provider_poll [OF assms, of E pid w] p by simp
  then show ?thesis
    using seq_poll_put [OF assms, of E pid w] p
    by (cases r) (simp_all add: seq_reap_def par_reap_def seq_do_failover_put)
qed

text \<open>The identity of a parallel worker: what no operation changes.\<close>

lemma par_send_to_identity:
  assumes "of_provider i s p"
  shows "of_provider i s (fst (snd (par_send_to E j t len (p, w))))"
proof -
  have mark: "of_provider i s (par_mark_sent j t p') = of_provider i s p'" for p'
    by (simp add: of_provider_def par_mark_sent_def)
  have sent: "of_provider i s (p'\<lparr>pw_jobs_sent := n\<rparr>) = of_provider i s p'" for p' n
    by (simp add: of_provider_def)
  have fo: "of_provider i s (fst (par_do_failover E (set_active_conn c p, w1)))" for c w1
    using assms by (simp add: of_provider_failover)
  show ?thesis
  proof (cases "slice_of (pw_scratch p) 0 len :: (bytes, unit) res")
    case (Ok tx)
    show ?thesis
    proof (cases "active_conn p")
      case (Quic_Conn q)
      obtain r q' w1 where "q_send_tx (cops E) j t tx q w = (r, q', w1)" by (metis prod.exhaust)
      with Ok Quic_Conn assms show ?thesis by (cases r) (simp_all add: par_send_to_def sent)
    next
      case (Http_Conn h)
      obtain r h' w1 where s1: "h_send_tx (cops E) tx h w = (r, h', w1)" by (metis prod.exhaust)
      obtain p2 w2 where f: "par_do_failover E (set_active_conn (Http_Conn h') p, w1) = (p2, w2)" by force
      with fo [of "Http_Conn h'" w1] have "of_provider i s p2" by simp
      with Ok Http_Conn s1 f assms show ?thesis
        by (cases r) (auto simp: par_send_to_def mark Let_def
            split: transport_error.splits conn_state.splits prod.splits)
    qed
  qed (use assms in \<open>simp_all add: par_send_to_def\<close>)
qed


section \<open>One provider\<close>

lemma bind_st_assoc: "bind_st (bind_st x f) g = bind_st x (\<lambda>a y. bind_st (f a y) g)"
  by (cases x rule: prod.exhaust; cases "fst x") auto

lemma bind_st_unit [simp]: "bind_st x (\<lambda>_ y. (Ok (), y)) = x"
  for x :: "(unit, 'e) res \<times> 's"
  by (cases x rule: prod.exhaust; cases "fst x") auto

text \<open>What arrives on the \<open>i\<close>-th reconnect channel is meant for provider \<open>i\<close>.\<close>

definition own_deliveries :: "('h, 'q, 'jq, 'rq, 'w) worker_env \<Rightarrow> nat list \<Rightarrow> bool" where
  "own_deliveries E rxs \<longleftrightarrow> (\<forall>i < length rxs. \<forall>w p w'.
     resp_try_recv (xchan E) (rxs ! i) w = (Some p, w') \<longrightarrow> rp_provider_idx p = i)"

text \<open>
  \<open>single E s\<close>: \<open>s\<close> serves one provider, its connections are HTTP over a backend whose \<open>drive\<close> is the
  trait's empty default, and what arrives on its reconnect channel is meant for it.
\<close>

definition single :: "('h, 'q, 'jq, 'rq, 'w) worker_env \<Rightarrow> ('h, 'q, 'jq, 'rq) seq_worker \<Rightarrow> bool" where
  "single E s \<longleftrightarrow> seq_wf s \<and> length (sw_conns s) = 1 \<and> own_deliveries E (sw_reconnect_resp_rx s) \<and> http_deliveries E
     \<and> (\<forall>h w. h_drive (cops E) h w = (Ok (), h, w))"

lemma single_lengths:
  assumes "single E s"
  shows "length (sw_reconnect_resp_rx s) = Suc 0" "length (sw_diag s) = Suc 0" "length (sw_conns s) = Suc 0"
  using assms by (simp_all add: single_def seq_wf_def)

lemma single_put:
  assumes "single E s"
  shows "sw_jobs_sent (put_at 0 s p) ! 0 = pw_jobs_sent p" "sw_conns (put_at 0 s p) ! 0 = pw_dual_conn p"
    "length (sw_conns (put_at 0 s p)) = Suc 0" "length (sw_jobs_sent (put_at 0 s p)) = Suc 0"
    "sw_scratch (put_at 0 s p) = pw_scratch p" "sw_trigger (put_at 0 s p) = pw_trigger p"
    "sw_tick (put_at 0 s p) = pw_tick p" "sw_reconnect_resp_rx (put_at 0 s p) = sw_reconnect_resp_rx s"
    "sw_diag (put_at 0 s p) = sw_diag s"
  using assms put_at_nth [of s 0 p] by (simp_all add: single_def)

lemma drive_id:
  assumes "single E s" and "http_worker p"
  shows "par_drive E (p, w) = (Ok (), p, w)"
proof -
  obtain h where "active_conn p = Http_Conn h"
    using assms(2) by (cases "active_conn p") (auto simp: http_worker_def)
  with assms(1) show ?thesis by (simp add: par_drive_def conn_drive_def single_def set_active_conn_def active_conn_def)
qed

lemma standby_put:
  assumes "single E s" and "of_provider 0 s p"
  shows "check_standby_deliveries E (put_at 0 s p, w) = lift_at 0 s (Ok (), check_standby_delivery E (p, w))"
proof -
  have rx: "pw_reconnect_resp_rx p = sw_reconnect_resp_rx s ! 0" using assms(2) by (simp add: of_provider_def)
  obtain po w1 where rv: "resp_try_recv (xchan E) (sw_reconnect_resp_rx s ! 0) w = (po, w1)" by force
  show ?thesis
  proof (cases po)
    case (Some resp)
    then have "rp_provider_idx resp = 0" using assms(1) rv single_lengths [OF assms(1)] by (auto simp: single_def own_deliveries_def)
    with rv Some rx show ?thesis
      by (cases "rp_conn resp")
         (simp_all add: check_standby_deliveries_def take_standby_def check_standby_delivery_def single_put [OF assms(1)] single_lengths [OF assms(1)] put_at_updates)
  qed (use rv rx in \<open>simp add: check_standby_deliveries_def take_standby_def check_standby_delivery_def single_put [OF assms(1)] single_lengths [OF assms(1)]\<close>)
qed

lemma diag_put:
  assumes "single E s" and "of_provider 0 s p"
  shows "seq_publish_diag E (put_at 0 s p, w) = lift_at 0 s (Ok (), par_publish_diag E (p, w))"
  using assms by (simp add: seq_publish_diag_def par_publish_diag_def single_put [OF assms(1)] single_lengths [OF assms(1)] of_provider_def)

lemma of_provider_standby:
  "of_provider 0 s p \<Longrightarrow> of_provider 0 s (fst (check_standby_delivery E (p, w)))"
  by (simp add: check_standby_delivery_def of_provider_def split: prod.split option.split conn_box.split)

lemma maintain_put:
  assumes "single E s" and "of_provider 0 s p"
  shows "seq_maintain E (put_at 0 s p, w) = lift_at 0 s (Ok (), par_maintain E (p, w))
    \<and> of_provider 0 s (fst (par_maintain E (p, w)))"
proof -
  obtain p1 w1 where "check_standby_delivery E (p, w) = (p1, w1)" by force
  with of_provider_standby [OF assms(2), of E w] standby_put [OF assms, of w] diag_put [OF assms(1), of p1 w1] show ?thesis
    by (simp add: seq_maintain_def par_maintain_def par_publish_diag_def)
qed

lemma take_job_put:
  assumes "single E s" and "of_provider 0 s p" and "http_worker p"
  shows "seq_take_job E (put_at 0 s p, w) = lift_at 0 s (par_take_job E (provider_of_index 0) (p, w))
    \<and> of_provider 0 s (fst (snd (par_take_job E (provider_of_index 0) (p, w))))"
proof -
  obtain jo t where pop: "try_pop (job_ring E) (pw_trigger p) = (jo, t)" by force
  show ?thesis
  proof (cases jo)
    case None
    with pop assms(2) show ?thesis
      by (simp add: seq_take_job_def par_take_job_def single_put [OF assms(1)] single_lengths [OF assms(1)] put_at_updates of_provider_def)
  next
    case (Some j)
    obtain t1 w1 where t1: "rdtsc (hw E) w = (t1, w1)" by force
    obtain len sc w2 where f: "fill E (provider_of_index 0) j (pw_scratch p) w1 = (len, sc, w2)"
      by (metis prod.exhaust)
    let ?p = "p\<lparr>pw_trigger := t, pw_scratch := sc\<rparr>"
    have ofp: "of_provider 0 s ?p" using assms(2) by (simp add: of_provider_def)
    obtain r p2 w3 where send: "par_send_to E j t1 (unat len) (?p, w2) = (r, p2, w3)" by (metis prod.exhaust)
    have ofp2: "of_provider 0 s p2" using par_send_to_identity [OF ofp, of E j t1 "unat len" w2] send by simp
    have hp: "http_worker ?p" using assms(3) by (simp add: http_worker_def active_conn_def)
    have par: "par_take_job E (provider_of_index 0) (p, w) = (r, p2, w3)"
      using pop Some t1 f send by (simp add: par_take_job_def)
    have seq: "seq_fill_send E j t1 0 (put_at 0 s (p\<lparr>pw_trigger := t\<rparr>), w1) = (r, put_at 0 s p2, w3)"
      using f seq_send_to_put [OF ofp, of E j t1 "unat len" w2] send
      by (simp add: seq_fill_send_def single_put [OF assms(1)] single_lengths [OF assms(1)] put_at_updates)
    show ?thesis
    proof (cases r)
      case (Ok u)
      then have "http_worker p2" using par_send_to_accounts [OF _ hp] send by (metis (full_types) unit.exhaust)
      then have "seq_drive E 0 (put_at 0 s p2, w3) = (Ok (), put_at 0 s p2, w3)"
        using seq_drive_put [OF ofp2, of E w3] drive_id [OF assms(1)] by simp
      with pop Some t1 seq par Ok ofp2 show ?thesis
        by (simp add: seq_take_job_def single_put [OF assms(1)] single_lengths [OF assms(1)] put_at_updates)
    qed (use pop Some t1 seq par ofp2 in \<open>simp_all add: seq_take_job_def single_put [OF assms(1)] single_lengths [OF assms(1)] put_at_updates\<close>)
  qed
qed


lemma idle_put:
  assumes "single E s"
  shows "seq_idle E (put_at 0 s p, w) = (put_at 0 s (fst (par_idle E (p, w))), snd (par_idle E (p, w)))"
  by (simp add: seq_idle_def par_idle_def single_put [OF assms])

lemma of_provider_drive: "of_provider i s p \<Longrightarrow> of_provider i s (fst (snd (par_drive E (p, w))))"
  by (simp add: par_drive_def split: prod.split)

lemma of_provider_reap: "of_provider i s p \<Longrightarrow> of_provider i s (fst (snd (par_reap E pid (p, w))))"
proof -
  assume p: "of_provider i s p"
  obtain r p1 w1 where q: "par_poll E pid (p, w) = (r, p1, w1)" by (metis prod.exhaust)
  then have "of_provider i s p1" using of_provider_poll [OF p, of E pid w] by simp
  with q of_provider_failover [OF this, of E w1] show ?thesis by (cases r) (auto simp: par_reap_def)
qed

lemma seq_service_put:
  assumes "of_provider i s p"
  shows "seq_service E i (put_at i s p, w) =
    lift_at i s (bind_st (par_drive E (p, w)) (\<lambda>_ x. par_reap E (provider_of_index i) x))"
proof -
  obtain r p1 w1 where d: "par_drive E (p, w) = (r, p1, w1)" by (metis prod.exhaust)
  then have "of_provider i s p1" using of_provider_drive [OF assms, of E w] by simp
  then show ?thesis
    using d seq_drive_put [OF assms, of E w] seq_reap_put [of i s p1 E "provider_of_index i" w1]
    by (cases r) (simp_all add: seq_service_def)
qed

text \<open>The part of an iteration after the connections have been serviced.\<close>

definition seq_finish ::
  "('h, 'q, 'jq, 'rq, 'w) worker_env \<Rightarrow> ('h, 'q, 'jq, 'rq) seq_worker \<times> 'w
     \<Rightarrow> (unit, unit) res \<times> ('h, 'q, 'jq, 'rq) seq_worker \<times> 'w" where
  "seq_finish E = (\<lambda>(s, w).
     let s = s\<lparr>sw_tick := sw_tick s + 1\<rparr>
     in bind_st (if sw_tick s AND PERIODIC_MASK = 0 then seq_maintain E (s, w) else (Ok (), s, w)) (\<lambda>_ x.
        if is_empty (job_ring E) (sw_trigger (fst x)) then seq_maintain E (seq_idle E x) else (Ok (), x)))"

definition par_finish ::
  "('h, 'q, 'jq, 'rq, 'w) worker_env \<Rightarrow> ('h, 'q, 'jq, 'rq) par_worker \<times> 'w
     \<Rightarrow> ('h, 'q, 'jq, 'rq) par_worker \<times> 'w" where
  "par_finish E = (\<lambda>(s, w).
     let s = s\<lparr>pw_tick := pw_tick s + 1\<rparr>;
         x = (if pw_tick s AND PERIODIC_MASK = 0 then par_maintain E (s, w) else (s, w))
     in if is_empty (job_ring E) (pw_trigger (fst x)) then par_maintain E (par_idle E x) else x)"

lemma finish_put:
  assumes "single E s" and "of_provider 0 s p"
  shows "seq_finish E (put_at 0 s p, w) = lift_at 0 s (Ok (), par_finish E (p, w))
    \<and> of_provider 0 s (fst (par_finish E (p, w)))"
proof -
  let ?p = "p\<lparr>pw_tick := pw_tick p + 1\<rparr>"
  have ofp: "of_provider 0 s ?p" using assms(2) by (simp add: of_provider_def)
  note m = maintain_put [OF assms(1) ofp, of w]
  obtain p1 w1 where 1: "(if pw_tick ?p AND PERIODIC_MASK = 0 then par_maintain E (?p, w) else (?p, w)) = (p1, w1)"
    by force
  have ofp1: "of_provider 0 s p1"
    using m 1 ofp by (cases "pw_tick ?p AND PERIODIC_MASK = 0") auto
  have s1: "(if pw_tick ?p AND PERIODIC_MASK = 0 then seq_maintain E (put_at 0 s ?p, w) else (Ok (), put_at 0 s ?p, w))
      = (Ok (), put_at 0 s p1, w1)"
    using m 1 by (cases "pw_tick ?p AND PERIODIC_MASK = 0") auto
  obtain w2 where idle: "par_idle E (p1, w1) = (p1, w2)" by (simp add: par_idle_def)
  have "seq_finish E (put_at 0 s p, w) =
      (if is_empty (job_ring E) (pw_trigger p1) then seq_maintain E (put_at 0 s p1, w2) else (Ok (), put_at 0 s p1, w1))"
    using s1 idle idle_put [OF assms(1), of p1 w1]
    by (cases "pw_tick ?p AND PERIODIC_MASK = 0")
       (simp_all add: seq_finish_def single_put [OF assms(1)] put_at_updates Let_def)
  moreover have "par_finish E (p, w) =
      (if is_empty (job_ring E) (pw_trigger p1) then par_maintain E (p1, w2) else (p1, w1))"
    using 1 idle by (cases "pw_tick ?p AND PERIODIC_MASK = 0") (auto simp: par_finish_def Let_def)
  ultimately show ?thesis
    using maintain_put [OF assms(1) ofp1, of w2] ofp1 by simp
qed

lemma iteration_put:
  assumes "single E s" and "of_provider 0 s p" and "http_worker p"
  shows "seq_iteration E (put_at 0 s p, w) = lift_at 0 s (par_iteration E (p, w))
    \<and> of_provider 0 s (fst (snd (par_iteration E (p, w))))"
proof -
  have idx: "pw_provider_idx p = 0" using assms(2) by (simp add: of_provider_def)
  have seq: "seq_iteration E x = bind_st (seq_take_job E x) (\<lambda>_ x.
     bind_st (for_each [0..<length (sw_conns (fst x))] (seq_service E) x) (\<lambda>_. seq_finish E))" for x
    by (simp add: seq_iteration_def seq_finish_def)
  have par: "par_iteration E (p, w) = bind_st (par_take_job E (provider_of_index 0) (p, w)) (\<lambda>_ x.
     bind_st (bind_st (par_drive E x) (\<lambda>_ x. par_reap E (provider_of_index 0) x)) (\<lambda>_ x. (Ok (), par_finish E x)))"
    by (simp add: par_iteration_def idx par_finish_def Let_def bind_st_assoc case_prod_unfold)
  obtain r p1 w1 where 1: "par_take_job E (provider_of_index 0) (p, w) = (r, p1, w1)" by (metis prod.exhaust)
  have t: "seq_take_job E (put_at 0 s p, w) = (r, put_at 0 s p1, w1)" "of_provider 0 s p1"
    using take_job_put [OF assms, of w] 1 by simp_all
  obtain r2 p2 w2 where 2: "bind_st (par_drive E (p1, w1)) (\<lambda>_ x. par_reap E (provider_of_index 0) x) = (r2, p2, w2)"
    by (metis prod.exhaust)
  obtain r3 p3 w3 where 3: "par_drive E (p1, w1) = (r3, p3, w3)" by (metis prod.exhaust)
  then have "of_provider 0 s p3" using of_provider_drive [OF t(2), of E w1] by simp
  then have "of_provider 0 s p2"
    using 2 3 of_provider_reap [of 0 s p3 E "provider_of_index 0" w3] by (cases r3) auto
  with 1 2 t seq par seq_service_put [OF t(2), of E w1] finish_put [OF assms(1), of p2 w2] single_put(3) [OF assms(1)] show ?thesis
    by (cases r; cases r2) (simp_all )
qed


lemma par_run_induct [consumes 1, case_names stop iterate fail]:
  assumes "par_run E x = Some y"
    and "\<And>x. stop_load E (snd x) \<Longrightarrow> P x (Ok (), x)"
    and "\<And>x x' y. \<not> stop_load E (snd x) \<Longrightarrow> par_iteration E x = (Ok (), x') \<Longrightarrow> P x' y \<Longrightarrow> P x y"
    and "\<And>x r x'. \<not> stop_load E (snd x) \<Longrightarrow> par_iteration E x = (r, x') \<Longrightarrow> \<not> is_ok r \<Longrightarrow> P x (r, x')"
  shows "P x y"
proof -
  have "E' = E \<longrightarrow> P x' y'" if "par_run E' x' = Some y'" for E' x' y'
    using that
  proof (rule par_run.raw_induct [where P = "\<lambda>E' x y. E' = E \<longrightarrow> P x y" and xa = "(E', x')", unfolded prod.case, rotated])
    fix run E' x y
    assume IH: "\<And>E'' x y. run E'' x = Some y \<Longrightarrow> E'' = E \<longrightarrow> P x y"
      and b: "(if stop_load E' (snd x) then Some (Ok (), x)
        else case par_iteration E' x of (Ok x, x') \<Rightarrow> run E' x' | (Err e, x') \<Rightarrow> Some (Err e, x')
          | (Panic, x') \<Rightarrow> Some (Panic, x') | (Hang, x') \<Rightarrow> Some (Hang, x')) = Some y"
    obtain r x' where it: "par_iteration E x = (r, x')" by (cases "par_iteration E x")
    show "E' = E \<longrightarrow> P x y"
      using b assms(2) [of x] assms(3) [of x x' y] assms(4) [of x r x'] IH [of E x' y] it
      by (cases r) (auto split: if_splits)
  qed
  with assms(1) show ?thesis by blast
qed

lemma seq_run_induct [consumes 1, case_names stop iterate fail]:
  assumes "seq_run E x = Some y"
    and "\<And>x. stop_load E (snd x) \<Longrightarrow> P x (Ok (), x)"
    and "\<And>x x' y. \<not> stop_load E (snd x) \<Longrightarrow> seq_iteration E x = (Ok (), x') \<Longrightarrow> P x' y \<Longrightarrow> P x y"
    and "\<And>x r x'. \<not> stop_load E (snd x) \<Longrightarrow> seq_iteration E x = (r, x') \<Longrightarrow> \<not> is_ok r \<Longrightarrow> P x (r, x')"
  shows "P x y"
proof -
  have "E' = E \<longrightarrow> P x' y'" if "seq_run E' x' = Some y'" for E' x' y'
    using that
  proof (rule seq_run.raw_induct [where P = "\<lambda>E' x y. E' = E \<longrightarrow> P x y" and xa = "(E', x')", unfolded prod.case, rotated])
    fix run E' x y
    assume IH: "\<And>E'' x y. run E'' x = Some y \<Longrightarrow> E'' = E \<longrightarrow> P x y"
      and b: "(if stop_load E' (snd x) then Some (Ok (), x)
        else case seq_iteration E' x of (Ok x, x') \<Rightarrow> run E' x' | (Err e, x') \<Rightarrow> Some (Err e, x')
          | (Panic, x') \<Rightarrow> Some (Panic, x') | (Hang, x') \<Rightarrow> Some (Hang, x')) = Some y"
    obtain r x' where it: "seq_iteration E x = (r, x')" by (cases "seq_iteration E x")
    show "E' = E \<longrightarrow> P x y"
      using b assms(2) [of x] assms(3) [of x x' y] assms(4) [of x r x'] IH [of E x' y] it
      by (cases r) (auto split: if_splits)
  qed
  with assms(1) show ?thesis by blast
qed


lemma par_run_single:
  assumes "single E s" and "par_run E x = Some y"
  shows "of_provider 0 s (fst x) \<Longrightarrow> http_worker (fst x) \<Longrightarrow>
    seq_run E (put_at 0 s (fst x), snd x) = Some (lift_at 0 s y)"
  using assms(2)
proof (induction rule: par_run_induct)
  case (stop x)
  then show ?case by (subst seq_run.simps) (simp add: lift_at_def)
next
  case (iterate x x' y)
  then have "http_worker (fst x')"
    using par_iteration_accounts [of E "fst x" "snd x" "fst x'" "snd x'"] assms(1) by (auto simp: single_def)
  with iterate iteration_put [OF assms(1), of "fst x" "snd x"] show ?case
    by (subst seq_run.simps) (simp add: lift_at_def)
next
  case (fail x r x')
  with iteration_put [OF assms(1), of "fst x" "snd x"] show ?case
    by (subst seq_run.simps, cases r) (simp_all add: lift_at_def)
qed

lemma seq_run_single:
  assumes "single E s" and "seq_run E x = Some y"
  shows "x = (put_at 0 s p, w) \<Longrightarrow> of_provider 0 s p \<Longrightarrow> http_worker p \<Longrightarrow> par_run E (p, w) \<noteq> None"
  using assms(2)
proof (induction arbitrary: p w rule: seq_run_induct)
  case (stop x)
  then show ?case by (subst par_run.simps) simp
next
  case (iterate x x' y)
  obtain r p' w' where it: "par_iteration E (p, w) = (r, p', w')" by (metis prod.exhaust)
  with iterate iteration_put [OF assms(1), of p w] have r: "r = Ok ()" "x' = (put_at 0 s p', w')" "of_provider 0 s p'"
    by auto
  then have "http_worker p'"
    using par_iteration_accounts [of E p w p' w'] it iterate.prems assms(1) by (auto simp: single_def)
  with iterate it r show ?case by (subst par_run.simps) simp
next
  case (fail x r x')
  obtain r' p' w' where "par_iteration E (p, w) = (r', p', w')" by (metis prod.exhaust)
  with fail iteration_put [OF assms(1), of p w] show ?case
    by (subst par_run.simps, cases r) auto
qed

lemma run_single:
  assumes "single E s" and "http_worker (proj 0 s)"
  shows "seq_run E (s, w) = map_option (lift_at 0 s) (par_run E (proj 0 s, w))"
proof -
  have ofp: "of_provider 0 s (proj 0 s)" using assms(1) by (simp add: of_provider_proj single_def)
  show ?thesis
  proof (cases "par_run E (proj 0 s, w)")
    case None
    have "seq_run E (s, w) = None"
    proof (rule ccontr)
      assume "seq_run E (s, w) \<noteq> None"
      then obtain y where "seq_run E (s, w) = Some y" by blast
      from seq_run_single [OF assms(1) this _ ofp assms(2), of w] None show False by simp
    qed
    with None show ?thesis by simp
  next
    case (Some y)
    have "seq_run E (put_at 0 s (proj 0 s), w) = Some (lift_at 0 s y)"
      using par_run_single [OF assms(1) Some] ofp assms(2) by (simp only: fst_conv snd_conv)
    with Some show ?thesis by simp
  qed
qed

section \<open>Any number of providers\<close>

lemma for_each_inv:
  assumes "\<And>i x. i \<in> set ks \<Longrightarrow> I x \<Longrightarrow> \<exists>x'. f i x = (Ok (), x') \<and> I x'" and "I x"
  shows "\<exists>x'. for_each ks f x = (Ok (), x') \<and> I x'"
  using assms
proof (induction ks arbitrary: x)
  case (Cons i ks)
  then obtain x' where "f i x = (Ok (), x')" "I x'" by (meson list.set_intros(1))
  moreover have "\<exists>y. for_each ks f x' = (Ok (), y) \<and> I y"
    by (rule Cons.IH) (use Cons.prems(1) calculation in auto)
  ultimately show ?case by auto
qed simp

lemma for_each_range:
  assumes "\<forall>x i. I x \<longrightarrow> i < n \<longrightarrow> (\<exists>x'. f i x = (Ok (), x') \<and> I x')" and "I x"
  shows "\<exists>x'. for_each [0..<n] f x = (Ok (), x') \<and> I x'"
  by (rule for_each_inv) (use assms in auto)

text \<open>What every iteration keeps: the vectors have one entry per provider, and the array its 1232 bytes.\<close>

definition seq_inv :: "nat list \<Rightarrow> ('h, 'q, 'jq, 'rq) seq_worker \<times> 'w \<Rightarrow> bool" where
  "seq_inv rxs x \<longleftrightarrow> seq_wf (fst x) \<and> sw_reconnect_resp_rx (fst x) = rxs \<and> length (sw_scratch (fst x)) = MAX_TX_LEN"

lemma seq_inv_length: "seq_inv rxs x \<Longrightarrow> length (sw_conns (fst x)) = length rxs"
  by (auto simp: seq_inv_def seq_wf_def)

lemma put_at_wf: "seq_wf (put_at i s p) = seq_wf s"
  by (simp add: seq_wf_def put_at_def)

lemma seq_inv_put:
  "seq_inv rxs (s, w) \<Longrightarrow> length (pw_scratch p) = MAX_TX_LEN \<Longrightarrow> seq_inv rxs (put_at i s p, w')"
  by (simp add: seq_inv_def put_at_wf) (simp add: put_at_def)

lemma seq_inv_of_provider:
  "seq_inv rxs (s, w) \<Longrightarrow> i < length rxs \<Longrightarrow> of_provider i s (proj i s)"
  using seq_inv_length [of rxs "(s, w)"] by (auto simp: seq_inv_def intro!: of_provider_proj)

lemma seq_drive_returns:
  assumes "calm E" and "seq_inv rxs x" and "i < length rxs"
  shows "\<exists>x'. seq_drive E i x = (Ok (), x') \<and> seq_inv rxs x'"
proof -
  obtain s w where x: "x = (s, w)" by force
  obtain p' w' where "par_drive E (proj i s, w) = (Ok (), p', w')" "pw_scratch p' = sw_scratch s"
    using par_drive_returns [OF assms(1), of "proj i s" w] by auto
  with seq_drive_put [OF seq_inv_of_provider, of rxs s w i E w] assms(2,3) x seq_inv_put [of rxs s w p' i w']
  show ?thesis by (simp add: seq_inv_def)
qed

lemma seq_reap_returns:
  assumes "calm E" and "seq_inv rxs x" and "i < length rxs"
  shows "\<exists>x'. seq_reap E i pid x = (Ok (), x') \<and> seq_inv rxs x'"
proof -
  obtain s w where x: "x = (s, w)" by force
  obtain f p' w' where p: "par_poll E pid (proj i s, w) = (Ok f, p', w')" "pw_scratch p' = sw_scratch s"
    using par_poll_returns [OF assms(1), of pid "proj i s" w] by auto
  obtain p2 w2 where f: "(if f then par_do_failover E (p', w') else (p', w')) = (p2, w2)" by force
  then have "pw_scratch p2 = sw_scratch s"
    using p(2) failover_sel(4) [of E "(p', w')"] by (cases f) auto
  with seq_reap_put [OF seq_inv_of_provider, of rxs s w i E pid w] assms(2,3) x seq_inv_put [of rxs s w p2 i w2] p f
  show ?thesis by (simp add: par_reap_def seq_inv_def)
qed

lemma seq_fill_send_returns:
  assumes "calm E" and "seq_inv rxs x" and "i < length rxs"
  shows "\<exists>x'. seq_fill_send E j t i x = (Ok (), x') \<and> seq_inv rxs x'"
proof -
  obtain s w where x: "x = (s, w)" by force
  obtain len sc w1 where f: "fill E (provider_of_index i) j (sw_scratch s) w = (len, sc, w1)"
    by (metis prod.exhaust)
  have l: "length (sw_scratch s) = MAX_TX_LEN" using assms(2) x by (simp add: seq_inv_def)
  with f assms(1) have sc: "length sc = MAX_TX_LEN" "unat len \<le> MAX_TX_LEN"
    unfolding calm_def by (metis fst_conv snd_conv)+
  let ?s = "s\<lparr>sw_scratch := sc\<rparr>"
  have inv: "seq_inv rxs (?s, w1)" using assms(2) x sc by (auto simp: seq_inv_def seq_wf_def)
  have "unat len \<le> length (pw_scratch (proj i ?s))" using sc by simp
  from par_send_to_returns [OF assms(1) this, of j t w1] obtain p' w' where
    "par_send_to E j t (unat len) (proj i ?s, w1) = (Ok (), p', w')" "pw_scratch p' = sc" by auto
  with seq_send_to_put [OF seq_inv_of_provider [OF inv assms(3)], of E j t "unat len" w1] x f sc
    seq_inv_put [OF inv, of p' i w'] show ?thesis
    by (simp add: seq_fill_send_def)
qed

lemma seq_take_job_returns:
  assumes "calm E" and "seq_inv rxs x"
  shows "\<exists>x'. seq_take_job E x = (Ok (), x') \<and> seq_inv rxs x'"
proof -
  obtain s w where x: "x = (s, w)" by force
  obtain jo t where pop: "try_pop (job_ring E) (sw_trigger s) = (jo, t)" by force
  have inv: "seq_inv rxs (s\<lparr>sw_trigger := t\<rparr>, w')" for w' using assms(2) x by (auto simp: seq_inv_def seq_wf_def)
  show ?thesis
  proof (cases jo)
    case None
    with pop x inv show ?thesis by (simp add: seq_take_job_def)
  next
    case (Some j)
    obtain t1 w1 where t1: "rdtsc (hw E) w = (t1, w1)" by force
    note n = seq_inv_length [OF inv [of w1], simplified]
    have fills: "\<forall>x i. seq_inv rxs x \<longrightarrow> i < length rxs \<longrightarrow> (\<exists>x'. seq_fill_send E j t1 i x = (Ok (), x') \<and> seq_inv rxs x')"
      using seq_fill_send_returns [OF assms(1)] by blast
    have drives: "\<forall>x i. seq_inv rxs x \<longrightarrow> i < length rxs \<longrightarrow> (\<exists>x'. seq_drive E i x = (Ok (), x') \<and> seq_inv rxs x')"
      using seq_drive_returns [OF assms(1)] by blast
    obtain x1 where 1: "for_each [0..<length rxs] (seq_fill_send E j t1) (s\<lparr>sw_trigger := t\<rparr>, w1) = (Ok (), x1)"
      "seq_inv rxs x1"
      using for_each_range [OF fills inv] by blast
    obtain x2 where 2: "for_each [0..<length rxs] (seq_drive E) x1 = (Ok (), x2)" "seq_inv rxs x2"
      using for_each_range [OF drives 1(2)] by blast
    show ?thesis
      using pop Some t1 x 1(1) 2 n seq_inv_length [OF 1(2)]
      by (simp add: seq_take_job_def Let_def split_beta)
  qed
qed


lemma seq_maintain_returns:
  assumes "own_deliveries E rxs" and "seq_inv rxs x"
  shows "\<exists>x'. seq_maintain E x = (Ok (), x') \<and> seq_inv rxs x'"
proof -
  have recv: "\<exists>y. take_standby E i x = (Ok (), y) \<and> seq_inv rxs y" if "seq_inv rxs x" "i < length rxs" for x i
  proof -
    obtain s w where x: "x = (s, w)" by force
    obtain po w1 where rv: "resp_try_recv (xchan E) (rxs ! i) w = (po, w1)" by force
    have n: "length (sw_conns s) = length rxs" using seq_inv_length [OF that(1)] x by simp
    show ?thesis
    proof (cases po)
      case (Some resp)
      then have "rp_provider_idx resp = i" using assms(1) rv that(2) by (auto simp: own_deliveries_def)
      with x rv Some that n show ?thesis
        by (cases "rp_conn resp") (auto simp: take_standby_def seq_inv_def seq_wf_def)
    qed (use x rv that in \<open>auto simp: take_standby_def seq_inv_def\<close>)
  qed
  obtain x1 where 1: "check_standby_deliveries E x = (Ok (), x1)" "seq_inv rxs x1"
    using for_each_range [of "seq_inv rxs" "length rxs" "take_standby E", OF _ assms(2)] recv assms(2)
    unfolding check_standby_deliveries_def seq_inv_def [of rxs x] by blast
  have "\<exists>x'. seq_publish_diag E x1 = (Ok (), x') \<and> seq_inv rxs x'"
    unfolding seq_publish_diag_def
    by (rule for_each_range) (use 1(2) in \<open>auto simp: seq_inv_def seq_wf_def\<close>)
  with 1(1) show ?thesis by (simp add: seq_maintain_def)
qed

lemma seq_finish_returns:
  assumes "own_deliveries E rxs" and "seq_inv rxs x"
  shows "\<exists>x'. seq_finish E x = (Ok (), x') \<and> seq_inv rxs x'"
proof -
  obtain s w where x: "x = (s, w)" by force
  let ?s = "s\<lparr>sw_tick := sw_tick s + 1\<rparr>"
  have inv: "seq_inv rxs (?s, w)" using assms(2) x by (auto simp: seq_inv_def seq_wf_def)
  obtain x1 where 1: "(if sw_tick ?s AND PERIODIC_MASK = 0 then seq_maintain E (?s, w) else (Ok (), ?s, w)) = (Ok (), x1)"
      "seq_inv rxs x1"
    using seq_maintain_returns [OF assms(1) inv] inv by (cases "sw_tick ?s AND PERIODIC_MASK = 0") auto
  have idle: "seq_inv rxs (seq_idle E x1)" using 1(2) by (simp add: seq_idle_def seq_inv_def split_beta)
  have "seq_finish E x = (if is_empty (job_ring E) (sw_trigger (fst x1)) then seq_maintain E (seq_idle E x1) else (Ok (), x1))"
    using 1(1) x by (simp only: seq_finish_def Let_def prod.case bind_st.simps)
  with seq_maintain_returns [OF assms(1) idle] 1(2) show ?thesis
    by (cases "is_empty (job_ring E) (sw_trigger (fst x1))") auto
qed

lemma seq_iteration_finish:
  "seq_iteration E x = bind_st (seq_take_job E x) (\<lambda>_ x.
     bind_st (for_each [0..<length (sw_conns (fst x))] (seq_service E) x) (\<lambda>_. seq_finish E))"
  by (simp add: seq_iteration_def seq_finish_def)

lemma seq_iteration_returns:
  assumes "calm E" and "own_deliveries E rxs" and "seq_inv rxs x"
  shows "\<exists>x'. seq_iteration E x = (Ok (), x') \<and> seq_inv rxs x'"
proof -
  obtain x1 where 1: "seq_take_job E x = (Ok (), x1)" "seq_inv rxs x1"
    using seq_take_job_returns [OF assms(1,3)] by blast
  have service: "\<exists>y'. seq_service E i y = (Ok (), y') \<and> seq_inv rxs y'" if "seq_inv rxs y" "i < length rxs" for y i
    using seq_drive_returns [OF assms(1) that] seq_reap_returns [OF assms(1) _ that(2), of _ "provider_of_index i"]
    by (auto simp: seq_service_def)
  obtain x2 where 2: "for_each [0..<length rxs] (seq_service E) x1 = (Ok (), x2)" "seq_inv rxs x2"
    using for_each_range [of "seq_inv rxs" "length rxs" "seq_service E", OF _ 1(2)] service by blast
  show ?thesis
    using 1(1) 2(1) seq_inv_length [OF 1(2)] seq_finish_returns [OF assms(2) 2(2)]
    by (simp add: seq_iteration_finish)
qed

section \<open>Properties\<close>

text \<open>A channel that always has a new connection for its own provider, and a sequential worker on scripts.\<close>

definition feeding :: "(script, unit, script_world) xchan_ops" where
  "feeding = list_xchan\<lparr>resp_try_recv :=
     (\<lambda>h w. (Some \<lparr>rp_provider_idx = h, rp_conn = Conn_Box (Http_Conn ([], []))\<rparr>, w))\<rparr>"

definition script_seq :: "script list \<Rightarrow> job list
    \<Rightarrow> (script, unit, nat \<times> job list, nat \<times> raw_resp list) seq_worker" where
  "script_seq ss js = seq_new \<lparr>inner = (256, js), counter = of_nat (length js)\<rparr>
     (map (\<lambda>a. dual_new (Http_Conn a) (Http_Conn ([], []))) ss) (map (\<lambda>_. channel list_ring 256) ss)
     [0..<length ss] RawLibcKind [0..<length ss]"

lemma script_seq_wf: "seq_wf (script_seq ss js)"
  by (simp add: script_seq_def seq_new_def seq_wf_def Let_def)

lemma script_seq_sel:
  "sw_reconnect_resp_rx (script_seq ss js) = [0..<length ss]" "length (sw_conns (script_seq ss js)) = length ss"
  "length (sw_scratch (script_seq ss js)) = MAX_TX_LEN"
  by (simp_all add: script_seq_def seq_new_def Let_def)

lemma feeding_own: "xchan E = feeding \<Longrightarrow> own_deliveries E [0..<n]"
  by (simp add: own_deliveries_def feeding_def)

lemma feeding_http: "xchan E = feeding \<Longrightarrow> http_deliveries E"
  by (auto simp: http_deliveries_def feeding_def)

text \<open>
  C6. The sequential worker serves each provider as the parallel worker would: sending, driving,
  polling for the response and failing over on provider \<open>i\<close> give the result, the world and the
  state of provider \<open>i\<close> that the parallel worker's operation gives on \<open>i\<close>'s part of the state, and
  leave every other provider's part as it was.
\<close>

theorem seq_refines_par:
  assumes "seq_wf s" and "i < length (sw_conns s)"
  shows "seq_send_to E i j t len (s, w) = lift_at i s (par_send_to E j t len (proj i s, w))
    \<and> seq_drive E i (s, w) = lift_at i s (par_drive E (proj i s, w))
    \<and> seq_reap E i pid (s, w) = lift_at i s (par_reap E pid (proj i s, w))
    \<and> seq_do_failover E i (s, w) = lift_at i s (Ok (), par_do_failover E (proj i s, w))
    \<and> (\<forall>p k. k \<noteq> i \<longrightarrow> proj k (put_at i s p) = proj k s\<lparr>pw_trigger := pw_trigger p, pw_tick := pw_tick p,
          pw_scratch := pw_scratch p\<rparr>)"
proof -
  note p = of_provider_proj [OF assms]
  have "proj k (put_at i s q) = proj k s\<lparr>pw_trigger := pw_trigger q, pw_tick := pw_tick q, pw_scratch := pw_scratch q\<rparr>"
    if "k \<noteq> i" for q k
    using that by (simp add: proj_def put_at_def)
  with seq_send_to_put [OF p, of E j t len w] seq_drive_put [OF p, of E w] seq_reap_put [OF p, of E pid w]
    seq_do_failover_put [OF p, of E w] show ?thesis by simp
qed

theorem seq_refines_par_witness:
  "seq_send_to script_env 1 job1 7 3 (script_seq [([], []), ([Err (Io (Os EPIPE))], [])] [], quiet_world)
     = lift_at 1 (script_seq [([], []), ([Err (Io (Os EPIPE))], [])] [])
         (par_send_to script_env job1 7 3 (proj 1 (script_seq [([], []), ([Err (Io (Os EPIPE))], [])] []), quiet_world))"
  using seq_refines_par [OF script_seq_wf, of 1 "[([], []), ([Err (Io (Os EPIPE))], [])]" "[]" script_env job1 7 3 quiet_world]
  by (simp add: script_seq_def seq_new_def)




lemma stops_after_failover:
  "par_run (script_env\<lparr>xchan := feeding, stop_load := (\<lambda>w. xw_reqs w \<noteq> [])\<rparr>)
     (proj 0 (script_seq [([], [Err (Io (Simple UnexpectedEof))])] [job1]), quiet_world) \<noteq> None"
  apply (subst par_run.simps, simp add: worker_defs script_defs script_seq_def seq_new_def proj_def feeding_def
      http_conn_failed_io_def par_do_failover_def dual_swap_def)
  apply (subst par_run.simps, simp add: worker_defs script_defs script_seq_def seq_new_def proj_def feeding_def
      http_conn_failed_io_def par_do_failover_def dual_swap_def)
  done


end
