(* ===== verification/Registry.thy ===== *)
theory Registry
  imports Envelope_Frame Response
begin

text \<open>
  The provider presets of \<open>provider/registry.rs\<close>: thirteen HTTP providers, each a function of the
  user's token, and three QUIC providers, functions of an address and a credential.
\<close>

section \<open>HTTP providers\<close>

definition MAX_BODY :: nat where
  "MAX_BODY = 1644"

definition http_cfg ::
  "bytes \<Rightarrow> 16 word \<Rightarrow> bytes \<Rightarrow> bytes \<Rightarrow> http_auth \<Rightarrow> bytes \<Rightarrow> provider_config" where
  "http_cfg hst port path server_name a tpl =
     \<lparr>pc_protocol = Http_Protocol,
      pc_endpoint = \<lparr>ep_host = hst, ep_port = port, ep_path = path, ep_server_name = server_name\<rparr>,
      pc_quic_endpoint = None, pc_quic_profile = None, pc_quic_auth = None, pc_auth = a,
      pc_max_body = MAX_BODY, pc_body_template = tpl, pc_codec = json_rpc_parse\<rparr>"

definition jito_transaction :: "bytes \<Rightarrow> provider_config" where
  \<open>jito_transaction token =
     (let host = ''mainnet.block-engine.jito.wtf'';
          body = ''{"jsonrpc":"2.0","id":1,"method":"sendTransaction","params":["<<BODY>>",{"encoding":"base64"}]}''
      in http_cfg host 443 (''/api/v1/transactions?uuid='' @ token) host (HeaderAuth ''x-jito-auth'' token) body)\<close>

definition jito_bundle :: "bytes \<Rightarrow> provider_config" where
  \<open>jito_bundle token =
     (let host = ''mainnet.block-engine.jito.wtf'';
          body = ''{"jsonrpc":"2.0","id":1,"method":"sendBundle","params":[["<<BODY>>"],{"encoding":"base64"}]}''
      in http_cfg host 443 (''/api/v1/bundles?uuid='' @ token) host (HeaderAuth ''x-jito-auth'' token) body)\<close>

definition nextblock :: "bytes \<Rightarrow> provider_config" where
  \<open>nextblock token =
     (let host = ''fra.nextblock.io'';
          body = ''{"transaction":{"content":"<<BODY>>"},"frontRunningProtection":false}''
      in http_cfg host 443 ''/api/v2/submit'' host (HeaderAuth ''Authorization'' token) body)\<close>

definition zeroslot :: "bytes \<Rightarrow> provider_config" where
  \<open>zeroslot token =
     (let host = ''de.0slot.trade'';
          body = ''{"jsonrpc":"2.0","id":1,"method":"sendTransaction","params":["<<BODY>>",{"encoding":"base64","skipPreflight":true}]}''
      in http_cfg host 443 ''/'' host (UrlParamAuth ''api-key'' token) body)\<close>

definition temporal :: "bytes \<Rightarrow> provider_config" where
  \<open>temporal token =
     (let host = ''ny.temporal.xyz'';
          body = ''{"jsonrpc":"2.0","id":1,"method":"sendTransaction","params":["<<BODY>>",{"encoding":"base64"}]}''
      in http_cfg host 443 ''/'' host (UrlParamAuth ''c'' token) body)\<close>

definition bloxroute :: "bytes \<Rightarrow> provider_config" where
  \<open>bloxroute token =
     (let host = ''virginia.solana.dex.blxrbdn.com'';
          body = ''{"transaction":{"content":"<<BODY>>"},"frontRunningProtection":false,"useStakedRPCs":true}''
      in http_cfg host 443 ''/api/v2/submit'' host (HeaderAuth ''Authorization'' token) body)\<close>

definition node1 :: "bytes \<Rightarrow> provider_config" where
  \<open>node1 token =
     (let host = ''rpc.node1.io'';
          body = ''{"jsonrpc":"2.0","id":1,"method":"sendTransaction","params":["<<BODY>>",{"encoding":"base64","skipPreflight":true}]}''
      in http_cfg host 443 ''/'' host (HeaderAuth ''api-key'' token) body)\<close>

definition flashblock :: "bytes \<Rightarrow> provider_config" where
  \<open>flashblock token =
     (let host = ''fra.flashblock.io'';
          body = ''{"transactions":["<<BODY>>"]}''
      in http_cfg host 443 ''/api/v2/submit-batch'' host (HeaderAuth ''Authorization'' token) body)\<close>

definition blockrazor :: "bytes \<Rightarrow> provider_config" where
  \<open>blockrazor token =
     (let host = ''solana.blockrazor.xyz'';
          body = ''{"transaction":"<<BODY>>","mode":"fast"}''
      in http_cfg host 443 ''/sendTransaction'' host (HeaderAuth ''apikey'' token) body)\<close>

definition astralane :: "bytes \<Rightarrow> provider_config" where
  \<open>astralane token =
     (let host = ''solana-ny.astralane.io'';
          body = ''{"jsonrpc":"2.0","id":1,"method":"sendTransaction","params":["<<BODY>>",{"encoding":"base64","skipPreflight":true},{"mevProtect":false}]}''
      in http_cfg host 443 ''/'' host (HeaderAuth ''api_key'' token) body)\<close>

definition stellium :: "bytes \<Rightarrow> provider_config" where
  \<open>stellium token =
     (let host = ''tx.stellium.io'';
          body = ''{"jsonrpc":"2.0","id":1,"method":"sendTransaction","params":["<<BODY>>",{"encoding":"base64"}]}''
      in http_cfg host 443 (''/'' @ token) host NoAuth body)\<close>

definition lightspeed :: "bytes \<Rightarrow> provider_config" where
  \<open>lightspeed token =
     (let host = ''solana.lightspeed.supply'';
          body = ''{"jsonrpc":"2.0","id":1,"method":"sendTransaction","params":["<<BODY>>",{"encoding":"base64","skipPreflight":true,"preflightCommitment":"processed","maxRetries":0}]}''
      in http_cfg host 443 ''/'' host (UrlParamAuth ''api_key'' token) body)\<close>

definition helius :: "bytes \<Rightarrow> provider_config" where
  \<open>helius token =
     (let host = ''mainnet.helius-rpc.com'';
          body = ''{"jsonrpc":"2.0","id":1,"method":"sendTransaction","params":["<<BODY>>",{"encoding":"base64","skipPreflight":true,"maxRetries":0}]}''
      in http_cfg host 443 ''/'' host (UrlParamAuth ''api-key'' token) body)\<close>

section \<open>QUIC providers\<close>

definition quic_cfg ::
  "bytes \<Rightarrow> bytes \<Rightarrow> socket_addr \<Rightarrow> quic_auth \<Rightarrow> quic_profile \<Rightarrow> provider_config" where
  "quic_cfg hst server_name addr a profile =
     \<lparr>pc_protocol = Quic_Protocol,
      pc_endpoint = \<lparr>ep_host = hst, ep_port = sa_port addr, ep_path = [], ep_server_name = server_name\<rparr>,
      pc_quic_endpoint = Some \<lparr>qe_addr = addr, qe_server_name = server_name\<rparr>,
      pc_quic_profile = Some profile, pc_quic_auth = Some a, pc_auth = NoAuth,
      pc_max_body = MAX_BODY, pc_body_template = [], pc_codec = json_rpc_parse\<rparr>"

definition soyas :: "socket_addr \<Rightarrow> bytes \<Rightarrow> provider_config" where
  "soyas addr keypair =
     quic_cfg ''soyas-landing.solana.io'' ''soyas-landing'' addr (Ed25519Keypair keypair) profile_soyas"

definition speedlanding :: "socket_addr \<Rightarrow> bytes \<Rightarrow> provider_config" where
  "speedlanding addr keypair =
     quic_cfg ''speed-landing.solana.io'' ''speed-landing'' addr (Ed25519Keypair keypair) profile_speedlanding"

definition falcon_quic :: "socket_addr \<Rightarrow> bytes \<Rightarrow> provider_config" where
  "falcon_quic addr api_key =
     quic_cfg ''fra.falcon.wtf'' ''falcon'' addr (FalconApiKey api_key) profile_falcon"

end
