(* ===== verification/Quic.thy ===== *)
theory Quic
  imports Conn
begin

text \<open>
  The QUIC engine, \<open>protocol/quic.rs\<close>: a socket and a state machine of the crate \<open>quinn_proto\<close>,
  which does no I/O of its own. The crate's endpoint \<open>'ep\<close>, connection \<open>'cn\<close>, client configuration
  \<open>'cc\<close> and the events between the two (\<open>'ee\<close> to the endpoint, \<open>'ce\<close> to the connection) are types
  of their own; its calls are the record \<open>quinn\<close>.
\<close>

section \<open>The state machine's interface\<close>

text \<open>
  A transmission: how many bytes of the buffer it takes and, when it holds several datagrams,
  the size of each but the last.
\<close>

record transmit =
  tr_size :: nat
  tr_segment_size :: "nat option"

datatype 'ce datagram_event = ConnectionEvent 'ce | Response transmit | NewConnection

datatype conn_event = Connected | ConnectionLost bytes | OtherEvent

text \<open>
  \<open>poll_transmit now max_datagrams buf\<close> and \<open>handle\<close> append to the buffer they are given. The error
  values are the texts the engine formats into its own errors.
\<close>

record ('ep, 'cn, 'cc, 'ee, 'ce) quinn =
  ep_connect :: "nat \<Rightarrow> 'cc \<Rightarrow> socket_addr \<Rightarrow> bytes \<Rightarrow> 'ep \<Rightarrow> (nat \<times> 'cn, bytes) res \<times> 'ep"
  ep_handle :: "nat \<Rightarrow> socket_addr \<Rightarrow> bytes \<Rightarrow> bytes \<Rightarrow> 'ep \<Rightarrow> 'ce datagram_event option \<times> bytes \<times> 'ep"
  ep_handle_event :: "nat \<Rightarrow> 'ee \<Rightarrow> 'ep \<Rightarrow> 'ce option \<times> 'ep"
  poll_transmit :: "nat \<Rightarrow> nat \<Rightarrow> bytes \<Rightarrow> 'cn \<Rightarrow> transmit option \<times> bytes \<times> 'cn"
  poll_endpoint_events :: "'cn \<Rightarrow> 'ee option \<times> 'cn"
  handle_event :: "'ce \<Rightarrow> 'cn \<Rightarrow> 'cn"
  handle_timeout :: "nat \<Rightarrow> 'cn \<Rightarrow> 'cn"
  poll_timeout :: "'cn \<Rightarrow> nat option \<times> 'cn"
  poll_event :: "'cn \<Rightarrow> conn_event option \<times> 'cn"
  cn_is_closed :: "'cn \<Rightarrow> bool"
  cn_is_drained :: "'cn \<Rightarrow> bool"
  cn_is_handshaking :: "'cn \<Rightarrow> bool"
  open_uni :: "'cn \<Rightarrow> nat option \<times> 'cn"
  write_chunks :: "nat \<Rightarrow> bytes \<Rightarrow> 'cn \<Rightarrow> (nat, bytes) res \<times> 'cn"
  finish :: "nat \<Rightarrow> 'cn \<Rightarrow> (unit, unit) res \<times> 'cn"

text \<open>What the engine runs on: the system calls, the clock, a fresh endpoint and the text of an I/O error.\<close>

record ('ep, 'cn, 'cc, 'ee, 'ce, 'w) quic_env =
  qn :: "('ep, 'cn, 'cc, 'ee, 'ce) quinn"
  os :: "'w libc_ops"
  instant_now :: "'w \<Rightarrow> nat \<times> 'w"
  endpoint_new :: "'w \<Rightarrow> 'ep \<times> 'w"
  display_io :: "io_error \<Rightarrow> bytes"

record ('ep, 'cn) quic_engine =
  ge_endpoint :: 'ep
  ge_connection :: "'cn option"
  ge_conn_handle :: nat
  ge_fd :: fd
  ge_remote :: socket_addr
  ge_send_buf :: bytes
  ge_resp_buf :: bytes
  ge_next_timeout :: "nat option"

section \<open>Moving datagrams\<close>

text \<open>The \<open>while let\<close> loop around \<open>poll_transmit\<close>, the same in three functions of the source.\<close>

partial_function (option) transmit_loop ::
  "('ep, 'cn, 'cc, 'ee, 'ce, 'w) quic_env \<Rightarrow> fd \<Rightarrow> socket_addr \<Rightarrow> nat \<Rightarrow> nat \<Rightarrow> bytes \<times> 'cn \<times> 'w
     \<Rightarrow> ((unit, transport_error) res \<times> bytes \<times> 'cn \<times> 'w) option" where
  "transmit_loop V fd remote now k x =
     (case x of (bf, c, w) \<Rightarrow>
      case poll_transmit (qn V) now k bf c of (t, bf, c) \<Rightarrow>
      (case t of
         None \<Rightarrow> Some (Ok (), bf, c, w)
       | Some t \<Rightarrow>
         if tr_size t \<le> length bf then
           transmit_loop V fd remote now k ([], c, snd (udp_sendto (os V) fd remote (take (tr_size t) bf) w))
         else Some (Panic, bf, c, w)))"

definition run_transmits ::
  "('ep, 'cn, 'cc, 'ee, 'ce, 'w) quic_env \<Rightarrow> fd \<Rightarrow> socket_addr \<Rightarrow> nat \<Rightarrow> nat \<Rightarrow> bytes \<times> 'cn \<times> 'w
     \<Rightarrow> (unit, transport_error) res \<times> bytes \<times> 'cn \<times> 'w" where
  "run_transmits V fd remote now k x =
     (case transmit_loop V fd remote now k x of None \<Rightarrow> (Hang, x) | Some y \<Rightarrow> y)"

partial_function (option) endpoint_events_loop ::
  "('ep, 'cn, 'cc, 'ee, 'ce, 'w) quic_env \<Rightarrow> nat \<Rightarrow> 'ep \<times> 'cn \<Rightarrow> ('ep \<times> 'cn) option" where
  "endpoint_events_loop V h x =
     (case x of (ep, c) \<Rightarrow>
      case poll_endpoint_events (qn V) c of (e, c) \<Rightarrow>
      (case e of
         None \<Rightarrow> Some (ep, c)
       | Some ev \<Rightarrow>
         (case ep_handle_event (qn V) h ev ep of (r, ep) \<Rightarrow>
            endpoint_events_loop V h
              (ep, case r of Some cev \<Rightarrow> handle_event (qn V) cev c | None \<Rightarrow> c))))"

definition run_endpoint_events ::
  "('ep, 'cn, 'cc, 'ee, 'ce, 'w) quic_env \<Rightarrow> nat \<Rightarrow> 'ep \<times> 'cn \<Rightarrow> (unit, transport_error) res \<times> 'ep \<times> 'cn" where
  "run_endpoint_events V h x =
     (case endpoint_events_loop V h x of None \<Rightarrow> (Hang, x) | Some y \<Rightarrow> (Ok (), y))"

definition recv_dgram :: "'w libc_ops \<Rightarrow> fd \<Rightarrow> nat \<Rightarrow> 'w \<Rightarrow> bytes \<times> 'w" where
  "recv_dgram L fd len w =
     (case c_recvfrom L fd len w of ((n, errno, bs), w) \<Rightarrow> if n > 0 then (bs, w) else ([], w))"

definition RECV_LEN :: nat where
  "RECV_LEN = 65535"

section \<open>Engine operations\<close>

definition drain_transmits ::
  "('ep, 'cn, 'cc, 'ee, 'ce, 'w) quic_env \<Rightarrow> nat \<Rightarrow> ('ep, 'cn) quic_engine \<times> 'w
     \<Rightarrow> (unit, transport_error) res \<times> ('ep, 'cn) quic_engine \<times> 'w" where
  "drain_transmits V now = (\<lambda>(g, w).
     case ge_connection g of
       None \<Rightarrow> (Ok (), g, w)
     | Some c \<Rightarrow>
       (case run_transmits V (ge_fd g) (ge_remote g) now 8 ([], c, w) of (r, bf, c, w) \<Rightarrow>
          (r, g\<lparr>ge_send_buf := bf, ge_connection := Some c\<rparr>, w)))"

definition refresh_timeout ::
  "('ep, 'cn, 'cc, 'ee, 'ce, 'w) quic_env \<Rightarrow> ('ep, 'cn) quic_engine \<Rightarrow> ('ep, 'cn) quic_engine" where
  "refresh_timeout V g =
     (case ge_connection g of
        None \<Rightarrow> g\<lparr>ge_next_timeout := None\<rparr>
      | Some c \<Rightarrow>
        (case poll_timeout (qn V) c of (t, c) \<Rightarrow> g\<lparr>ge_connection := Some c, ge_next_timeout := t\<rparr>))"

definition engine_send_tx ::
  "('ep, 'cn, 'cc, 'ee, 'ce, 'w) quic_env \<Rightarrow> bytes \<Rightarrow> nat \<Rightarrow> ('ep, 'cn) quic_engine \<Rightarrow> 'w
     \<Rightarrow> (unit, transport_error) res \<times> ('ep, 'cn) quic_engine \<times> 'w" where
  "engine_send_tx V tx now g w =
     (case ge_connection g of
        None \<Rightarrow> (Err (Quic ''connection closed''), g, w)
      | Some c \<Rightarrow>
        if cn_is_closed (qn V) c \<or> cn_is_drained (qn V) c then (Err (Quic ''connection closed''), g, w)
        else case open_uni (qn V) c of (s, c) \<Rightarrow>
        (case s of
           None \<Rightarrow> (Err (Quic ''stream limit reached''), g\<lparr>ge_connection := Some c\<rparr>, w)
         | Some sid \<Rightarrow>
           (case write_chunks (qn V) sid tx c of (r, c) \<Rightarrow>
            bind_st (map_err (\<lambda>e. Quic (''write: '' @ e)) r, g\<lparr>ge_connection := Some c\<rparr>, w) (\<lambda>written (g, w).
            if written < length tx then (Err (Quic ''partial write''), g, w)
            else
              bind_st (drain_transmits V now (g\<lparr>ge_connection := Some (snd (finish (qn V) sid c))\<rparr>, w))
                (\<lambda>_ (g, w). (Ok (), refresh_timeout V g, w))))))"

definition handle_datagram_event ::
  "('ep, 'cn, 'cc, 'ee, 'ce, 'w) quic_env \<Rightarrow> fd \<Rightarrow> socket_addr \<Rightarrow> 'ce datagram_event \<Rightarrow> bytes \<Rightarrow> 'cn \<times> 'w
     \<Rightarrow> (unit, transport_error) res \<times> 'cn \<times> 'w" where
  "handle_datagram_event V fd remote ev resp_buf = (\<lambda>(c, w).
     case ev of
       ConnectionEvent cev \<Rightarrow> (Ok (), handle_event (qn V) cev c, w)
     | Response t \<Rightarrow>
       if tr_size t \<le> length resp_buf
       then (Ok (), c, snd (udp_sendto (os V) fd remote (take (tr_size t) resp_buf) w))
       else (Panic, c, w)
     | NewConnection \<Rightarrow> (Ok (), c, w))"

text \<open>
  \<open>recv_once\<close>. The connection is only absent in an engine that \<open>connect\<close> did not make; then a
  response of the endpoint is still sent.
\<close>

definition handle_datagram_unconnected ::
  "('ep, 'cn, 'cc, 'ee, 'ce, 'w) quic_env \<Rightarrow> fd \<Rightarrow> socket_addr \<Rightarrow> 'ce datagram_event \<Rightarrow> bytes \<Rightarrow> 'w
     \<Rightarrow> (unit, transport_error) res \<times> 'w" where
  "handle_datagram_unconnected V fd remote ev resp_buf w =
     (case ev of
        Response t \<Rightarrow>
          if tr_size t \<le> length resp_buf
          then (Ok (), snd (udp_sendto (os V) fd remote (take (tr_size t) resp_buf) w))
          else (Panic, w)
      | _ \<Rightarrow> (Ok (), w))"

definition recv_once ::
  "('ep, 'cn, 'cc, 'ee, 'ce, 'w) quic_env \<Rightarrow> nat \<Rightarrow> ('ep, 'cn) quic_engine \<times> 'w
     \<Rightarrow> (unit, transport_error) res \<times> ('ep, 'cn) quic_engine \<times> 'w" where
  "recv_once V now = (\<lambda>(g, w).
     case recv_dgram (os V) (ge_fd g) RECV_LEN w of (data, w) \<Rightarrow>
     if data = [] then (Ok (), g, w)
     else case ep_handle (qn V) now (ge_remote g) data [] (ge_endpoint g) of (ev, resp_buf, ep) \<Rightarrow>
     let g = g\<lparr>ge_endpoint := ep, ge_resp_buf := resp_buf\<rparr>
     in case ge_connection g of
          None \<Rightarrow>
            (case ev of
               None \<Rightarrow> (Ok (), g, w)
             | Some ev \<Rightarrow>
               (case handle_datagram_unconnected V (ge_fd g) (ge_remote g) ev resp_buf w of (r, w) \<Rightarrow> (r, g, w)))
        | Some c \<Rightarrow>
          (case (case ev of None \<Rightarrow> (Ok (), c, w)
                 | Some ev \<Rightarrow> handle_datagram_event V (ge_fd g) (ge_remote g) ev resp_buf (c, w)) of (r, c, w) \<Rightarrow>
           bind_st (r, g\<lparr>ge_connection := Some c\<rparr>, w) (\<lambda>_ (g, w).
           case run_endpoint_events V (ge_conn_handle g) (ge_endpoint g, c) of (r, ep, c) \<Rightarrow>
             (r, g\<lparr>ge_endpoint := ep, ge_connection := Some c\<rparr>, w))))"

definition drive_timeout ::
  "('ep, 'cn, 'cc, 'ee, 'ce, 'w) quic_env \<Rightarrow> nat \<Rightarrow> ('ep, 'cn) quic_engine \<times> 'w
     \<Rightarrow> (unit, transport_error) res \<times> ('ep, 'cn) quic_engine \<times> 'w" where
  "drive_timeout V now = (\<lambda>(g, w).
     case ge_next_timeout g of
       None \<Rightarrow> (Ok (), g, w)
     | Some deadline \<Rightarrow>
       if now < deadline then (Ok (), g, w)
       else drain_transmits V now
              (g\<lparr>ge_connection := map_option (handle_timeout (qn V) now) (ge_connection g)\<rparr>, w))"

definition engine_drive ::
  "('ep, 'cn, 'cc, 'ee, 'ce, 'w) quic_env \<Rightarrow> nat \<Rightarrow> ('ep, 'cn) quic_engine \<Rightarrow> 'w
     \<Rightarrow> (unit, transport_error) res \<times> ('ep, 'cn) quic_engine \<times> 'w" where
  "engine_drive V now g w =
     bind_st (recv_once V now (g, w)) (\<lambda>_ x.
     bind_st (drive_timeout V now x) (\<lambda>_ x.
     bind_st (drain_transmits V now x) (\<lambda>_ (g, w). (Ok (), refresh_timeout V g, w))))"

definition is_closed :: "('ep, 'cn, 'cc, 'ee, 'ce, 'w) quic_env \<Rightarrow> ('ep, 'cn) quic_engine \<Rightarrow> bool" where
  "is_closed V g =
     (case ge_connection g of
        None \<Rightarrow> True
      | Some c \<Rightarrow> cn_is_closed (qn V) c \<or> cn_is_drained (qn V) c)"

section \<open>The handshake\<close>

definition drain_handshake ::
  "('ep, 'cn, 'cc, 'ee, 'ce, 'w) quic_env \<Rightarrow> fd \<Rightarrow> socket_addr \<Rightarrow> 'cn \<times> 'w
     \<Rightarrow> (unit, transport_error) res \<times> 'cn \<times> 'w" where
  "drain_handshake V fd addr = (\<lambda>(c, w).
     case instant_now V w of (now, w) \<Rightarrow>
     case run_transmits V fd addr now 1 ([], c, w) of (r, _, c, w) \<Rightarrow> (r, c, w))"

text \<open>The event loop of the handshake: \<open>Some\<close> when it returns from the function.\<close>

partial_function (option) event_loop ::
  "('ep, 'cn, 'cc, 'ee, 'ce, 'w) quic_env \<Rightarrow> fd \<Rightarrow> socket_addr \<Rightarrow> 'cn \<times> 'w
     \<Rightarrow> ((unit, transport_error) res option \<times> 'cn \<times> 'w) option" where
  "event_loop V fd addr x =
     (case x of (c, w) \<Rightarrow>
      case poll_event (qn V) c of (e, c) \<Rightarrow>
      (case e of
         None \<Rightarrow> Some (None, c, w)
       | Some ev \<Rightarrow>
         (case ev of
            Connected \<Rightarrow> (case drain_handshake V fd addr (c, w) of (r, c, w) \<Rightarrow> Some (Some r, c, w))
          | ConnectionLost reason \<Rightarrow> Some (Some (Err (Quic (''handshake rejected: '' @ reason))), c, w)
          | OtherEvent \<Rightarrow> event_loop V fd addr (c, w))))"

definition receive_step ::
  "('ep, 'cn, 'cc, 'ee, 'ce, 'w) quic_env \<Rightarrow> fd \<Rightarrow> socket_addr \<Rightarrow> nat \<Rightarrow> 'ep \<times> 'cn \<times> 'w
     \<Rightarrow> (unit, transport_error) res \<times> 'ep \<times> 'cn \<times> 'w" where
  "receive_step V fd addr now = (\<lambda>(ep, c, w).
     case recv_dgram (os V) fd RECV_LEN w of (data, w) \<Rightarrow>
     if data = [] then (Ok (), ep, c, w)
     else case ep_handle (qn V) now addr data [] ep of (ev, resp_buf, ep) \<Rightarrow>
       (case ev of
          None \<Rightarrow> (Ok (), ep, c, w)
        | Some ev \<Rightarrow>
          (case handle_datagram_event V fd addr ev resp_buf (c, w) of (r, c, w) \<Rightarrow> (r, ep, c, w))))"

definition timeout_step ::
  "('ep, 'cn, 'cc, 'ee, 'ce, 'w) quic_env \<Rightarrow> nat \<Rightarrow> 'cn \<Rightarrow> 'cn" where
  "timeout_step V now c =
     (case poll_timeout (qn V) c of (t, c) \<Rightarrow>
      case t of
        Some t \<Rightarrow> if now \<ge> t then handle_timeout (qn V) now c else c
      | None \<Rightarrow> c)"

text \<open>One turn of the loop. The result is \<open>None\<close> when the loop goes on.\<close>

definition handshake_turn ::
  "('ep, 'cn, 'cc, 'ee, 'ce, 'w) quic_env \<Rightarrow> fd \<Rightarrow> socket_addr \<Rightarrow> nat \<Rightarrow> nat \<Rightarrow> 'ep \<times> 'cn \<times> 'w
     \<Rightarrow> (unit option, transport_error) res \<times> 'ep \<times> 'cn \<times> 'w" where
  "handshake_turn V fd addr h deadline = (\<lambda>(ep, c, w).
     case instant_now V w of (now, w) \<Rightarrow>
     if now > deadline then (Err (Quic ''handshake timeout (5s)''), ep, c, w)
     else case run_transmits V fd addr now 1 ([], c, w) of (r, _, c, w) \<Rightarrow>
     bind_st (r, ep, c, w) (\<lambda>_ x.
     bind_st (receive_step V fd addr now x) (\<lambda>_ (ep, c, w).
     case run_endpoint_events V h (ep, timeout_step V now c) of (r, ep, c) \<Rightarrow>
     bind_st (r, ep, c, w) (\<lambda>_ (ep, c, w).
     case event_loop V fd addr (c, w) of
       None \<Rightarrow> (Hang, ep, c, w)
     | Some (Some r, c, w) \<Rightarrow> bind_st (r, ep, c, w) (\<lambda>_ x. (Ok (Some ()), x))
     | Some (None, c, w) \<Rightarrow>
       if \<not> cn_is_handshaking (qn V) c
       then (case drain_handshake V fd addr (c, w) of (r, c, w) \<Rightarrow>
               bind_st (r, ep, c, w) (\<lambda>_ x. (Ok (Some ()), x)))
       else (Ok None, ep, c, w)))))"

partial_function (option) quic_handshake_loop ::
  "('ep, 'cn, 'cc, 'ee, 'ce, 'w) quic_env \<Rightarrow> fd \<Rightarrow> socket_addr \<Rightarrow> nat \<Rightarrow> nat \<Rightarrow> 'ep \<times> 'cn \<times> 'w
     \<Rightarrow> ((unit, transport_error) res \<times> 'ep \<times> 'cn \<times> 'w) option" where
  "quic_handshake_loop V fd addr h deadline x =
     (case handshake_turn V fd addr h deadline x of (r, x') \<Rightarrow>
        (case r of
           Ok None \<Rightarrow> quic_handshake_loop V fd addr h deadline x'
         | Ok (Some u) \<Rightarrow> Some (Ok u, x')
         | Err e \<Rightarrow> Some (Err e, x')
         | Panic \<Rightarrow> Some (Panic, x')
         | Hang \<Rightarrow> Some (Hang, x')))"

definition quic_handshake ::
  "('ep, 'cn, 'cc, 'ee, 'ce, 'w) quic_env \<Rightarrow> fd \<Rightarrow> socket_addr \<Rightarrow> nat \<Rightarrow> 'ep \<times> 'cn \<times> 'w
     \<Rightarrow> (unit, transport_error) res \<times> 'ep \<times> 'cn \<times> 'w" where
  "quic_handshake V fd addr h = (\<lambda>(ep, c, w).
     case instant_now V w of (now, w) \<Rightarrow>
     case quic_handshake_loop V fd addr h (now + 5 * 1000000000) (ep, c, w) of
       None \<Rightarrow> (Hang, ep, c, w)
     | Some y \<Rightarrow> y)"

definition quic_connect ::
  "('ep, 'cn, 'cc, 'ee, 'ce, 'w) quic_env \<Rightarrow> 'cc \<Rightarrow> socket_addr \<Rightarrow> bytes \<Rightarrow> 'w
     \<Rightarrow> (('ep, 'cn) quic_engine, transport_error) res \<times> 'w" where
  "quic_connect V client_cfg endpoint_addr server_name w =
     (case udp_bind (os V) ''0.0.0.0:0'' w of (r, w) \<Rightarrow>
      bind_st (map_err (\<lambda>e. Quic (''bind: '' @ display_io V e)) r, w) (\<lambda>fd w.
      case set_nonblocking (os V) fd w of (r, w) \<Rightarrow>
      bind_st (map_err (\<lambda>e. Quic (''set_nonblocking: '' @ display_io V e)) r, w) (\<lambda>_ w.
      case endpoint_new V w of (ep, w) \<Rightarrow>
      case instant_now V w of (now, w) \<Rightarrow>
      case ep_connect (qn V) now client_cfg endpoint_addr server_name ep of (r, ep) \<Rightarrow>
      bind_st (map_err (\<lambda>e. Quic (''connect: '' @ e)) r, w) (\<lambda>(h, c) w.
      case quic_handshake V fd endpoint_addr h (ep, c, w) of (r, ep, c, w) \<Rightarrow>
      bind_st (r, w) (\<lambda>_ w.
        (Ok (refresh_timeout V
              \<lparr>ge_endpoint = ep, ge_connection = Some c, ge_conn_handle = h, ge_fd = fd,
               ge_remote = endpoint_addr, ge_send_buf = [], ge_resp_buf = [], ge_next_timeout = None\<rparr>), w))))))"

text \<open>The engine as the connection sees it.\<close>

definition quic_ops_of ::
  "('ep, 'cn, 'cc, 'ee, 'ce, 'w) quic_env \<Rightarrow> (('ep, 'cn) quic_engine, 'w) quic_ops" where
  "quic_ops_of V = \<lparr>clock = instant_now V, qe_send_tx = engine_send_tx V, qe_drive = engine_drive V,
     qe_is_closed = is_closed V\<rparr>"

section \<open>Everything that is ready is sent\<close>

text \<open>\<open>emits Q now k c ds c'\<close>: polling the connection \<open>c\<close> until it has nothing more to send yields the transmissions \<open>ds\<close>.\<close>

inductive emits ::
  "('ep, 'cn, 'cc, 'ee, 'ce) quinn \<Rightarrow> nat \<Rightarrow> nat \<Rightarrow> 'cn \<Rightarrow> bytes list \<Rightarrow> 'cn \<Rightarrow> bool" for Q now k where
  quiet: "poll_transmit Q now k [] c = (None, b, c') \<Longrightarrow> emits Q now k c [] c'"
| one: "poll_transmit Q now k [] c = (Some t, b, c1) \<Longrightarrow> tr_size t \<le> length b \<Longrightarrow> emits Q now k c1 ds c'
    \<Longrightarrow> emits Q now k c (take (tr_size t) b # ds) c'"

definition send_each :: "'w libc_ops \<Rightarrow> fd \<Rightarrow> socket_addr \<Rightarrow> bytes list \<Rightarrow> 'w \<Rightarrow> 'w" where
  "send_each L fd remote ds w = fold (\<lambda>d w. snd (udp_sendto L fd remote d w)) ds w"

lemma transmit_loop_emits:
  assumes "emits (qn V) now k c ds c'"
  shows "\<exists>b. transmit_loop V fd remote now k ([], c, w) = Some (Ok (), b, c', send_each (os V) fd remote ds w)"
  using assms
proof (induction arbitrary: w rule: emits.induct)
  case (quiet c b c')
  then show ?case by (subst transmit_loop.simps) (simp add: send_each_def)
next
  case (one c t b c1 ds c')
  from one.IH [of "snd (udp_sendto (os V) fd remote (take (tr_size t) b) w)"] one.hyps show ?case
    by (subst transmit_loop.simps) (simp add: send_each_def)
qed

lemma drain_transmits_emits:
  assumes "ge_connection g = Some c" and "emits (qn V) now 8 c ds c'"
  shows "\<exists>b. drain_transmits V now (g, w) = (Ok (), g\<lparr>ge_send_buf := b, ge_connection := Some c'\<rparr>,
    send_each (os V) (ge_fd g) (ge_remote g) ds w)"
  using transmit_loop_emits [OF assms(2), of "ge_fd g" "ge_remote g" w] assms(1)
  by (auto simp: drain_transmits_def run_transmits_def)

section \<open>Progress\<close>

text \<open>
  The clock never goes back and does not stand still for ever: \<open>tm\<close> is the last reading and \<open>st\<close>
  bounds the readings that may still return the same value. Receiving and sending do not turn it
  back either.
\<close>

definition later :: "('w \<Rightarrow> nat) \<Rightarrow> ('w \<Rightarrow> nat) \<Rightarrow> 'w \<Rightarrow> 'w \<Rightarrow> bool" where
  "later tm st w w' \<longleftrightarrow> tm w < tm w' \<or> tm w = tm w' \<and> st w' \<le> st w"

definition steady_clock ::
  "('ep, 'cn, 'cc, 'ee, 'ce, 'w) quic_env \<Rightarrow> ('w \<Rightarrow> nat) \<Rightarrow> ('w \<Rightarrow> nat) \<Rightarrow> bool" where
  "steady_clock V tm st \<longleftrightarrow>
     (\<forall>w now w'. instant_now V w = (now, w') \<longrightarrow>
        now = tm w' \<and> (tm w < tm w' \<or> tm w = tm w' \<and> st w' < st w)) \<and>
     (\<forall>fd len w r w'. c_recvfrom (os V) fd len w = (r, w') \<longrightarrow> later tm st w w') \<and>
     (\<forall>fd sa bs w r w'. c_sendto (os V) fd sa bs w = (r, w') \<longrightarrow> later tm st w w')"

text \<open>
  A connection runs out of things to report: each kind of polling is bounded by a measure. A
  transmission is never longer than what was put into the buffer.
\<close>

definition settles ::
  "('ep, 'cn, 'cc, 'ee, 'ce) quinn \<Rightarrow> ('cn \<Rightarrow> nat) \<Rightarrow> ('cn \<Rightarrow> nat) \<Rightarrow> ('cn \<Rightarrow> nat) \<Rightarrow> bool" where
  "settles Q mt me mp \<longleftrightarrow>
     (\<forall>now k b c t b' c'. poll_transmit Q now k b c = (Some t, b', c') \<longrightarrow> mt c' < mt c \<and> tr_size t \<le> length b') \<and>
     (\<forall>c e c'. poll_endpoint_events Q c = (Some e, c') \<longrightarrow> me c' < me c \<and>
        (\<forall>h ep cev ep'. ep_handle_event Q h e ep = (Some cev, ep') \<longrightarrow> me (handle_event Q cev c') < me c)) \<and>
     (\<forall>c e c'. poll_event Q c = (Some e, c') \<longrightarrow> mp c' < mp c) \<and>
     (\<forall>now a d b ep t b' ep'. ep_handle Q now a d b ep = (Some (Response t), b', ep') \<longrightarrow> tr_size t \<le> length b')"

lemma settlesD:
  assumes "settles Q mt me mp"
  shows "poll_transmit Q now k b c = (Some t, b', c') \<Longrightarrow> mt c' < mt c"
    and "poll_transmit Q now k b c = (Some t, b', c') \<Longrightarrow> tr_size t \<le> length b'"
    and "poll_endpoint_events Q c = (Some e, c') \<Longrightarrow> me c' < me c"
    and "poll_endpoint_events Q c = (Some e, c') \<Longrightarrow> ep_handle_event Q h e ep = (Some cev, ep')
      \<Longrightarrow> me (handle_event Q cev c') < me c"
    and "poll_event Q c = (Some ev, c') \<Longrightarrow> mp c' < mp c"
    and "ep_handle Q now a d b ep = (Some (Response t), b', ep') \<Longrightarrow> tr_size t \<le> length b'"
  using assms unfolding settles_def by metis+

lemma later_refl [simp]: "later tm st w w"
  by (simp add: later_def)

lemma later_trans [trans]: "later tm st w w1 \<Longrightarrow> later tm st w1 w2 \<Longrightarrow> later tm st w w2"
  by (auto simp: later_def)

lemma later_sendto: "steady_clock V tm st \<Longrightarrow> later tm st w (snd (udp_sendto (os V) fd a bs w))"
  unfolding steady_clock_def udp_sendto_def by (auto split: prod.split)

lemma later_now:
  assumes "steady_clock V tm st" and "instant_now V w = (now, w')"
  shows "later tm st w w'" "now = tm w'" "tm w < tm w' \<or> tm w = tm w' \<and> st w' < st w"
  using assms unfolding steady_clock_def later_def by (meson less_imp_le)+

lemma later_recv: "steady_clock V tm st \<Longrightarrow> recv_dgram (os V) fd len w = (bs, w') \<Longrightarrow> later tm st w w'"
  unfolding steady_clock_def recv_dgram_def by (auto split: prod.splits if_splits)


lemma transmit_loop_returns:
  assumes "steady_clock V tm st" and "settles (qn V) mt me mp"
  shows "\<exists>b' c' w'. transmit_loop V fd a now k (b, c, w) = Some (Ok (), b', c', w') \<and> later tm st w w'"
proof (induction "mt c" arbitrary: b c w rule: less_induct)
  case less
  obtain t b1 c1 where p: "poll_transmit (qn V) now k b c = (t, b1, c1)" by (metis prod.exhaust)
  show ?case
  proof (cases t)
    case None
    with p show ?thesis by (subst transmit_loop.simps) simp
  next
    case (Some t')
    with p settlesD(1,2) [OF assms(2)] have m: "mt c1 < mt c" "tr_size t' \<le> length b1" by blast+
    let ?w = "snd (udp_sendto (os V) fd a (take (tr_size t') b1) w)"
    obtain b' c' w' where "transmit_loop V fd a now k ([], c1, ?w) = Some (Ok (), b', c', w')" "later tm st ?w w'"
      using less.hyps [OF m(1)] by blast
    moreover have "later tm st w ?w" by (rule later_sendto [OF assms(1)])
    ultimately show ?thesis
      using p Some m(2) later_trans by (subst transmit_loop.simps) auto
  qed
qed

lemma run_transmits_returns:
  assumes "steady_clock V tm st" and "settles (qn V) mt me mp"
  shows "\<exists>b' c' w'. run_transmits V fd a now k (b, c, w) = (Ok (), b', c', w') \<and> later tm st w w'"
  using transmit_loop_returns [OF assms, of fd a now k b c w] by (auto simp: run_transmits_def)

lemma endpoint_events_return:
  assumes "settles (qn V) mt me mp"
  shows "\<exists>y. endpoint_events_loop V h (ep, c) = Some y"
proof (induction "me c" arbitrary: ep c rule: less_induct)
  case less
  obtain e c1 where p: "poll_endpoint_events (qn V) c = (e, c1)" by force
  show ?case
  proof (cases e)
    case None
    with p show ?thesis by (subst endpoint_events_loop.simps) simp
  next
    case (Some ev)
    obtain r ep1 where h: "ep_handle_event (qn V) h ev ep = (r, ep1)" by force
    let ?c = "case r of Some cev \<Rightarrow> handle_event (qn V) cev c1 | None \<Rightarrow> c1"
    have "me ?c < me c" using settlesD(3,4) [OF assms] p Some h by (cases r) auto
    from less.hyps [OF this] p Some h show ?thesis by (subst endpoint_events_loop.simps) simp
  qed
qed

lemma drain_handshake_returns:
  assumes "steady_clock V tm st" and "settles (qn V) mt me mp"
  shows "\<exists>c' w'. drain_handshake V fd a (c, w) = (Ok (), c', w') \<and> later tm st w w'"
proof -
  obtain now w1 where n: "instant_now V w = (now, w1)" by force
  obtain b' c' w' where "run_transmits V fd a now 1 ([], c, w1) = (Ok (), b', c', w')" "later tm st w1 w'"
    using run_transmits_returns [OF assms] by blast
  with n later_now(1) [OF assms(1) n] later_trans show ?thesis by (auto simp: drain_handshake_def)
qed

text \<open>An outcome of a QUIC operation that is neither a panic nor a loop.\<close>

fun quic_result :: "('a, transport_error) res \<Rightarrow> bool" where
  "quic_result (Ok _) = True"
| "quic_result (Err e) = (\<exists>m. e = Quic m)"
| "quic_result Panic = False"
| "quic_result Hang = False"

lemma event_loop_returns:
  assumes "steady_clock V tm st" and "settles (qn V) mt me mp"
  shows "\<exists>r c' w'. event_loop V fd a (c, w) = Some (r, c', w') \<and> (\<forall>x. r = Some x \<longrightarrow> quic_result x) \<and> later tm st w w'"
proof (induction "mp c" arbitrary: c rule: less_induct)
  case less
  obtain e c1 where p: "poll_event (qn V) c = (e, c1)" by force
  show ?case
  proof (cases e)
    case None
    with p show ?thesis by (subst event_loop.simps) simp
  next
    case (Some ev)
    with p settlesD(5) [OF assms(2)] have m: "mp c1 < mp c" by blast
    obtain c2 w2 where d: "drain_handshake V fd a (c1, w) = (Ok (), c2, w2)" "later tm st w w2"
      using drain_handshake_returns [OF assms] by blast
    show ?thesis using p Some d less.hyps [OF m] by (cases ev) (subst event_loop.simps, simp)+
  qed
qed

lemma receive_step_returns:
  assumes "steady_clock V tm st" and "settles (qn V) mt me mp"
  shows "\<exists>ep' c' w'. receive_step V fd a now (ep, c, w) = (Ok (), ep', c', w') \<and> later tm st w w'"
proof -
  obtain d w1 where r: "recv_dgram (os V) fd RECV_LEN w = (d, w1)" by force
  obtain e b ep1 where h: "ep_handle (qn V) now a d [] ep = (e, b, ep1)" by (metis prod.exhaust)
  have size: "tr_size t \<le> length b" if "e = Some (Response t)" for t
    using settlesD(6) [OF assms(2)] h that by blast
  have l: "later tm st w w1" by (rule later_recv [OF assms(1) r])
  show ?thesis
  proof (cases "\<exists>t. e = Some (Response t) \<and> d \<noteq> []")
    case True
    then obtain t where t: "e = Some (Response t)" "d \<noteq> []" by blast
    with r h size show ?thesis
      using later_trans [OF l later_sendto [OF assms(1)]]
      by (simp add: receive_step_def handle_datagram_event_def)
  next
    case False
    with r h l show ?thesis
      by (auto simp: receive_step_def handle_datagram_event_def split: option.split datagram_event.split)
  qed
qed


text \<open>A turn that does not end the handshake has read a clock that is not past the deadline.\<close>

lemma handshake_turn_returns:
  assumes "steady_clock V tm st" and "settles (qn V) mt me mp"
  shows "\<exists>r ep' c' w'. handshake_turn V fd a h dl (ep, c, w) = (r, ep', c', w') \<and> quic_result r
    \<and> (r = Ok None \<longrightarrow> tm w < tm w' \<and> tm w \<le> dl \<or> tm w = tm w' \<and> st w' < st w)"
proof -
  obtain now w1 where n: "instant_now V w = (now, w1)" by force
  note now = later_now [OF assms(1) n]
  show ?thesis
  proof (cases "now > dl")
    case True
    with n show ?thesis by (simp add: handshake_turn_def)
  next
    case False
    obtain b2 c2 w2 where 2: "run_transmits V fd a now 1 ([], c, w1) = (Ok (), b2, c2, w2)" "later tm st w1 w2"
      using run_transmits_returns [OF assms] by blast
    obtain ep3 c3 w3 where 3: "receive_step V fd a now (ep, c2, w2) = (Ok (), ep3, c3, w3)" "later tm st w2 w3"
      using receive_step_returns [OF assms] by blast
    obtain ep4 c4 where 4: "run_endpoint_events V h (ep3, timeout_step V now c3) = (Ok (), ep4, c4)"
      using endpoint_events_return [OF assms(2), of h ep3 "timeout_step V now c3"]
      by (auto simp: run_endpoint_events_def)
    obtain r c5 w5 where 5: "event_loop V fd a (c4, w3) = Some (r, c5, w5)" "\<forall>x. r = Some x \<longrightarrow> quic_result x"
        "later tm st w3 w5"
      using event_loop_returns [OF assms] by blast
    obtain c6 w6 where 6: "drain_handshake V fd a (c5, w5) = (Ok (), c6, w6)"
      using drain_handshake_returns [OF assms] by blast
    have "later tm st w1 w5" by (rule later_trans [OF 2(2) later_trans [OF 3(2) 5(3)]])
    then have prog: "tm w < tm w5 \<and> tm w \<le> dl \<or> tm w = tm w5 \<and> st w5 < st w"
      using now(2,3) False by (auto simp: later_def)
    have turn: "handshake_turn V fd a h dl (ep, c, w) =
        (case r of Some r' \<Rightarrow> bind_st (r', ep4, c5, w5) (\<lambda>_ x. (Ok (Some ()), x))
         | None \<Rightarrow> if cn_is_handshaking (qn V) c5 then (Ok None, ep4, c5, w5) else (Ok (Some ()), ep4, c6, w6))"
      using n False 2(1) 3(1) 4 5(1) 6 by (simp add: handshake_turn_def split: option.split)
    show ?thesis
    proof (cases r)
      case None
      with turn prog show ?thesis by (cases "cn_is_handshaking (qn V) c5") auto
    next
      case (Some r')
      with turn 5(2) show ?thesis by (cases r') auto
    qed
  qed
qed

lemma quic_handshake_loop_returns:
  assumes "steady_clock V tm st" and "settles (qn V) mt me mp"
  shows "\<exists>r y. quic_handshake_loop V fd a h dl (ep, c, w) = Some (r, y) \<and> quic_result r"
proof (induction "(Suc dl - tm w, st w)" arbitrary: ep c w rule: wf_induct_rule [OF wf_lex_prod [OF wf_less_than wf_less_than]])
  case 1
  obtain r ep' c' w' where t: "handshake_turn V fd a h dl (ep, c, w) = (r, ep', c', w')" "quic_result r"
    and p: "r = Ok None \<longrightarrow> tm w < tm w' \<and> tm w \<le> dl \<or> tm w = tm w' \<and> st w' < st w"
    using handshake_turn_returns [OF assms] by blast
  show ?case
  proof (cases "r = Ok None")
    case True
    with p have "((Suc dl - tm w', st w'), (Suc dl - tm w, st w)) \<in> less_than <*lex*> less_than" by auto
    from 1 [OF this] t True show ?thesis by (subst quic_handshake_loop.simps) simp
  next
    case False
    with t show ?thesis
      by (subst quic_handshake_loop.simps) (cases r; auto split: option.split)
  qed
qed

lemma transmit_loop_no_error:
  assumes "transmit_loop V fd a now k x = Some y"
  shows "fst y \<noteq> Err e"
  using assms
proof (rule transmit_loop.raw_induct [where P = "\<lambda>V fd a now k x y. fst y \<noteq> Err e" and xa = "(((((V, fd), a), now), k), x)",
      unfolded prod.case, rotated])
  fix loop V fd a now k x y
  assume IH: "\<And>V fd a now k x y. loop V fd a now k x = Some y \<Longrightarrow> fst y \<noteq> Err e"
    and y: "(case x of (bf, c, w) \<Rightarrow>
      case poll_transmit (qn V) now k bf c of (t, bf, c) \<Rightarrow>
      (case t of
         None \<Rightarrow> Some (Ok (), bf, c, w)
       | Some t \<Rightarrow>
         if tr_size t \<le> length bf then
           loop V fd a now k ([], c, snd (udp_sendto (os V) fd a (take (tr_size t) bf) w))
         else Some (Panic, bf, c, w))) = Some y"
  from y show "fst y \<noteq> Err e"
    by (auto dest: IH split: prod.splits option.splits if_splits)
qed

lemma drain_transmits_no_error: "fst (drain_transmits V now (g, w)) \<noteq> Err e"
proof (cases "ge_connection g")
  case (Some c)
  show ?thesis
  proof (cases "transmit_loop V (ge_fd g) (ge_remote g) now 8 ([], c, w)")
    case None
    with Some show ?thesis by (simp add: drain_transmits_def run_transmits_def)
  next
    case (Some y)
    from transmit_loop_no_error [OF this, of e] Some \<open>ge_connection g = _\<close> show ?thesis
      by (cases y) (simp add: drain_transmits_def run_transmits_def)
  qed
qed (simp add: drain_transmits_def)

section \<open>Properties\<close>

text \<open>A connection that is a queue of datagrams, and a world that is a clock and a log of what was sent.\<close>

definition queue_quinn :: "(unit, bytes list, unit, unit, unit) quinn" where
  "queue_quinn = \<lparr>ep_connect = (\<lambda>_ _ _ _ ep. (Ok (0, []), ep)), ep_handle = (\<lambda>_ _ _ b ep. (None, b, ep)),
     ep_handle_event = (\<lambda>_ _ ep. (None, ep)),
     poll_transmit = (\<lambda>_ _ b c. case c of [] \<Rightarrow> (None, b, []) | d # ds \<Rightarrow>
       (Some \<lparr>tr_size = length d, tr_segment_size = None\<rparr>, b @ d, ds)),
     poll_endpoint_events = (\<lambda>c. (None, c)), handle_event = (\<lambda>_ c. c), handle_timeout = (\<lambda>_ c. c),
     poll_timeout = (\<lambda>c. (None, c)), poll_event = (\<lambda>c. (None, c)), cn_is_closed = (\<lambda>_. False),
     cn_is_drained = (\<lambda>_. False), cn_is_handshaking = (\<lambda>_. True), open_uni = (\<lambda>c. (Some 0, c)),
     write_chunks = (\<lambda>_ tx c. (Ok (length tx), c @ [tx])), finish = (\<lambda>_ c. (Ok (), c))\<rparr>"

definition log_os :: "(nat \<times> bytes list) libc_ops" where
  "log_os = \<lparr>tcp_connect = (\<lambda>_ w. (Ok 3, w)), set_nodelay = (\<lambda>_ w. (Ok (), w)),
     set_nonblocking = (\<lambda>_ w. (Ok (), w)), udp_bind = (\<lambda>_ w. (Ok 4, w)),
     c_send = (\<lambda>_ bs w. ((int (length bs), 0), w)), c_recv = (\<lambda>_ _ w. ((- 1, EAGAIN, []), w)),
     c_recvfrom = (\<lambda>_ _ w. ((- 1, EAGAIN, []), w)),
     c_sendto = (\<lambda>_ _ bs (t, l). ((int (length bs), 0), (t, l @ [bs]))),
     c_sendmsg = (\<lambda>_ _ bs _ w. ((int (length bs), 0), w))\<rparr>"

definition queue_env :: "(unit, bytes list, unit, unit, unit, nat \<times> bytes list) quic_env" where
  "queue_env = \<lparr>qn = queue_quinn, os = log_os, instant_now = (\<lambda>(t, l). (t + 1000000000, (t + 1000000000, l))),
     endpoint_new = (\<lambda>w. ((), w)), display_io = (\<lambda>_. [])\<rparr>"

definition queue_engine :: "bytes list \<Rightarrow> (unit, bytes list) quic_engine" where
  "queue_engine ds = \<lparr>ge_endpoint = (), ge_connection = Some ds, ge_conn_handle = 0, ge_fd = 4,
     ge_remote = V4 [CHR 0x7F, CHR 0x00, CHR 0x00, CHR 0x01] 8009, ge_send_buf = [], ge_resp_buf = [], ge_next_timeout = None\<rparr>"

lemma queue_env_settles: "settles (qn queue_env) length (\<lambda>_. 0) (\<lambda>_. 0)"
  by (auto simp: settles_def queue_env_def queue_quinn_def split: list.splits)

lemma queue_env_clock: "steady_clock queue_env fst (\<lambda>_. 0)"
  by (auto simp: steady_clock_def queue_env_def log_os_def later_def)

text \<open>
  C18. The QUIC handshake always returns: connected, rejected by the peer or after its five
  seconds, and never by a panic or in an endless loop, whatever the peer sends, as long as the
  clock advances and the state machine has finitely many things to report per turn.
\<close>

theorem quic_handshake_returns:
  assumes "steady_clock V tm st" and "settles (qn V) mt me mp"
  shows "\<exists>r y. quic_handshake V fd addr h (ep, c, w) = (r, y) \<and> (r = Ok () \<or> (\<exists>m. r = Err (Quic m)))"
proof -
  obtain now w1 where n: "instant_now V w = (now, w1)" by force
  obtain r y where "quic_handshake_loop V fd addr h (now + 5 * 1000000000) (ep, c, w1) = Some (r, y)" "quic_result r"
    using quic_handshake_loop_returns [OF assms] by blast
  then have "quic_handshake V fd addr h (ep, c, w) = (r, y)" using n by (simp add: quic_handshake_def)
  moreover have "r = Ok () \<or> (\<exists>m. r = Err (Quic m))" using \<open>quic_result r\<close> by (cases r) auto
  ultimately show ?thesis by blast
qed

theorem quic_handshake_returns_witness:
  "\<exists>r y. quic_handshake queue_env 4 (V4 [CHR 0x7F, CHR 0x00, CHR 0x00, CHR 0x01] 8009) 0 ((), [''hello''], (0, [])) = (r, y)
    \<and> (r = Ok () \<or> (\<exists>m. r = Err (Quic m)))"
  by (rule quic_handshake_returns [OF queue_env_clock queue_env_settles])

text \<open>
  C19. A transaction the connection has room for is put on a stream of its own, the stream is
  finished, and every datagram the connection then has ready goes to the remote address, once
  and in the order the connection gives them.
\<close>

theorem quic_send_tx_delivers:
  assumes "ge_connection g = Some c" and "\<not> cn_is_closed (qn V) c" and "\<not> cn_is_drained (qn V) c"
    and "open_uni (qn V) c = (Some sid, c1)"
    and "write_chunks (qn V) sid tx c1 = (Ok n, c2)" and "length tx \<le> n"
    and "emits (qn V) now 8 (snd (finish (qn V) sid c2)) ds c3"
  shows "\<exists>g'. engine_send_tx V tx now g w = (Ok (), g', send_each (os V) (ge_fd g) (ge_remote g) ds w)
    \<and> ge_connection g' = Some (snd (poll_timeout (qn V) c3))
    \<and> ge_next_timeout g' = fst (poll_timeout (qn V) c3)"
proof -
  let ?g = "g\<lparr>ge_connection := Some (snd (finish (qn V) sid c2))\<rparr>"
  have "ge_connection ?g = Some (snd (finish (qn V) sid c2))" by simp
  from drain_transmits_emits [OF this assms(7), of w] obtain b where
    d: "drain_transmits V now (?g, w) = (Ok (), ?g\<lparr>ge_send_buf := b, ge_connection := Some c3\<rparr>,
      send_each (os V) (ge_fd g) (ge_remote g) ds w)" by auto
  with assms(1-6) show ?thesis
    by (simp add: engine_send_tx_def refresh_timeout_def split: prod.split)
qed

theorem quic_send_tx_delivers_witness:
  "\<exists>g'. engine_send_tx queue_env ''tx'' 7 (queue_engine [''ack'']) (0, [])
      = (Ok (), g', (0, [''ack'', ''tx'']))
    \<and> ge_connection g' = Some [] \<and> ge_next_timeout g' = None"
proof -
  have "emits queue_quinn 7 8 [''ack'', ''tx''] [''ack'', ''tx''] []"
    using emits.one [of queue_quinn 7 8 "[''ack'', ''tx'']" "\<lparr>tr_size = 3, tr_segment_size = None\<rparr>" "''ack''" "[''tx'']" "[''tx'']" "[]"]
      emits.one [of queue_quinn 7 8 "[''tx'']" "\<lparr>tr_size = 2, tr_segment_size = None\<rparr>" "''tx''" "[]" "[]" "[]"]
      emits.quiet [of queue_quinn 7 8 "[]" "[]" "[]"]
    by (simp add: queue_quinn_def)
  with quic_send_tx_delivers [of "queue_engine [''ack'']" "[''ack'']" queue_env 0 "[''ack'']" "''tx''" 2
      "[''ack'', ''tx'']" 7 "[''ack'', ''tx'']" "[]" "(0, [])"]
  show ?thesis
    by (simp add: queue_engine_def queue_env_def send_each_def udp_sendto_def log_os_def) (simp add: queue_quinn_def)
qed

text \<open>
  A QUIC send that reports an error has put nothing on the network, and the error is one of
  four: the connection is closed, there is no stream to open, the write failed, or it took only
  part of the transaction.
\<close>

theorem quic_send_tx_error:
  assumes "engine_send_tx V tx now g w = (Err e, g', w')"
  shows "w' = w \<and> (e = Quic ''connection closed'' \<or> e = Quic ''stream limit reached''
    \<or> e = Quic ''partial write'' \<or> (\<exists>m. e = Quic (''write: '' @ m)))"
proof (cases "ge_connection g")
  case (Some c)
  obtain s c1 where o: "open_uni (qn V) c = (s, c1)" by force
  show ?thesis
  proof (cases "cn_is_closed (qn V) c \<or> cn_is_drained (qn V) c \<or> s = None")
    case True
    with assms Some o show ?thesis
      by (cases "cn_is_closed (qn V) c \<or> cn_is_drained (qn V) c") (simp_all add: engine_send_tx_def)
  next
    case False
    then obtain sid where s: "s = Some sid" by blast
    obtain r c2 where wr: "write_chunks (qn V) sid tx c1 = (r, c2)" by force
    let ?g = "g\<lparr>ge_connection := Some (snd (finish (qn V) sid c2))\<rparr>"
    obtain rd g3 w3 where d: "drain_transmits V now (?g, w) = (rd, g3, w3)" by (metis prod.exhaust)
    have "rd \<noteq> Err e'" for e' using drain_transmits_no_error [of V now ?g w e'] d by simp
    moreover have "engine_send_tx V tx now g w =
        bind_st (map_err (\<lambda>e. Quic (''write: '' @ e)) r, g\<lparr>ge_connection := Some c2\<rparr>, w) (\<lambda>n (g', w).
          if n < length tx then (Err (Quic ''partial write''), g', w)
          else bind_st (rd, g3, w3) (\<lambda>_ (g, w). (Ok (), refresh_timeout V g, w)))"
      using Some o False s wr d by (cases r) (simp_all add: engine_send_tx_def)
    ultimately show ?thesis
      using assms by (cases r; cases rd) (auto split: if_splits)
  qed
qed (use assms in \<open>simp add: engine_send_tx_def\<close>)

theorem quic_send_tx_error_witness:
  "\<exists>w'. engine_send_tx (queue_env\<lparr>qn := queue_quinn\<lparr>write_chunks := (\<lambda>_ tx c. (Ok 1, c @ [take 1 tx]))\<rparr>\<rparr>)
        ''tx'' 7 (queue_engine []) (0, [])
      = (Err (Quic ''partial write''), (queue_engine [])\<lparr>ge_connection := Some [''t'']\<rparr>, w') \<and> w' = (0, [])"
proof -
  have "\<exists>w'. engine_send_tx (queue_env\<lparr>qn := queue_quinn\<lparr>write_chunks := (\<lambda>_ tx c. (Ok 1, c @ [take 1 tx]))\<rparr>\<rparr>)
        ''tx'' 7 (queue_engine []) (0, [])
      = (Err (Quic ''partial write''), (queue_engine [])\<lparr>ge_connection := Some [''t'']\<rparr>, w')"
    by (simp add: engine_send_tx_def queue_engine_def queue_quinn_def)
  then obtain w' where e: "engine_send_tx (queue_env\<lparr>qn := queue_quinn\<lparr>write_chunks := (\<lambda>_ tx c. (Ok 1, c @ [take 1 tx]))\<rparr>\<rparr>)
        ''tx'' 7 (queue_engine []) (0, [])
      = (Err (Quic ''partial write''), (queue_engine [])\<lparr>ge_connection := Some [''t'']\<rparr>, w')" ..
  have "w' = (0, [])" using quic_send_tx_error [OF e] by (rule conjunct1)
  with e show ?thesis by simp
qed

text \<open>
  C37. The engine allows the connection to batch up to eight datagrams into one transmission and
  then ignores the segment size: a batch of several datagrams leaves as one single datagram that
  is longer than the size the connection asked for.
\<close>

theorem batch_sent_as_one_datagram:
  assumes "ge_connection g = Some c"
    and "poll_transmit (qn V) now 8 [] c = (Some \<lparr>tr_size = n, tr_segment_size = Some seg\<rparr>, b, c1)"
    and "seg < n" and "n = length b" and "poll_transmit (qn V) now 8 [] c1 = (None, b1, c2)"
  shows "\<exists>g'. drain_transmits V now (g, w) = (Ok (), g', snd (udp_sendto (os V) (ge_fd g) (ge_remote g) b w))
    \<and> seg < length b"
proof -
  have "emits (qn V) now 8 c [b] c2"
    using emits.one [OF assms(2) _ emits.quiet [OF assms(5)]] assms(4) by simp
  from drain_transmits_emits [OF assms(1) this, of w] assms(3,4) show ?thesis
    by (auto simp: send_each_def)
qed

theorem batch_sent_as_one_datagram_witness:
  "\<exists>g'. drain_transmits (queue_env\<lparr>qn := queue_quinn\<lparr>poll_transmit := (\<lambda>_ _ b c. case c of [] \<Rightarrow> (None, b, [])
        | d # ds \<Rightarrow> (Some \<lparr>tr_size = length (concat c), tr_segment_size = Some 2\<rparr>, b @ concat c, []))\<rparr>\<rparr>) 7
      (queue_engine [''ab'', ''cd'', ''e''], (0, [])) = (Ok (), g', (0, [''abcde''])) \<and> 2 < length ''abcde''"
  using batch_sent_as_one_datagram [of "queue_engine [''ab'', ''cd'', ''e'']" "[''ab'', ''cd'', ''e'']"
      "queue_env\<lparr>qn := queue_quinn\<lparr>poll_transmit := (\<lambda>_ _ b c. case c of [] \<Rightarrow> (None, b, [])
        | d # ds \<Rightarrow> (Some \<lparr>tr_size = length (concat c), tr_segment_size = Some 2\<rparr>, b @ concat c, []))\<rparr>\<rparr>"
      7 5 2 "''abcde''" "[]" "[]" "[]" "(0, [])"]
  by (simp add: queue_engine_def udp_sendto_def queue_env_def log_os_def)

end
