(* ===== verification/Quic_Cert.thy ===== *)
theory Quic_Cert
  imports Core_Types
begin

text \<open>
  Client configurations for QUIC, \<open>protocol/quic_cert.rs\<close>. Key pairs and certificates are made by
  the crate \<open>rcgen\<close>, configurations by \<open>rustls\<close> and \<open>quinn_proto\<close>; their calls are the record
  \<open>cert_ops\<close>, with the text of an error as the error value.
\<close>

section \<open>Keys\<close>

definition ED25519_PKCS8_PREFIX :: bytes where
  "ED25519_PKCS8_PREFIX = [CHR 0x30, CHR 0x2E, CHR 0x02, CHR 0x01, CHR 0x00, CHR 0x30, CHR 0x05, CHR 0x06,
     CHR 0x03, CHR 0x2B, CHR 0x65, CHR 0x70, CHR 0x04, CHR 0x22, CHR 0x04, CHR 0x20]"

text \<open>\<open>keypair\<close> is an array of 64 bytes in the source; the slice of its first 32 bytes cannot panic.\<close>

definition ed25519_pkcs8 :: "bytes \<Rightarrow> (bytes, 'e) res" where
  "ed25519_pkcs8 keypair =
     bind_res (slice_of keypair 0 32) (\<lambda>seed. Ok (ED25519_PKCS8_PREFIX @ seed))"

datatype sign_algo = PKCS_ED25519 | PKCS_ECDSA_P256_SHA256

datatype sig_scheme = SIG_ED25519 | SIG_ECDSA_NISTP256_SHA256 | SIG_RSA_PSS_SHA256 | SIG_RSA_PKCS1_SHA256

text \<open>Certificate parameters: the common name and the validity the sources set, or the defaults.\<close>

record cert_params =
  cp_common_name :: "bytes option"
  cp_validity :: "((nat \<times> nat \<times> nat) \<times> (nat \<times> nat \<times> nat)) option"

definition params_default :: cert_params where
  "params_default = \<lparr>cp_common_name = None, cp_validity = None\<rparr>"

section \<open>The verifier\<close>

record verifier =
  ver_server_cert :: "bytes \<Rightarrow> bytes list \<Rightarrow> bytes \<Rightarrow> bytes \<Rightarrow> nat \<Rightarrow> (unit, bytes) res"
  ver_tls12_signature :: "bytes \<Rightarrow> bytes \<Rightarrow> bytes \<Rightarrow> (unit, bytes) res"
  ver_tls13_signature :: "bytes \<Rightarrow> bytes \<Rightarrow> bytes \<Rightarrow> (unit, bytes) res"
  ver_schemes :: "sig_scheme list"

definition NoVerifier :: verifier where
  "NoVerifier = \<lparr>ver_server_cert = (\<lambda>_ _ _ _ _. Ok ()), ver_tls12_signature = (\<lambda>_ _ _. Ok ()),
     ver_tls13_signature = (\<lambda>_ _ _. Ok ()),
     ver_schemes = [SIG_ED25519, SIG_ECDSA_NISTP256_SHA256, SIG_RSA_PSS_SHA256, SIG_RSA_PKCS1_SHA256]\<rparr>"

section \<open>The calls\<close>

record transport_config =
  tc_max_idle_timeout :: nat
  tc_keep_alive_interval_secs :: nat
  tc_max_concurrent_uni_streams :: nat

text \<open>
  \<open>'kp\<close> is a key pair, \<open>'rc\<close> a TLS configuration, \<open>'cc\<close> a QUIC client configuration. \<open>tls_client_auth\<close> takes
  the verifier, the client's certificate chain and its key.
\<close>

record ('kp, 'rc, 'cc, 'w) cert_ops =
  from_pkcs8 :: "bytes \<Rightarrow> sign_algo \<Rightarrow> ('kp, bytes) res"
  generate_for :: "sign_algo \<Rightarrow> 'w \<Rightarrow> ('kp, bytes) res \<times> 'w"
  serialize_der :: "'kp \<Rightarrow> bytes"
  self_signed :: "cert_params \<Rightarrow> 'kp \<Rightarrow> 'w \<Rightarrow> (bytes, bytes) res \<times> 'w"
  tls_no_client_auth :: "verifier \<Rightarrow> 'rc"
  tls_client_auth :: "verifier \<Rightarrow> bytes list \<Rightarrow> bytes \<Rightarrow> ('rc, bytes) res"
  with_alpn :: "bytes list \<Rightarrow> 'rc \<Rightarrow> 'rc"
  quic_client_config :: "'rc \<Rightarrow> transport_config \<Rightarrow> 'cc"
  quic_suitable :: "'rc \<Rightarrow> (unit, bytes) res"
  varint_bounds_text :: bytes

section \<open>Configurations\<close>

definition varint_from_u64 :: "nat \<Rightarrow> nat option" where
  "varint_from_u64 n = (if n < 2 ^ 62 then Some n else None)"

definition finish_client_config ::
  "('kp, 'rc, 'cc, 'w) cert_ops \<Rightarrow> 'rc \<Rightarrow> quic_profile \<Rightarrow> ('cc, transport_error) res" where
  "finish_client_config R rustls_cfg profile =
     (let rustls_cfg = with_alpn R [alpn profile] rustls_cfg
      in bind_res (map_err Quic (quic_suitable R rustls_cfg)) (\<lambda>_.
         bind_res (ok_or (Quic (varint_bounds_text R)) (varint_from_u64 (idle_timeout_ms profile))) (\<lambda>idle.
         Ok (quic_client_config R rustls_cfg
               \<lparr>tc_max_idle_timeout = idle, tc_keep_alive_interval_secs = keepalive_interval_secs profile,
                tc_max_concurrent_uni_streams = max_streams_uni profile\<rparr>))))"

definition build_ed25519_cert ::
  "('kp, 'rc, 'cc, 'w) cert_ops \<Rightarrow> bytes \<Rightarrow> 'w \<Rightarrow> (bytes list \<times> bytes, transport_error) res \<times> 'w" where
  "build_ed25519_cert R keypair w =
     bind_st (ed25519_pkcs8 keypair, w) (\<lambda>pkcs8 w.
     bind_st (map_err (\<lambda>e. Quic (''keypair: '' @ e)) (from_pkcs8 R pkcs8 PKCS_ED25519), w) (\<lambda>key_pair w.
     case self_signed R params_default key_pair w of (r, w) \<Rightarrow>
     bind_st (map_err (\<lambda>e. Quic (''self-sign: '' @ e)) r, w) (\<lambda>cert w. (Ok ([cert], pkcs8), w))))"

definition build_falcon_cert ::
  "('kp, 'rc, 'cc, 'w) cert_ops \<Rightarrow> bytes \<Rightarrow> 'w \<Rightarrow> (bytes list \<times> bytes, transport_error) res \<times> 'w" where
  "build_falcon_cert R api_key w =
     (case generate_for R PKCS_ECDSA_P256_SHA256 w of (r, w) \<Rightarrow>
      bind_st (map_err (\<lambda>e. Quic (''keygen: '' @ e)) r, w) (\<lambda>key_pair w.
      let params = \<lparr>cp_common_name = Some api_key, cp_validity = Some ((1970, 1, 1), (4096, 1, 1))\<rparr>
      in case self_signed R params key_pair w of (r, w) \<Rightarrow>
         bind_st (map_err (\<lambda>e. Quic (''self-sign: '' @ e)) r, w) (\<lambda>cert w.
           (Ok ([cert], serialize_der R key_pair), w))))"

definition build_quic_client_config ::
  "('kp, 'rc, 'cc, 'w) cert_ops \<Rightarrow> quic_profile \<Rightarrow> quic_auth \<Rightarrow> 'w \<Rightarrow> ('cc, transport_error) res \<times> 'w" where
  "build_quic_client_config R profile a w =
     (case a of
        NoCert \<Rightarrow> (finish_client_config R (tls_no_client_auth R NoVerifier) profile, w)
      | Ed25519Keypair kp \<Rightarrow>
          bind_st (build_ed25519_cert R kp w) (\<lambda>(certs, key) w.
          bind_st (map_err (\<lambda>e. Quic (''client cert: '' @ e)) (tls_client_auth R NoVerifier certs key), w) (\<lambda>cfg w.
            (finish_client_config R cfg profile, w)))
      | FalconApiKey api_key \<Rightarrow>
          bind_st (build_falcon_cert R api_key w) (\<lambda>(certs, key) w.
          bind_st (map_err (\<lambda>e. Quic (''client cert: '' @ e)) (tls_client_auth R NoVerifier certs key), w) (\<lambda>cfg w.
            (finish_client_config R cfg profile, w))))"

section \<open>Properties\<close>

text \<open>
  A reader for DER: the list of the tagged values a byte string consists of, for lengths in the
  short form.
\<close>

fun der_items :: "bytes \<Rightarrow> (nat \<times> bytes) list option" where
  "der_items [] = Some []"
| "der_items [_] = None"
| "der_items (tag # len # rest) =
     (if byte len < 128 \<and> byte len \<le> length rest
      then map_option (\<lambda>xs. (byte tag, take (byte len) rest) # xs) (der_items (drop (byte len) rest))
      else None)"

text \<open>
  C38. The private key the engine hands to the TLS library is a well-formed PKCS#8 document: one
  sequence over the whole 48 bytes with version 0, the algorithm Ed25519 (1.3.101.112) and the
  first 32 bytes of the key pair, which are the seed, as the key.
\<close>

theorem ed25519_pkcs8_der:
  assumes "length keypair = 64"
  shows "\<exists>doc body key. ed25519_pkcs8 keypair = (Ok doc :: (bytes, unit) res) \<and> length doc = 48
    \<and> der_items doc = Some [(0x30, body)]
    \<and> der_items body = Some [(0x02, [CHR 0x00]), (0x30, [CHR 0x06, CHR 0x03, CHR 0x2B, CHR 0x65, CHR 0x70]), (0x04, key)]
    \<and> der_items key = Some [(0x04, take 32 keypair)]"
proof -
  obtain seed where seed: "take 32 keypair = seed" "length seed = 32" using assms by simp
  let ?key = "CHR 0x04 # CHR 0x20 # seed"
  let ?body = "[CHR 0x02, CHR 0x01, CHR 0x00, CHR 0x30, CHR 0x05, CHR 0x06, CHR 0x03, CHR 0x2B, CHR 0x65, CHR 0x70,
      CHR 0x04, CHR 0x22] @ ?key"
  have "ed25519_pkcs8 keypair = (Ok (ED25519_PKCS8_PREFIX @ seed) :: (bytes, unit) res)"
    using assms seed by (simp add: ed25519_pkcs8_def)
  moreover have "der_items (ED25519_PKCS8_PREFIX @ seed) = Some [(0x30, ?body)]"
    using seed(2) by (simp add: ED25519_PKCS8_PREFIX_def)
  moreover have "der_items ?body =
      Some [(0x02, [CHR 0x00]), (0x30, [CHR 0x06, CHR 0x03, CHR 0x2B, CHR 0x65, CHR 0x70]), (0x04, ?key)]"
    using seed(2) by simp
  moreover have "der_items ?key = Some [(0x04, take 32 keypair)]" using seed by simp
  moreover have "length (ED25519_PKCS8_PREFIX @ seed) = 48" using seed(2) by (simp add: ED25519_PKCS8_PREFIX_def)
  ultimately show ?thesis by blast
qed

theorem ed25519_pkcs8_der_witness:
  "\<exists>doc body key. ed25519_pkcs8 (replicate 64 (CHR 0x2A)) = (Ok doc :: (bytes, unit) res) \<and> length doc = 48
    \<and> der_items doc = Some [(0x30, body)]
    \<and> der_items body = Some [(0x02, [CHR 0x00]), (0x30, [CHR 0x06, CHR 0x03, CHR 0x2B, CHR 0x65, CHR 0x70]), (0x04, key)]
    \<and> der_items key = Some [(0x04, take 32 (replicate 64 (CHR 0x2A)))]"
  by (rule ed25519_pkcs8_der) simp

end
