(* ===== verification/Connect.thy ===== *)
theory Connect
  imports Registry Quic Quic_Cert Reconnect
begin

text \<open>
  Opening connections, \<open>transport/connect.rs\<close>: the request envelope of a provider, one connection
  over HTTP or QUIC, the pairs of all providers, and the two builders of the reconnect thread.
\<close>

section \<open>The request envelope of a provider\<close>

fun auth_placement_of :: "http_auth \<Rightarrow> auth_placement" where
  "auth_placement_of NoAuth = AuthNone"
| "auth_placement_of (HeaderAuth name value) = AuthHeader name value"
| "auth_placement_of (UrlParamAuth key value) = AuthUrlParam key value"
| "auth_placement_of (UrlPathAuth token) = AuthUrlPath token"

definition envelope_builder :: "provider_config \<Rightarrow> spec_builder" where
  "envelope_builder p =
     (let b = builder_auth_placement (auth_placement_of (pc_auth p))
                (builder_new ''POST'' (ep_path (pc_endpoint p)) (ep_server_name (pc_endpoint p)) (pc_max_body p))
      in if pc_body_template p \<noteq> [] then builder_body_template (pc_body_template p) b else b)"

definition build_envelope :: "provider_config \<Rightarrow> envelope_spec" where
  "build_envelope p = build (envelope_builder p)"

section \<open>Connecting\<close>

text \<open>
  The code a connection is made of: the byte transport, the TLS session, the QUIC engine's
  environment and the certificate calls.
\<close>

record ('b, 'k, 't, 'ep, 'cn, 'cc, 'ee, 'ce, 'kp, 'rc, 'w) connect_env =
  ce_io :: "('b, 'k, 'w) byte_io"
  ce_tls :: "'t tls_ops"
  ce_quic :: "('ep, 'cn, 'cc, 'ee, 'ce, 'w) quic_env"
  ce_cert :: "('kp, 'rc, 'cc, 'w) cert_ops"

type_synonym ('b, 'k, 't, 'ep, 'cn) opened =
  "(('b, 'k, 't) http_conn, ('ep, 'cn) quic_engine quic_conn) conn_state"

definition connect_http ::
  "('b, 'k, 't, 'ep, 'cn, 'cc, 'ee, 'ce, 'kp, 'rc, 'w) connect_env \<Rightarrow> nat \<Rightarrow> provider_config
     \<Rightarrow> (nat \<Rightarrow> 'w \<Rightarrow> ('b, sender_error) res \<times> 'w) \<Rightarrow> 'w
     \<Rightarrow> (('b, 'k, 't, 'ep, 'cn) opened, sender_error) res \<times> 'w" where
  "connect_http N i p mk w =
     bind_st (map_err (\<lambda>e. SConnect (of_nat i) (EnvelopeErr e)) (compile (build_envelope p)), w) (\<lambda>tpl w.
     bind_st (mk i w) (\<lambda>io w.
     case connect_with (ce_io N) (ce_tls N) io p tpl w of (r, w) \<Rightarrow>
     bind_st (map_err (SConnect (of_nat i)) r, w) (\<lambda>c w. (Ok (Http_Conn c), w))))"

definition connect_quic ::
  "('b, 'k, 't, 'ep, 'cn, 'cc, 'ee, 'ce, 'kp, 'rc, 'w) connect_env \<Rightarrow> nat \<Rightarrow> provider_config \<Rightarrow> 'w
     \<Rightarrow> (('b, 'k, 't, 'ep, 'cn) opened, sender_error) res \<times> 'w" where
  "connect_quic N i p w =
     bind_st (ok_or (QuicConfig (of_nat i) ''missing quic_endpoint'') (pc_quic_endpoint p), w) (\<lambda>quic_ep w.
     bind_st (ok_or (QuicConfig (of_nat i) ''missing quic_profile'') (pc_quic_profile p), w) (\<lambda>profile w.
     bind_st (ok_or (QuicConfig (of_nat i) ''missing quic_auth'') (pc_quic_auth p), w) (\<lambda>qauth w.
     case build_quic_client_config (ce_cert N) profile qauth w of (r, w) \<Rightarrow>
     bind_st (map_err (SConnect (of_nat i)) r, w) (\<lambda>client_cfg w.
     case quic_connect (ce_quic N) client_cfg (qe_addr quic_ep) (qe_server_name quic_ep) w of (r, w) \<Rightarrow>
     bind_st (map_err (SConnect (of_nat i)) r, w) (\<lambda>engine w. (Ok (Quic_Conn (quic_new engine)), w))))))"

definition connect_one ::
  "('b, 'k, 't, 'ep, 'cn, 'cc, 'ee, 'ce, 'kp, 'rc, 'w) connect_env \<Rightarrow> provider_config list \<Rightarrow> nat
     \<Rightarrow> (nat \<Rightarrow> 'w \<Rightarrow> ('b, sender_error) res \<times> 'w) \<Rightarrow> 'w
     \<Rightarrow> (('b, 'k, 't, 'ep, 'cn) opened, sender_error) res \<times> 'w" where
  "connect_one N providers i mk w =
     bind_st (index providers i, w) (\<lambda>p w.
     case pc_protocol p of
       Http_Protocol \<Rightarrow> connect_http N i p mk w
     | Quic_Protocol \<Rightarrow> connect_quic N i p w)"

fun connect_duals ::
  "('b, 'k, 't, 'ep, 'cn, 'cc, 'ee, 'ce, 'kp, 'rc, 'w) connect_env \<Rightarrow> provider_config list
     \<Rightarrow> (nat \<Rightarrow> 'w \<Rightarrow> ('b, sender_error) res \<times> 'w) \<Rightarrow> nat list \<Rightarrow> 'w
     \<Rightarrow> (('b, 'k, 't, 'ep, 'cn) opened dual_conn list, sender_error) res \<times> 'w" where
  "connect_duals N providers mk [] w = (Ok [], w)"
| "connect_duals N providers mk (i # is) w =
     bind_st (connect_one N providers i mk w) (\<lambda>a w.
     bind_st (connect_one N providers i mk w) (\<lambda>s w.
     bind_st (connect_duals N providers mk is w) (\<lambda>ds w. (Ok (dual_new a s # ds), w))))"

definition connect_dual_all ::
  "('b, 'k, 't, 'ep, 'cn, 'cc, 'ee, 'ce, 'kp, 'rc, 'w) connect_env \<Rightarrow> provider_config list
     \<Rightarrow> (nat \<Rightarrow> 'w \<Rightarrow> ('b, sender_error) res \<times> 'w) \<Rightarrow> 'w
     \<Rightarrow> (('b, 'k, 't, 'ep, 'cn) opened dual_conn list, sender_error) res \<times> 'w" where
  "connect_dual_all N providers mk w = connect_duals N providers mk [0..<length providers] w"

section \<open>Reconnect builders\<close>

text \<open>\<open>debug_fmt\<close> is the derived \<open>Debug\<close> text of an error.\<close>

definition engine_reconnect_build ::
  "('b, 'k, 't, 'ep, 'cn, 'cc, 'ee, 'ce, 'kp, 'rc, 'w) connect_env \<Rightarrow> (sender_error \<Rightarrow> bytes)
     \<Rightarrow> provider_config list \<Rightarrow> (nat \<Rightarrow> 'w \<Rightarrow> ('b, sender_error) res \<times> 'w)
     \<Rightarrow> (('b, 'k, 't) http_conn, ('ep, 'cn) quic_engine quic_conn, 'w) reconnect_builder" where
  "engine_reconnect_build N debug_fmt providers mk idx _ w =
     (case connect_one N providers idx mk w of (r, w) \<Rightarrow>
      bind_st (map_err (\<lambda>e. Build (debug_fmt e)) r, w) (\<lambda>c w. (Ok (Conn_Box c), w)))"

definition tpa_reconnect_build :: "('h, 'q, 'w) reconnect_builder" where
  "tpa_reconnect_build idx _ w = (Err NotSupported, w)"

section \<open>The default root store\<close>

text \<open>
  Trust anchors, root store and configuration are those of webpki-roots and rustls;
  \<open>no_auth_config\<close> is the chain from \<open>ClientConfig::builder\<close> to \<open>with_no_client_auth\<close>.
\<close>

record ('ta, 'store, 'cfg) root_ops =
  tls_server_roots :: "'ta list"
  store_empty :: 'store
  store_extend :: "'ta list \<Rightarrow> 'store \<Rightarrow> 'store"
  no_auth_config :: "'store \<Rightarrow> 'cfg"

definition real_roots :: "('ta, 'store, 'cfg) root_ops \<Rightarrow> 'store" where
  "real_roots R = store_extend R (tls_server_roots R) (store_empty R)"

definition real_roots_client_config :: "('ta, 'store, 'cfg) root_ops \<Rightarrow> 'cfg" where
  "real_roots_client_config R = no_auth_config R (real_roots R)"

section \<open>The presets' envelopes\<close>

lemma clean_line_Nil [simp]: "clean_line []"
  by (simp add: clean_line_def)

lemma clean_line_Cons [simp]:
  "byte c < 128 \<Longrightarrow> clean_line (c # s) \<longleftrightarrow> c \<noteq> CR \<and> c \<noteq> LF \<and> c \<noteq> CHR ''<'' \<and> clean_line s"
  by (auto simp: clean_line_def)

lemma clean_line_append: "clean_line xs \<Longrightarrow> clean_line ys \<Longrightarrow> clean_line (xs @ ys)"
  by (simp add: clean_line_def utf8_ok_append)

fun clean_auth :: "http_auth \<Rightarrow> bool" where
  "clean_auth NoAuth = True"
| "clean_auth (HeaderAuth name value) = (clean_line name \<and> clean_line value)"
| "clean_auth (UrlParamAuth key value) = (clean_line key \<and> clean_line value)"
| "clean_auth (UrlPathAuth token) = False"

fun auth_size :: "http_auth \<Rightarrow> nat" where
  "auth_size NoAuth = 0"
| "auth_size (HeaderAuth name value) = length name + length value"
| "auth_size (UrlParamAuth key value) = length key + length value"
| "auth_size (UrlPathAuth token) = length token"

lemma http_cfg_benign:
  assumes "clean_line path" and "clean_line hst" and "clean_auth a"
    and "tpl \<noteq> []" and "find_unique tpl BODY_SENTINEL \<noteq> None" and "find_sub CL_SENTINEL tpl = None"
  shows "benign (envelope_builder (http_cfg hst port path hst a tpl))"
  using assms
  by (cases a) (simp_all add: benign_def envelope_builder_def http_cfg_def builder_new_def builder_auth_placement_def
      builder_body_template_def header_lines_def request_path_def clean_line_append)

lemma http_cfg_small:
  assumes "length path + length hst + auth_size a + length tpl < 2 ^ 31" and "tpl \<noteq> []" and "clean_auth a"
  shows "small_request (envelope_builder (http_cfg hst port path hst a tpl))"
  using assms
  by (cases a) (simp_all add: small_request_def envelope_builder_def http_cfg_def builder_new_def builder_auth_placement_def
      builder_body_template_def header_lines_def request_path_def MAX_BODY_def CL_NAME_def)

text \<open>What a preset must satisfy to be a benign request for every clean token.\<close>

definition good_preset :: "(bytes \<Rightarrow> provider_config) \<Rightarrow> bool" where
  "good_preset f \<longleftrightarrow> (\<forall>token. clean_line token \<longrightarrow> length token < 2 ^ 20 \<longrightarrow>
     benign (envelope_builder (f token)) \<and> small_request (envelope_builder (f token))
     \<and> max_body (envelope_builder (f token)) = MAX_BODY)"

lemma good_presetI:
  assumes "\<And>token. f token = http_cfg hst 443 (path token) hst (a token) tpl"
    and "\<And>token. clean_line token \<Longrightarrow> clean_line (path token) \<and> clean_auth (a token)"
    and "\<And>token. length token < 2 ^ 20 \<Longrightarrow> length (path token) + auth_size (a token) < 2 ^ 30"
    and "clean_line hst" and "length hst + length tpl < 2 ^ 30"
    and "find_sub BODY_SENTINEL tpl = Some k" and "find_sub BODY_SENTINEL (drop (Suc k) tpl) = None"
    and "find_sub CL_SENTINEL tpl = None"
  shows "good_preset f"
proof -
  have u: "find_unique tpl BODY_SENTINEL = Some k" by (rule find_unique_search [OF assms(6,7)])
  have ne: "tpl \<noteq> []" using assms(6) by (auto simp: BODY_SENTINEL_def)
  have "benign (envelope_builder (f token)) \<and> small_request (envelope_builder (f token))
      \<and> max_body (envelope_builder (f token)) = MAX_BODY"
    if t: "clean_line token" "length token < 2 ^ 20" for token
  proof (intro conjI)
    show "benign (envelope_builder (f token))"
      unfolding assms(1) by (rule http_cfg_benign) (use assms(2) [OF t(1)] assms(4,8) ne u in simp_all)
    have "length (path token) + length hst + auth_size (a token) + length tpl < 2 ^ 31"
      using assms(3) [OF t(2)] assms(5) by simp
    then show "small_request (envelope_builder (f token))"
      unfolding assms(1) by (rule http_cfg_small) (use assms(2) [OF t(1)] ne in simp_all)
    show "max_body (envelope_builder (f token)) = MAX_BODY"
      using ne by (simp add: assms(1) Let_def envelope_builder_def http_cfg_def builder_new_def builder_auth_placement_def
          builder_body_template_def)
  qed
  then show ?thesis by (simp add: good_preset_def)
qed

lemma good_jito_transaction: "good_preset jito_transaction"
  by (rule good_presetI [where k = 62, OF jito_transaction_def [unfolded Let_def]])
     (simp_all add: BODY_SENTINEL_def CL_SENTINEL_def clean_line_append)

lemma good_jito_bundle: "good_preset jito_bundle"
  by (rule good_presetI [where k = 58, OF jito_bundle_def [unfolded Let_def]])
     (simp_all add: BODY_SENTINEL_def CL_SENTINEL_def clean_line_append)

lemma good_nextblock: "good_preset nextblock"
  by (rule good_presetI [where k = 27, OF nextblock_def [unfolded Let_def]])
     (simp_all add: BODY_SENTINEL_def CL_SENTINEL_def clean_line_append)

lemma good_zeroslot: "good_preset zeroslot"
  by (rule good_presetI [where k = 62, OF zeroslot_def [unfolded Let_def]])
     (simp_all add: BODY_SENTINEL_def CL_SENTINEL_def clean_line_append)

lemma good_temporal: "good_preset temporal"
  by (rule good_presetI [where k = 62, OF temporal_def [unfolded Let_def]])
     (simp_all add: BODY_SENTINEL_def CL_SENTINEL_def clean_line_append)

lemma good_bloxroute: "good_preset bloxroute"
  by (rule good_presetI [where k = 27, OF bloxroute_def [unfolded Let_def]])
     (simp_all add: BODY_SENTINEL_def CL_SENTINEL_def clean_line_append)

lemma good_node1: "good_preset node1"
  by (rule good_presetI [where k = 62, OF node1_def [unfolded Let_def]])
     (simp_all add: BODY_SENTINEL_def CL_SENTINEL_def clean_line_append)

lemma good_flashblock: "good_preset flashblock"
  by (rule good_presetI [where k = 18, OF flashblock_def [unfolded Let_def]])
     (simp_all add: BODY_SENTINEL_def CL_SENTINEL_def clean_line_append)

lemma good_blockrazor: "good_preset blockrazor"
  by (rule good_presetI [where k = 16, OF blockrazor_def [unfolded Let_def]])
     (simp_all add: BODY_SENTINEL_def CL_SENTINEL_def clean_line_append)

lemma good_astralane: "good_preset astralane"
  by (rule good_presetI [where k = 62, OF astralane_def [unfolded Let_def]])
     (simp_all add: BODY_SENTINEL_def CL_SENTINEL_def clean_line_append)

lemma good_stellium: "good_preset stellium"
  by (rule good_presetI [where k = 62, OF stellium_def [unfolded Let_def]])
     (simp_all add: BODY_SENTINEL_def CL_SENTINEL_def clean_line_append)

lemma good_lightspeed: "good_preset lightspeed"
  by (rule good_presetI [where k = 62, OF lightspeed_def [unfolded Let_def]])
     (simp_all add: BODY_SENTINEL_def CL_SENTINEL_def clean_line_append)

lemma good_helius: "good_preset helius"
  by (rule good_presetI [where k = 62, OF helius_def [unfolded Let_def]])
     (simp_all add: BODY_SENTINEL_def CL_SENTINEL_def clean_line_append)

definition http_presets :: "(bytes \<Rightarrow> provider_config) list" where
  "http_presets = [jito_transaction, jito_bundle, nextblock, zeroslot, temporal, bloxroute, node1, flashblock, blockrazor, astralane, stellium, lightspeed, helius]"

lemmas good_presets = good_jito_transaction good_jito_bundle good_nextblock good_zeroslot good_temporal good_bloxroute good_node1 good_flashblock good_blockrazor good_astralane good_stellium good_lightspeed good_helius

section \<open>Properties\<close>

text \<open>
  C14. Every HTTP preset of the registry works for every transaction: with any token that has no
  line breaks and no placeholder bracket, its template compiles, and a transaction of up to 1232
  bytes always fits the space reserved for it and gives exactly the preset's request.
\<close>

theorem presets_splice:
  assumes "base64_standard enc dec" and "preset \<in> set http_presets"
    and "clean_line token" and "length token < 2 ^ 20" and "length tx \<le> MAX_TX_LEN"
  shows "\<exists>t. compile (build_envelope (preset token)) = Ok t
    \<and> fst (envelope_splice enc tx t) = Ok (request_frame (envelope_builder (preset token)) (enc tx))"
proof -
  have "good_preset preset" using assms(2) good_presets by (auto simp: http_presets_def)
  then have g: "benign (envelope_builder (preset token))" "small_request (envelope_builder (preset token))"
    "max_body (envelope_builder (preset token)) = MAX_BODY"
    using assms(3,4) by (simp_all add: good_preset_def)
  have "(length tx + 2) div 3 * 4 \<le> max_body (envelope_builder (preset token))"
    using assms(5) unfolding g(3) by (simp add: MAX_BODY_def MAX_TX_LEN_def)
  moreover obtain t where "compile (build (envelope_builder (preset token))) = Ok t"
    using compile_benign [OF g(1,2)] by blast
  ultimately show ?thesis
    using splice_benign [where enc = enc and tx = tx, OF base64_standard.enc_length [OF assms(1)] g(1,2)]
    by (simp add: build_envelope_def)
qed

theorem presets_splice_witness:
  "\<exists>t. compile (build_envelope (helius ''secret'')) = Ok t
    \<and> fst (envelope_splice rfc4648_encode (replicate 1232 (CHR 0x01)) t)
        = Ok (request_frame (envelope_builder (helius ''secret'')) (rfc4648_encode (replicate 1232 (CHR 0x01))))"
  by (rule presets_splice [OF rfc4648.base64_standard_axioms])
     (simp_all add: http_presets_def MAX_TX_LEN_def)

end
