(* ===== verification/Io_Uring.thy ===== *)
theory Io_Uring
  imports Raw_Libc "HOL-Library.Multiset"
begin

unbundle bit_operations_syntax

text \<open>
  The byte transport on \<open>io_uring\<close>, \<open>backend/io_uring.rs\<close>. The submission and completion queues and
  the kernel behind them are the record \<open>uring_ops\<close>. A completion of a receive carries the bytes
  that the kernel has put into the connection's receive buffer: the buffer belongs to the one
  receive in flight, so its contents cannot change between the completion and the copy.
\<close>

section \<open>State\<close>

definition OP_SEND :: "64 word" where
  "OP_SEND = 0"

definition OP_RECV :: "64 word" where
  "OP_RECV = 1"

definition RX_CAP :: nat where
  "RX_CAP = 4096"

definition RING_ENTRIES :: nat where
  "RING_ENTRIES = 256"

datatype io_uring_mode = BatchSyscall | SqeStream

record sqpoll_cfg =
  poll_core :: "32 word"
  idle_ms :: "32 word"

record io_uring_tuning =
  sqpoll :: "sqpoll_cfg option"

datatype sqe = Send_Sqe fd bytes "64 word" | Recv_Sqe fd nat "64 word"

fun sqe_key :: "sqe \<Rightarrow> 64 word" where
  "sqe_key (Send_Sqe _ _ k) = k"
| "sqe_key (Recv_Sqe _ _ k) = k"

record cqe =
  cqe_key :: "64 word"
  cqe_result :: int
  cqe_data :: bytes

record ('r, 'w) uring_ops =
  ring_build :: "nat \<Rightarrow> sqpoll_cfg option \<Rightarrow> 'w \<Rightarrow> ('r, io_error) res \<times> 'w"
  sq_push :: "sqe \<Rightarrow> 'r \<Rightarrow> 'w \<Rightarrow> bool \<times> 'r \<times> 'w"
  ring_submit :: "'r \<Rightarrow> 'w \<Rightarrow> (nat, io_error) res \<times> 'r \<times> 'w"
  cq_take :: "'r \<Rightarrow> 'w \<Rightarrow> cqe list \<times> 'r \<times> 'w"
  ur_os :: "'w libc_ops"
  ur_display :: "io_error \<Rightarrow> bytes"

record uring_conn =
  uc_fd :: fd
  uc_idx :: "64 word"
  uc_recv_in_flight :: bool
  uc_send_in_flight :: "bytes list"

record 'r uring =
  ur_ring :: 'r
  ur_mode :: io_uring_mode
  ur_sqpoll :: bool
  ur_next_idx :: "64 word"
  ur_pending :: "sqe list"
  ur_completed_sends :: "64 word \<rightharpoonup> 32 word"
  ur_completed_recvs :: "64 word \<rightharpoonup> int \<times> bytes"

definition ud :: "64 word \<Rightarrow> 64 word \<Rightarrow> 64 word" where
  "ud idx op = push_bit 1 idx OR op"

section \<open>The queues\<close>

definition map_setup_err :: "('r, 'w) uring_ops \<Rightarrow> io_error \<Rightarrow> io_error" where
  "map_setup_err U e =
     (if raw_os_error e = Some ENOSYS \<or> raw_os_error e = Some EPERM
      then Custom Unsupported (ur_display U e) else e)"

definition uring_new ::
  "('r, 'w) uring_ops \<Rightarrow> io_uring_mode \<Rightarrow> io_uring_tuning \<Rightarrow> 'w \<Rightarrow> ('r uring, io_error) res \<times> 'w" where
  "uring_new U mode tuning w =
     (case ring_build U RING_ENTRIES (sqpoll tuning) w of (r, w) \<Rightarrow>
      bind_st (map_err (map_setup_err U) r, w) (\<lambda>ring w.
        (Ok \<lparr>ur_ring = ring, ur_mode = mode, ur_sqpoll = (sqpoll tuning \<noteq> None), ur_next_idx = 0,
             ur_pending = [], ur_completed_sends = Map.empty, ur_completed_recvs = Map.empty\<rparr>, w)))"

definition flush_submit :: "('r, 'w) uring_ops \<Rightarrow> 'r uring \<times> 'w \<Rightarrow> (unit, io_error) res \<times> 'r uring \<times> 'w" where
  "flush_submit U = (\<lambda>(u, w).
     if \<not> ur_sqpoll u then
       (case ring_submit U (ur_ring u) w of (r, ring, w) \<Rightarrow>
          bind_st (r, u\<lparr>ur_ring := ring\<rparr>, w) (\<lambda>_ x. (Ok (), x)))
     else (Ok (), u, w))"

definition reap_one :: "cqe \<Rightarrow> 'r uring \<Rightarrow> 'r uring" where
  "reap_one c u =
     (if cqe_key c AND 1 = OP_SEND then
        u\<lparr>ur_completed_sends := (ur_completed_sends u)
            (cqe_key c \<mapsto> (case ur_completed_sends u (cqe_key c) of None \<Rightarrow> 0 | Some n \<Rightarrow> n) + 1)\<rparr>
      else u\<lparr>ur_completed_recvs := (ur_completed_recvs u)(cqe_key c \<mapsto> (cqe_result c, cqe_data c))\<rparr>)"

definition reap :: "('r, 'w) uring_ops \<Rightarrow> 'r uring \<times> 'w \<Rightarrow> 'r uring \<times> 'w" where
  "reap U = (\<lambda>(u, w).
     case cq_take U (ur_ring u) w of (cs, ring, w) \<Rightarrow> (fold reap_one cs (u\<lparr>ur_ring := ring\<rparr>), w))"

text \<open>The loop of \<open>push_sqe\<close>, which \<open>drain_pending\<close> repeats for each entry: a full queue is flushed and reaped.\<close>

partial_function (option) push_loop ::
  "('r, 'w) uring_ops \<Rightarrow> sqe \<Rightarrow> 'r uring \<times> 'w \<Rightarrow> ((unit, io_error) res \<times> 'r uring \<times> 'w) option" where
  "push_loop U e x =
     (case sq_push U e (ur_ring (fst x)) (snd x) of (ok, ring, w) \<Rightarrow>
        if ok then Some (Ok (), (fst x)\<lparr>ur_ring := ring\<rparr>, w)
        else (case flush_submit U ((fst x)\<lparr>ur_ring := ring\<rparr>, w) of (r, y) \<Rightarrow>
                (case r of
                   Ok _ \<Rightarrow> push_loop U e (reap U y)
                 | Err er \<Rightarrow> Some (Err er, y)
                 | Panic \<Rightarrow> Some (Panic, y)
                 | Hang \<Rightarrow> Some (Hang, y))))"

definition push_sqe ::
  "('r, 'w) uring_ops \<Rightarrow> sqe \<Rightarrow> 'r uring \<times> 'w \<Rightarrow> (unit, io_error) res \<times> 'r uring \<times> 'w" where
  "push_sqe U e x = (case push_loop U e x of None \<Rightarrow> (Hang, x) | Some y \<Rightarrow> y)"

fun drain_entries ::
  "('r, 'w) uring_ops \<Rightarrow> sqe list \<Rightarrow> 'r uring \<times> 'w \<Rightarrow> (unit, io_error) res \<times> 'r uring \<times> 'w" where
  "drain_entries U [] x = (Ok (), x)"
| "drain_entries U (e # es) x =
     bind_st (push_sqe U e ((fst x)\<lparr>ur_pending := es\<rparr>, snd x)) (\<lambda>_ y. drain_entries U es y)"

definition drain_pending :: "('r, 'w) uring_ops \<Rightarrow> 'r uring \<times> 'w \<Rightarrow> (unit, io_error) res \<times> 'r uring \<times> 'w" where
  "drain_pending U x = drain_entries U (ur_pending (fst x)) x"

definition drive_inner :: "('r, 'w) uring_ops \<Rightarrow> 'r uring \<times> 'w \<Rightarrow> (unit, io_error) res \<times> 'r uring \<times> 'w" where
  "drive_inner U x =
     bind_st (if ur_mode (fst x) = BatchSyscall then drain_pending U x else (Ok (), x)) (\<lambda>_ x.
     bind_st (flush_submit U x) (\<lambda>_ x. (Ok (), reap U x)))"

text \<open>The counter is an \<open>u32\<close>; popping an empty queue does nothing.\<close>

definition reclaim_sends :: "'r uring \<Rightarrow> uring_conn \<Rightarrow> 'r uring \<times> uring_conn" where
  "reclaim_sends u k =
     (let key = ud (uc_idx k) OP_SEND
      in case ur_completed_sends u key of
           Some n \<Rightarrow> (u\<lparr>ur_completed_sends := (ur_completed_sends u)(key := None)\<rparr>,
                      k\<lparr>uc_send_in_flight := drop (unat n) (uc_send_in_flight k)\<rparr>)
         | None \<Rightarrow> (u, k))"

section \<open>The byte transport\<close>

definition uring_connect ::
  "('r, 'w) uring_ops \<Rightarrow> bytes \<Rightarrow> 'r uring \<Rightarrow> 'w \<Rightarrow> (uring_conn, io_error) res \<times> 'r uring \<times> 'w" where
  "uring_connect U endpoint u w =
     (case bind_st (tcp_connect (ur_os U) endpoint w) (\<lambda>fd w.
           bind_st (set_nodelay (ur_os U) fd w) (\<lambda>_ w. (Ok fd, w))) of (r, w) \<Rightarrow>
      bind_st (r, u, w) (\<lambda>fd (u, w).
        (Ok \<lparr>uc_fd = fd, uc_idx = ur_next_idx u, uc_recv_in_flight = False, uc_send_in_flight = []\<rparr>,
         u\<lparr>ur_next_idx := ur_next_idx u + 1\<rparr>, w)))"

definition uring_submit ::
  "('r, 'w) uring_ops \<Rightarrow> wire \<Rightarrow> bytes \<Rightarrow> 'r uring \<times> uring_conn \<times> 'w
     \<Rightarrow> (unit, io_error) res \<times> 'r uring \<times> uring_conn \<times> 'w" where
  "uring_submit U wk bs = (\<lambda>(u, k, w).
     if wk \<noteq> Stream_Wire then (Err (Simple Unsupported), u, k, w)
     else
       let k = k\<lparr>uc_send_in_flight := uc_send_in_flight k @ [bs]\<rparr>;
           entry = Send_Sqe (uc_fd k) (take (length bs mod 2 ^ 32) bs) (ud (uc_idx k) OP_SEND)
       in case ur_mode u of
            SqeStream \<Rightarrow>
              (case bind_st (push_sqe U entry (u, w)) (\<lambda>_ x. flush_submit U x) of (r, u, w) \<Rightarrow> (r, u, k, w))
          | BatchSyscall \<Rightarrow> (Ok (), u\<lparr>ur_pending := ur_pending u @ [entry]\<rparr>, k, w))"

definition arm_recv ::
  "('r, 'w) uring_ops \<Rightarrow> 'r uring \<times> uring_conn \<times> 'w \<Rightarrow> (unit, io_error) res \<times> 'r uring \<times> uring_conn \<times> 'w" where
  "arm_recv U = (\<lambda>(u, k, w).
     if \<not> uc_recv_in_flight k then
       (case push_sqe U (Recv_Sqe (uc_fd k) RX_CAP (ud (uc_idx k) OP_RECV)) (u, w) of (r, u, w) \<Rightarrow>
          bind_st (r, u, k, w) (\<lambda>_ (u, k, w). (Ok (), u, k\<lparr>uc_recv_in_flight := True\<rparr>, w)))
     else (Ok (), u, k, w))"

definition take_recv :: "nat \<Rightarrow> 'r uring \<times> uring_conn \<times> 'w \<Rightarrow> (bytes, io_error) res \<times> 'r uring \<times> uring_conn \<times> 'w" where
  "take_recv len = (\<lambda>(u, k, w).
     let key = ud (uc_idx k) OP_RECV
     in case ur_completed_recvs u key of
          Some (result, data) \<Rightarrow>
            (let u = u\<lparr>ur_completed_recvs := (ur_completed_recvs u)(key := None)\<rparr>;
                 k = k\<lparr>uc_recv_in_flight := False\<rparr>
             in if result < 0 then (Err (Os (nat (- result))), u, k, w)
                else if result = 0 then (Ok [], u, k, w)
                else (Ok (take (min (nat result) len) data), u, k, w))
        | None \<Rightarrow> (Ok [], u, k, w))"

definition uring_poll_recv ::
  "('r, 'w) uring_ops \<Rightarrow> nat \<Rightarrow> 'r uring \<times> uring_conn \<times> 'w
     \<Rightarrow> (bytes, io_error) res \<times> 'r uring \<times> uring_conn \<times> 'w" where
  "uring_poll_recv U len x =
     bind_st (arm_recv U x) (\<lambda>_ (u, k, w).
     case drive_inner U (u, w) of (r, u, w) \<Rightarrow>
     bind_st (r, u, k, w) (\<lambda>_ (u, k, w).
     case reclaim_sends u k of (u, k) \<Rightarrow> take_recv len (u, k, w)))"

definition uring_drive :: "('r, 'w) uring_ops \<Rightarrow> 'r uring \<Rightarrow> 'w \<Rightarrow> (unit, io_error) res \<times> 'r uring \<times> 'w" where
  "uring_drive U u w = (case drive_inner U (u, w) of (r, u, w) \<Rightarrow> (discard r, u, w))"

definition io_uring :: "('r, 'w) uring_ops \<Rightarrow> ('r uring, uring_conn, 'w) byte_io" where
  "io_uring U = \<lparr>io_connect = uring_connect U, io_submit = uring_submit U,
     io_poll_recv = uring_poll_recv U, io_drive = uring_drive U\<rparr>"

section \<open>Requests and buffers\<close>

lemma ud_send [simp]: "ud i OP_SEND AND 1 = 0"
  by (simp add: ud_def OP_SEND_def and_one_eq even_iff_mod_2_eq_zero [symmetric])

lemma ud_recv [simp]: "ud i OP_RECV AND 1 = 1"
  by (simp add: ud_def OP_RECV_def and_one_eq odd_iff_mod_2_eq_one [symmetric] even_or_iff)

lemma ud_distinct [simp]: "ud i OP_SEND \<noteq> ud j OP_RECV"
  and ud_distinct' [simp]: "ud j OP_RECV \<noteq> ud i OP_SEND"
  by (metis ud_send ud_recv zero_neq_one)+

text \<open>
  \<open>uring_contract U outst\<close>: \<open>outst\<close> are the keys of the requests that have been pushed and whose
  completion has not been taken yet. Every completion belongs to one of them.
\<close>

definition uring_contract :: "('r, 'w) uring_ops \<Rightarrow> ('r \<Rightarrow> 'w \<Rightarrow> 64 word multiset) \<Rightarrow> bool" where
  "uring_contract U outst \<longleftrightarrow>
     (\<forall>e r w ok r' w'. sq_push U e r w = (ok, r', w') \<longrightarrow>
        outst r' w' = (if ok then add_mset (sqe_key e) (outst r w) else outst r w)) \<and>
     (\<forall>r w x r' w'. ring_submit U r w = (x, r', w') \<longrightarrow> outst r' w' = outst r w) \<and>
     (\<forall>r w cs r' w'. cq_take U r w = (cs, r', w') \<longrightarrow> mset (map cqe_key cs) + outst r' w' = outst r w)"

lemma uring_contractD:
  assumes "uring_contract U outst"
  shows "sq_push U e r w = (ok, r', w') \<Longrightarrow> outst r' w' = (if ok then add_mset (sqe_key e) (outst r w) else outst r w)"
    and "ring_submit U r w = (x, r', w') \<Longrightarrow> outst r' w' = outst r w"
    and "cq_take U r w = (cs, r', w') \<Longrightarrow> mset (map cqe_key cs) + outst r' w' = outst r w"
  using assms unfolding uring_contract_def by blast+

definition sends_done :: "'r uring \<Rightarrow> 64 word \<Rightarrow> nat" where
  "sends_done u key = (case ur_completed_sends u key of None \<Rightarrow> 0 | Some n \<Rightarrow> unat n)"

definition recvs_done :: "'r uring \<Rightarrow> 64 word \<Rightarrow> nat" where
  "recvs_done u key = (if ur_completed_recvs u key = None then 0 else 1)"

definition queued :: "'r uring \<Rightarrow> 64 word \<Rightarrow> nat" where
  "queued u key = count (mset (map sqe_key (ur_pending u))) key"

text \<open>
  \<open>rx\<close>: receives of a connection that the kernel or the table of completions still knows; \<open>tx\<close>: sends
  that are queued, with the kernel, or completed and not yet reclaimed.
\<close>

definition rx :: "('r \<Rightarrow> 'w \<Rightarrow> 64 word multiset) \<Rightarrow> 64 word \<Rightarrow> 'r uring \<times> 'w \<Rightarrow> nat" where
  "rx outst key x = count (outst (ur_ring (fst x)) (snd x)) key + recvs_done (fst x) key"

definition tx :: "('r \<Rightarrow> 'w \<Rightarrow> 64 word multiset) \<Rightarrow> 64 word \<Rightarrow> 'r uring \<times> 'w \<Rightarrow> nat" where
  "tx outst key x = count (outst (ur_ring (fst x)) (snd x)) key + sends_done (fst x) key + queued (fst x) key"

lemma reap_one_sel [simp]:
  "ur_ring (reap_one c u) = ur_ring u" "ur_pending (reap_one c u) = ur_pending u"
  "ur_mode (reap_one c u) = ur_mode u" "ur_sqpoll (reap_one c u) = ur_sqpoll u"
  by (simp_all add: reap_one_def)

lemma fold_reap_sel [simp]:
  "ur_ring (fold reap_one cs u) = ur_ring u" "ur_pending (fold reap_one cs u) = ur_pending u"
  "ur_mode (fold reap_one cs u) = ur_mode u" "ur_sqpoll (fold reap_one cs u) = ur_sqpoll u"
  by (induction cs arbitrary: u) simp_all

lemma fold_reap_recvs:
  assumes "key AND 1 = 1" and "count (mset (map cqe_key cs)) key + recvs_done u key \<le> 1"
  shows "recvs_done (fold reap_one cs u) key = count (mset (map cqe_key cs)) key + recvs_done u key"
  using assms
proof (induction cs arbitrary: u)
  case (Cons c cs)
  then have "recvs_done (reap_one c u) key = recvs_done u key + (if cqe_key c = key then 1 else 0)"
    by (auto simp: recvs_done_def reap_one_def OP_SEND_def)
  with Cons.IH [of "reap_one c u"] Cons.prems show ?case by (auto split: if_splits)
qed simp

lemma fold_reap_sends:
  assumes "key AND 1 = 0" and "count (mset (map cqe_key cs)) key + sends_done u key < 2 ^ 32"
  shows "sends_done (fold reap_one cs u) key = count (mset (map cqe_key cs)) key + sends_done u key"
  using assms
proof (induction cs arbitrary: u)
  case (Cons c cs)
  have "unat (n + 1) = unat n + 1" if "unat n + 1 < 2 ^ 32" for n :: "32 word"
    using that by (simp add: unat_word_ariths)
  with Cons.prems have "sends_done (reap_one c u) key = sends_done u key + (if cqe_key c = key then 1 else 0)"
    by (auto simp: sends_done_def reap_one_def OP_SEND_def split: option.splits)
  with Cons.IH [of "reap_one c u"] Cons.prems show ?case by (auto split: if_splits)
qed simp

lemma reap_counts:
  assumes "uring_contract U outst"
  shows "key AND 1 = 1 \<Longrightarrow> rx outst key x \<le> 1 \<Longrightarrow> rx outst key (reap U x) = rx outst key x"
    and "key AND 1 = 0 \<Longrightarrow> tx outst key x < 2 ^ 32 \<Longrightarrow> tx outst key (reap U x) = tx outst key x"
proof -
  obtain u w where x: "x = (u, w)" by force
  obtain cs r w' where t: "cq_take U (ur_ring u) w = (cs, r, w')" by (metis prod.exhaust)
  have o: "outst (ur_ring u) w = mset (map cqe_key cs) + outst r w'"
    using uring_contractD(3) [OF assms t] by simp
  have d: "recvs_done (u\<lparr>ur_ring := r\<rparr>) key = recvs_done u key" "sends_done (u\<lparr>ur_ring := r\<rparr>) key = sends_done u key"
    by (simp_all add: recvs_done_def sends_done_def)
  show "rx outst key (reap U x) = rx outst key x" if "key AND 1 = 1" "rx outst key x \<le> 1"
    using fold_reap_recvs [OF that(1), of cs "u\<lparr>ur_ring := r\<rparr>"] that(2) x t o d by (simp add: rx_def reap_def)
  show "tx outst key (reap U x) = tx outst key x" if "key AND 1 = 0" "tx outst key x < 2 ^ 32"
    using fold_reap_sends [OF that(1), of cs "u\<lparr>ur_ring := r\<rparr>"] that(2) x t o d
    by (simp add: tx_def reap_def queued_def)
qed

lemma reap_pending [simp]: "ur_pending (fst (reap U x)) = ur_pending (fst x)"
  by (simp add: reap_def split: prod.split)

lemma ring_only:
  "recvs_done (u\<lparr>ur_ring := r\<rparr>) key = recvs_done u key" "sends_done (u\<lparr>ur_ring := r\<rparr>) key = sends_done u key"
  "queued (u\<lparr>ur_ring := r\<rparr>) key = queued u key"
  by (simp_all add: recvs_done_def sends_done_def queued_def)

lemma flush_counts:
  assumes "uring_contract U outst" and "flush_submit U x = (r, y)"
  shows "rx outst key y = rx outst key x" and "tx outst key y = tx outst key x"
    and "ur_pending (fst y) = ur_pending (fst x)"
proof -
  obtain u w where x: "x = (u, w)" by force
  obtain s ring w' where s: "ring_submit U (ur_ring u) w = (s, ring, w')" by (metis prod.exhaust)
  have "y = (if ur_sqpoll u then (u, w) else (u\<lparr>ur_ring := ring\<rparr>, w'))"
    using assms(2) x s by (cases s) (auto simp: flush_submit_def split: if_splits)
  then show "rx outst key y = rx outst key x" "tx outst key y = tx outst key x"
    "ur_pending (fst y) = ur_pending (fst x)"
    using x uring_contractD(2) [OF assms(1) s] by (auto simp: rx_def tx_def ring_only)
qed

text \<open>What a push changes: the pushed request is outstanding exactly if the push succeeded.\<close>

definition pushed :: "('r \<Rightarrow> 'w \<Rightarrow> 64 word multiset) \<Rightarrow> sqe \<Rightarrow> 'r uring \<times> 'w
    \<Rightarrow> (unit, io_error) res \<times> 'r uring \<times> 'w \<Rightarrow> bool" where
  "pushed outst e x y \<longleftrightarrow>
     ur_pending (fst (snd y)) = ur_pending (fst x) \<and>
     (\<forall>key. key AND 1 = 1 \<longrightarrow> rx outst key x \<le> 1 \<longrightarrow>
        rx outst key (snd y) = rx outst key x + (if is_ok (fst y) \<and> sqe_key e = key then 1 else 0)) \<and>
     (\<forall>key. key AND 1 = 0 \<longrightarrow> tx outst key x < 2 ^ 32 \<longrightarrow>
        tx outst key (snd y) = tx outst key x + (if is_ok (fst y) \<and> sqe_key e = key then 1 else 0))"

lemma push_loop_pushed:
  assumes "uring_contract U outst" and "push_loop U e x = Some y"
  shows "pushed outst e x y"
proof -
  have "U' = U \<longrightarrow> pushed outst e' x' y'" if "push_loop U' e' x' = Some y'" for U' e' x' y'
    using that
  proof (rule push_loop.raw_induct [where P = "\<lambda>U' e x y. U' = U \<longrightarrow> pushed outst e x y"
        and xa = "((U', e'), x')", unfolded prod.case, rotated])
    fix loop U' e x y
    assume IH: "\<And>U' e x y. loop U' e x = Some y \<Longrightarrow> U' = U \<longrightarrow> pushed outst e x y"
      and y: "(case sq_push U' e (ur_ring (fst x)) (snd x) of (ok, ring, w) \<Rightarrow>
        if ok then Some (Ok (), (fst x)\<lparr>ur_ring := ring\<rparr>, w)
        else (case flush_submit U' ((fst x)\<lparr>ur_ring := ring\<rparr>, w) of (r, y) \<Rightarrow>
                (case r of
                   Ok _ \<Rightarrow> loop U' e (reap U' y)
                 | Err er \<Rightarrow> Some (Err er, y)
                 | Panic \<Rightarrow> Some (Panic, y)
                 | Hang \<Rightarrow> Some (Hang, y)))) = Some y"
    show "U' = U \<longrightarrow> pushed outst e x y"
    proof
      assume U: "U' = U"
      obtain u w where x: "x = (u, w)" by force
      obtain ok ring w1 where p: "sq_push U e (ur_ring u) w = (ok, ring, w1)" by (metis prod.exhaust)
      let ?x = "(u\<lparr>ur_ring := ring\<rparr>, w1)"
      obtain r z where f: "flush_submit U ?x = (r, z)" by (cases "flush_submit U ?x")
      note o = uring_contractD(1) [OF assms(1) p]
      show "pushed outst e x y"
      proof (cases ok)
        case True
        with y U x p have "y = (Ok (), ?x)" by simp
        with x o True show ?thesis by (simp add: pushed_def rx_def tx_def ring_only)
      next
        case False
        have same: "rx outst key z = rx outst key x" "tx outst key z = tx outst key x"
          "ur_pending (fst z) = ur_pending (fst x)" for key
          using flush_counts(1,2) [OF assms(1) f, of key] flush_counts(3) [OF assms(1) f] x o False by (simp_all add: rx_def tx_def ring_only)
        show ?thesis
        proof (cases r)
          case (Ok v)
          with y U x p False f have "loop U e (reap U z) = Some y" by simp
          from IH [OF this] have "pushed outst e (reap U z) y" by simp
          then show ?thesis
            using reap_counts [OF assms(1)] same by (simp add: pushed_def)
        qed (use y U x p False f same in \<open>auto simp: pushed_def\<close>)
      qed
    qed
  qed
  with assms(2) show ?thesis by blast
qed

lemma pushed_self: "\<not> is_ok r \<Longrightarrow> pushed outst e x (r, x)"
  by (simp add: pushed_def)

lemma push_sqe_pushed: "uring_contract U outst \<Longrightarrow> pushed outst e x (push_sqe U e x)"
  using push_loop_pushed [of U outst e x] pushed_self [of Hang outst e x]
  by (simp add: push_sqe_def split: option.split)

text \<open>Operations of the backend alone may lose a queued send when the kernel refuses it, but never invent one.\<close>

definition keeps :: "('r \<Rightarrow> 'w \<Rightarrow> 64 word multiset) \<Rightarrow> 'r uring \<times> 'w \<Rightarrow> 'r uring \<times> 'w \<Rightarrow> bool" where
  "keeps outst x y \<longleftrightarrow>
     set (ur_pending (fst y)) \<subseteq> set (ur_pending (fst x)) \<and>
     (\<forall>key. key AND 1 = 1 \<longrightarrow> rx outst key x \<le> 1 \<longrightarrow> rx outst key y = rx outst key x) \<and>
     (\<forall>key. key AND 1 = 0 \<longrightarrow> tx outst key x < 2 ^ 32 \<longrightarrow> tx outst key y \<le> tx outst key x)"

lemma keeps_refl: "keeps outst x x"
  by (simp add: keeps_def)

lemma keeps_trans:
  assumes "keeps outst x y" and "keeps outst y z"
  shows "keeps outst x z"
  unfolding keeps_def
proof (intro conjI allI impI)
  show "set (ur_pending (fst z)) \<subseteq> set (ur_pending (fst x))" using assms by (auto simp: keeps_def)
  show "rx outst key z = rx outst key x" if "key AND 1 = 1" "rx outst key x \<le> 1" for key
    using assms that by (simp add: keeps_def)
  show "tx outst key z \<le> tx outst key x" if "key AND 1 = 0" "tx outst key x < 2 ^ 32" for key
  proof -
    have "tx outst key y \<le> tx outst key x" using assms(1) that unfolding keeps_def by blast
    moreover from this that(2) have "tx outst key y < 2 ^ 32" by (rule order_le_less_trans)
    then have "tx outst key z \<le> tx outst key y" using assms(2) that(1) unfolding keeps_def by blast
    ultimately show ?thesis by simp
  qed
qed

lemma flush_keeps: "uring_contract U outst \<Longrightarrow> keeps outst x (snd (flush_submit U x))"
  using flush_counts [of U outst x "fst (flush_submit U x)" "snd (flush_submit U x)"] by (simp add: keeps_def)

lemma reap_keeps: "uring_contract U outst \<Longrightarrow> keeps outst x (reap U x)"
  using reap_counts [of U outst] by (simp add: keeps_def)

lemma drain_entries_keeps:
  assumes "uring_contract U outst"
  shows "ur_pending (fst x) = es \<Longrightarrow> \<forall>e \<in> set es. sqe_key e AND 1 = 0 \<Longrightarrow> keeps outst x (snd (drain_entries U es x))"
proof (induction es arbitrary: x)
  case (Cons e es)
  let ?x = "((fst x)\<lparr>ur_pending := es\<rparr>, snd x)"
  obtain r y where y: "push_sqe U e ?x = (r, y)" by (cases "push_sqe U e ?x")
  have p: "pushed outst e ?x (r, y)" using push_sqe_pushed [OF assms, of e ?x] y by simp
  have rx: "rx outst key ?x = rx outst key x" for key by (simp add: rx_def recvs_done_def)
  have tx: "tx outst key x = tx outst key ?x + (if sqe_key e = key then 1 else 0)" for key
    using Cons.prems(1) by (simp add: tx_def queued_def sends_done_def)
  have "keeps outst x y"
    unfolding keeps_def
  proof (intro conjI allI impI)
    show "set (ur_pending (fst y)) \<subseteq> set (ur_pending (fst x))"
      using p Cons.prems(1) by (auto simp: pushed_def)
    show "rx outst key y = rx outst key x" if "key AND 1 = 1" "rx outst key x \<le> 1" for key
      using p that Cons.prems(2) rx [of key] by (auto simp: pushed_def)
    show "tx outst key y \<le> tx outst key x" if "key AND 1 = 0" "tx outst key x < 2 ^ 32" for key
      using p that tx [of key] by (auto simp: pushed_def split: if_splits)
  qed
  moreover have "keeps outst y (snd (drain_entries U es y))"
    using Cons.IH [of y] p Cons.prems(2) by (simp add: pushed_def)
  ultimately show ?case
    using y by (cases r) (auto intro: keeps_trans)
qed (simp add: keeps_refl)

lemma drive_inner_keeps:
  assumes "uring_contract U outst" and "\<forall>e \<in> set (ur_pending (fst x)). sqe_key e AND 1 = 0"
  shows "keeps outst x (snd (drive_inner U x))"
proof -
  obtain r y where y: "(if ur_mode (fst x) = BatchSyscall then drain_pending U x else (Ok (), x)) = (r, y)"
    by (cases "if ur_mode (fst x) = BatchSyscall then drain_pending U x else (Ok (), x)")
  have k1: "keeps outst x y"
    using y drain_entries_keeps [OF assms(1) refl assms(2)] keeps_refl [of outst x]
    by (auto simp: drain_pending_def split: if_splits)
  obtain r2 z where z: "flush_submit U y = (r2, z)" by (cases "flush_submit U y")
  have k2: "keeps outst x z"
    using keeps_trans [OF k1 flush_keeps [OF assms(1), of y]] z by simp
  have k3: "keeps outst x (reap U z)" by (rule keeps_trans [OF k2 reap_keeps [OF assms(1)]])
  have "drive_inner U x = bind_st (r, y) (\<lambda>_ x. bind_st (flush_submit U x) (\<lambda>_ x. (Ok (), reap U x)))"
    unfolding drive_inner_def y ..
  then show ?thesis using k1 k2 k3 z by (cases r; cases r2) auto
qed

text \<open>
  The invariant of a connection: the kernel has the receive buffer for one receive at most,
  exactly while the flag says so, and every send that the kernel may still read has a buffer.
\<close>

definition buffers_ok :: "('r \<Rightarrow> 'w \<Rightarrow> 64 word multiset) \<Rightarrow> 'r uring \<times> uring_conn \<times> 'w \<Rightarrow> bool" where
  "buffers_ok outst = (\<lambda>(u, k, w).
     rx outst (ud (uc_idx k) OP_RECV) (u, w) = (if uc_recv_in_flight k then 1 else 0)
     \<and> tx outst (ud (uc_idx k) OP_SEND) (u, w) \<le> length (uc_send_in_flight k)
     \<and> (\<forall>e \<in> set (ur_pending u). sqe_key e AND 1 = 0))"

lemma buffers_ok_keeps:
  assumes "buffers_ok outst (u, k, w)" and "keeps outst (u, w) (u', w')"
    and "length (uc_send_in_flight k) < 2 ^ 32"
  shows "buffers_ok outst (u', k, w')"
proof -
  have "rx outst (ud (uc_idx k) OP_RECV) (u', w') = rx outst (ud (uc_idx k) OP_RECV) (u, w)"
    using assms(1,2) by (auto simp: buffers_ok_def keeps_def)
  moreover have "tx outst (ud (uc_idx k) OP_SEND) (u', w') \<le> tx outst (ud (uc_idx k) OP_SEND) (u, w)"
    using assms unfolding buffers_ok_def keeps_def
    by (metis (no_types, lifting) case_prod_conv order_le_less_trans ud_send)
  ultimately show ?thesis
    using assms(1,2) by (auto simp: buffers_ok_def keeps_def)
qed

lemma arm_recv_ok:
  assumes "uring_contract U outst" and "buffers_ok outst (u, k, w)" and "length (uc_send_in_flight k) < 2 ^ 32"
    and "arm_recv U (u, k, w) = (r, u', k', w')"
  shows "buffers_ok outst (u', k', w') \<and> uc_send_in_flight k' = uc_send_in_flight k"
proof (cases "uc_recv_in_flight k")
  case True
  with assms(2,4) show ?thesis by (simp add: arm_recv_def)
next
  case False
  let ?e = "Recv_Sqe (uc_fd k) RX_CAP (ud (uc_idx k) OP_RECV)"
  obtain rp up wp where p: "push_sqe U ?e (u, w) = (rp, up, wp)" by (metis prod.exhaust)
  have ps: "pushed outst ?e (u, w) (rp, up, wp)" using push_sqe_pushed [OF assms(1), of ?e "(u, w)"] p by simp
  have "arm_recv U (u, k, w) = (rp, up, if is_ok rp then k\<lparr>uc_recv_in_flight := True\<rparr> else k, wp)"
    using p False by (cases rp) (simp_all add: arm_recv_def)
  with assms(4) have x: "u' = up" "w' = wp" "k' = (if is_ok rp then k\<lparr>uc_recv_in_flight := True\<rparr> else k)"
    by auto
  have "rx outst (ud (uc_idx k) OP_RECV) (up, wp) = (if is_ok rp then 1 else 0)"
    using ps assms(2) False by (simp add: pushed_def buffers_ok_def)
  moreover have "tx outst (ud (uc_idx k) OP_SEND) (u, w) < 2 ^ 32"
    using assms(2,3) by (simp add: buffers_ok_def)
  then have "tx outst (ud (uc_idx k) OP_SEND) (up, wp) = tx outst (ud (uc_idx k) OP_SEND) (u, w)"
    using ps ud_distinct [of "uc_idx k" "uc_idx k"] by (simp add: pushed_def)
  moreover have "ur_pending up = ur_pending u" using ps by (simp add: pushed_def)
  ultimately show ?thesis using x assms(2) False by (auto simp: buffers_ok_def)
qed

lemma reclaim_ok:
  assumes "buffers_ok outst (u, k, w)" and "reclaim_sends u k = (u', k')"
  shows "buffers_ok outst (u', k', w)"
proof (cases "ur_completed_sends u (ud (uc_idx k) OP_SEND)")
  case (Some n)
  let ?key = "ud (uc_idx k) OP_SEND"
  have x: "u' = u\<lparr>ur_completed_sends := (ur_completed_sends u)(?key := None)\<rparr>"
    "k' = k\<lparr>uc_send_in_flight := drop (unat n) (uc_send_in_flight k)\<rparr>"
    using assms(2) Some by (simp_all add: reclaim_sends_def Let_def)
  have "tx outst ?key (u, w) = tx outst ?key (u', w) + unat n"
    using Some x(1) by (simp add: tx_def sends_done_def queued_def)
  then have "tx outst ?key (u', w) \<le> length (uc_send_in_flight k) - unat n"
    using assms(1) by (auto simp: buffers_ok_def)
  with assms(1) x show ?thesis by (simp add: buffers_ok_def rx_def recvs_done_def)
qed (use assms in \<open>simp add: reclaim_sends_def Let_def\<close>)

lemma take_recv_ok:
  assumes "buffers_ok outst (u, k, w)" and "take_recv len (u, k, w) = (r, u', k', w')"
  shows "buffers_ok outst (u', k', w')"
proof (cases "ur_completed_recvs u (ud (uc_idx k) OP_RECV)")
  case (Some c)
  let ?key = "ud (uc_idx k) OP_RECV"
  have x: "u' = u\<lparr>ur_completed_recvs := (ur_completed_recvs u)(?key := None)\<rparr>"
    "k' = k\<lparr>uc_recv_in_flight := False\<rparr>" "w' = w"
    using assms(2) Some by (cases c; auto simp: take_recv_def Let_def split: if_splits)+
  have "recvs_done u ?key = 1" using Some by (simp add: recvs_done_def)
  with assms(1) have "count (outst (ur_ring u) w) ?key = 0" by (auto simp: buffers_ok_def rx_def split: if_splits)
  with assms(1) x show ?thesis
    by (simp add: buffers_ok_def rx_def recvs_done_def tx_def sends_done_def queued_def)
qed (use assms in \<open>simp add: take_recv_def Let_def\<close>)

lemma poll_recv_ok:
  assumes "uring_contract U outst" and "buffers_ok outst (u, k, w)" and "length (uc_send_in_flight k) < 2 ^ 32"
    and "uring_poll_recv U len (u, k, w) = (r, u', k', w')"
  shows "buffers_ok outst (u', k', w')"
proof -
  obtain r1 u1 k1 w1 where 1: "arm_recv U (u, k, w) = (r1, u1, k1, w1)" by (metis prod.exhaust)
  have ok1: "buffers_ok outst (u1, k1, w1)" "uc_send_in_flight k1 = uc_send_in_flight k"
    using arm_recv_ok [OF assms(1-3) 1] by simp_all
  obtain r2 u2 w2 where 2: "drive_inner U (u1, w1) = (r2, u2, w2)" by (metis prod.exhaust)
  have "keeps outst (u1, w1) (u2, w2)"
    using drive_inner_keeps [OF assms(1), of "(u1, w1)"] ok1(1) 2 by (simp add: buffers_ok_def)
  then have ok2: "buffers_ok outst (u2, k1, w2)"
    using buffers_ok_keeps [OF ok1(1)] ok1(2) assms(3) by simp
  obtain u3 k3 where 3: "reclaim_sends u2 k1 = (u3, k3)" by force
  have ok3: "buffers_ok outst (u3, k3, w2)" by (rule reclaim_ok [OF ok2 3])
  obtain r4 u4 k4 w4 where 4: "take_recv len (u3, k3, w2) = (r4, u4, k4, w4)" by (metis prod.exhaust)
  have ok4: "buffers_ok outst (u4, k4, w4)" by (rule take_recv_ok [OF ok3 4])
  from assms(4) 1 2 3 4 ok1(1) ok2 ok4 show ?thesis
    by (cases r1; cases r2) (auto simp: uring_poll_recv_def)
qed

lemma submit_ok:
  assumes "uring_contract U outst" and "buffers_ok outst (u, k, w)" and "Suc (length (uc_send_in_flight k)) < 2 ^ 32"
    and "uring_submit U wk bs (u, k, w) = (r, u', k', w')"
  shows "buffers_ok outst (u', k', w')"
proof (cases "wk = Stream_Wire")
  case True
  let ?k = "k\<lparr>uc_send_in_flight := uc_send_in_flight k @ [bs]\<rparr>"
  let ?e = "Send_Sqe (uc_fd k) (take (length bs mod 2 ^ 32) bs) (ud (uc_idx k) OP_SEND)"
  let ?S = "ud (uc_idx k) OP_SEND" and ?R = "ud (uc_idx k) OP_RECV"
  note inv = assms(2) [unfolded buffers_ok_def, simplified]
  show ?thesis
  proof (cases "ur_mode u")
    case BatchSyscall
    then have "u' = u\<lparr>ur_pending := ur_pending u @ [?e]\<rparr>" "k' = ?k" "w' = w"
      using assms(4) True by (auto simp: uring_submit_def Let_def)
    then show ?thesis
      using inv by (auto simp: buffers_ok_def rx_def tx_def queued_def recvs_done_def sends_done_def)
  next
    case SqeStream
    obtain r1 u1 w1 where p: "push_sqe U ?e (u, w) = (r1, u1, w1)" by (metis prod.exhaust)
    have ps: "pushed outst ?e (u, w) (r1, u1, w1)" using push_sqe_pushed [OF assms(1), of ?e "(u, w)"] p by simp
    have "rx outst ?R (u1, w1) = rx outst ?R (u, w)"
      using ps inv ud_distinct [of "uc_idx k" "uc_idx k"] by (auto simp: pushed_def)
    moreover have "tx outst ?S (u, w) < 2 ^ 32" using inv assms(3) by simp
    then have "tx outst ?S (u1, w1) \<le> tx outst ?S (u, w) + 1" using ps by (simp add: pushed_def)
    moreover have "ur_pending u1 = ur_pending u" using ps by (simp add: pushed_def)
    ultimately have ok1: "buffers_ok outst (u1, ?k, w1)" using inv by (simp add: buffers_ok_def)
    obtain r2 u2 w2 where f: "flush_submit U (u1, w1) = (r2, u2, w2)" by (metis prod.exhaust)
    have "keeps outst (u1, w1) (u2, w2)" using flush_keeps [OF assms(1), of "(u1, w1)"] f by simp
    then have ok2: "buffers_ok outst (u2, ?k, w2)"
      using buffers_ok_keeps [OF ok1] assms(3) by simp
    have "k' = ?k" "(u', w') = (u1, w1) \<or> (u', w') = (u2, w2)"
      using assms(4) True SqeStream p f by (cases r1; auto simp: uring_submit_def Let_def)+
    with ok1 ok2 show ?thesis by auto
  qed
qed (use assms in \<open>simp add: uring_submit_def\<close>)

section \<open>Properties\<close>

text \<open>
  The life of a connection on its own backend: it is opened on a fresh ring, and then any
  sequence of calls is made on it, whatever their results, while other threads change the world
  without touching the ring. At any time fewer than \<open>2 ^ 32\<close> buffers are staged.
\<close>

inductive uring_life :: "('r, 'w) uring_ops \<Rightarrow> ('r \<Rightarrow> 'w \<Rightarrow> 64 word multiset) \<Rightarrow> 'r uring \<times> uring_conn \<times> 'w \<Rightarrow> bool"
  for U outst where
  opened: "uring_new U mode tuning w0 = (Ok u0, w1) \<Longrightarrow> outst (ur_ring u0) w2 = {#} \<Longrightarrow>
    uring_connect U endpoint u0 w1 = (Ok k, u, w2) \<Longrightarrow> uring_life U outst (u, k, w2)"
| submitted: "uring_life U outst (u, k, w) \<Longrightarrow> Suc (length (uc_send_in_flight k)) < 2 ^ 32 \<Longrightarrow>
    uring_submit U wk bs (u, k, w) = (r, u', k', w') \<Longrightarrow> uring_life U outst (u', k', w')"
| polled: "uring_life U outst (u, k, w) \<Longrightarrow> length (uc_send_in_flight k) < 2 ^ 32 \<Longrightarrow>
    uring_poll_recv U len (u, k, w) = (r, u', k', w') \<Longrightarrow> uring_life U outst (u', k', w')"
| driven: "uring_life U outst (u, k, w) \<Longrightarrow> length (uc_send_in_flight k) < 2 ^ 32 \<Longrightarrow>
    uring_drive U u w = (r, u', w') \<Longrightarrow> uring_life U outst (u', k, w')"
| others: "uring_life U outst (u, k, w) \<Longrightarrow> outst (ur_ring u) w' = outst (ur_ring u) w \<Longrightarrow> uring_life U outst (u, k, w')"

lemma uring_new_sel:
  assumes "uring_new U mode tuning w = (Ok u, w')"
  shows "ur_pending u = []" "ur_completed_sends u = Map.empty" "ur_completed_recvs u = Map.empty"
proof -
  obtain r w1 where "ring_build U RING_ENTRIES (sqpoll tuning) w = (r, w1)" by force
  with assms show "ur_pending u = []" "ur_completed_sends u = Map.empty" "ur_completed_recvs u = Map.empty"
    by (cases r; auto simp: uring_new_def)+
qed

lemma uring_connect_sel:
  assumes "uring_connect U endpoint u w = (Ok k, u', w')"
  shows "u' = u\<lparr>ur_next_idx := ur_next_idx u + 1\<rparr>" "\<not> uc_recv_in_flight k" "uc_send_in_flight k = []"
proof -
  obtain r w1 where "bind_st (tcp_connect (ur_os U) endpoint w) (\<lambda>fd w.
      bind_st (set_nodelay (ur_os U) fd w) (\<lambda>_ w. (Ok fd, w))) = (r, w1)" by force
  with assms show "u' = u\<lparr>ur_next_idx := ur_next_idx u + 1\<rparr>" "\<not> uc_recv_in_flight k" "uc_send_in_flight k = []"
    by (cases r; auto simp: uring_connect_def)+
qed

lemma uring_life_ok:
  assumes "uring_contract U outst" and "uring_life U outst x"
  shows "buffers_ok outst x"
  using assms(2)
proof (induction rule: uring_life.induct)
  case (opened mode tuning w0 u0 w1 w2 endpoint k u)
  note s = uring_new_sel [OF opened(1)] and c = uring_connect_sel [OF opened(3)]
  show ?case
    using s c opened(2) by (simp add: buffers_ok_def rx_def tx_def recvs_done_def sends_done_def queued_def)
next
  case (submitted u k w wk bs r u' k' w')
  then show ?case using submit_ok [OF assms(1)] by blast
next
  case (polled u k w len r u' k' w')
  then show ?case using poll_recv_ok [OF assms(1)] by blast
next
  case (driven u k w r u' w')
  obtain r1 u1 w1 where d: "drive_inner U (u, w) = (r1, u1, w1)" by (metis prod.exhaust)
  with driven.hyps(3) have "u' = u1" "w' = w1" by (simp_all add: uring_drive_def)
  moreover have "keeps outst (u, w) (u1, w1)"
    using drive_inner_keeps [OF assms(1), of "(u, w)"] driven.IH d by (simp add: buffers_ok_def)
  ultimately show ?case using buffers_ok_keeps [OF driven.IH] driven.hyps(2) by simp
next
  case (others u k w w')
  then show ?case by (simp add: buffers_ok_def rx_def tx_def)
qed


text \<open>A ring as a list of pushed keys, completed in order by whatever result the world has ready.\<close>

definition list_uring :: "(64 word list, int list) uring_ops" where
  "list_uring = \<lparr>ring_build = (\<lambda>_ _ w. (Ok [], w)), sq_push = (\<lambda>e r w. (True, r @ [sqe_key e], w)),
     ring_submit = (\<lambda>r w. (Ok 0, r, w)),
     cq_take = (\<lambda>r w. (map2 (\<lambda>k n. \<lparr>cqe_key = k, cqe_result = n, cqe_data = replicate (nat n) (CHR ''x'')\<rparr>) r w,
        drop (length w) r, drop (length r) w)),
     ur_os = \<lparr>tcp_connect = (\<lambda>_ w. (Ok 3, w)), set_nodelay = (\<lambda>_ w. (Ok (), w)),
       set_nonblocking = (\<lambda>_ w. (Ok (), w)), udp_bind = (\<lambda>_ w. (Ok 4, w)),
       c_send = (\<lambda>_ _ w. ((0, 0), w)), c_recv = (\<lambda>_ _ w. ((0, 0, []), w)), c_recvfrom = (\<lambda>_ _ w. ((0, 0, []), w)),
       c_sendto = (\<lambda>_ _ _ w. ((0, 0), w)), c_sendmsg = (\<lambda>_ _ _ _ w. ((0, 0), w))\<rparr>,
     ur_display = (\<lambda>_. [])\<rparr>"

lemma map_fst_zip_take: "map fst (zip xs ys) = take (length ys) xs"
  by (induction xs arbitrary: ys) (auto simp: zip_Cons1 split: list.split)

lemma list_uring_contract: "uring_contract list_uring (\<lambda>r _. mset r)"
proof -
  have "mset (map cqe_key (map2 (\<lambda>k n. \<lparr>cqe_key = k, cqe_result = n, cqe_data = replicate (nat n) (CHR ''x'')\<rparr>) r w))
      + mset (drop (length w) r) = mset r" for r :: "64 word list" and w :: "int list"
  proof -
    have "map cqe_key (map2 (\<lambda>k n. \<lparr>cqe_key = k, cqe_result = n, cqe_data = replicate (nat n) (CHR ''x'')\<rparr>) r w)
        = take (length w) r"
      using map_fst_zip_take [of r w] by (simp add: case_prod_unfold comp_def)
    then show ?thesis by (metis append_take_drop_id mset_append)
  qed
  then show ?thesis by (auto simp: uring_contract_def list_uring_def simp del: mset_map map_map)
qed

lemma list_uring_sel:
  "sq_push list_uring e r w = (True, r @ [sqe_key e], w)" "ring_submit list_uring r w = (Ok 0, r, w)"
  "cq_take list_uring r [] = ([], r, [])"
  by (simp_all add: list_uring_def)

lemma list_push: "push_sqe list_uring e (u, w) = (Ok (), u\<lparr>ur_ring := ur_ring u @ [sqe_key e]\<rparr>, w)"
  by (simp add: push_sqe_def push_loop.simps [of list_uring e] list_uring_sel)

definition fresh_uring :: "64 word list uring" where
  "fresh_uring = \<lparr>ur_ring = [], ur_mode = BatchSyscall, ur_sqpoll = False, ur_next_idx = 1, ur_pending = [],
     ur_completed_sends = Map.empty, ur_completed_recvs = Map.empty\<rparr>"

definition fresh_conn :: uring_conn where
  "fresh_conn = \<lparr>uc_fd = 3, uc_idx = 0, uc_recv_in_flight = False, uc_send_in_flight = []\<rparr>"

lemma fresh_life: "uring_life list_uring (\<lambda>r _. mset r) (fresh_uring, fresh_conn, w)"
  by (rule uring_life.opened [of _ BatchSyscall "\<lparr>sqpoll = None\<rparr>" w "fresh_uring\<lparr>ur_next_idx := 0\<rparr>" w _ w "[]"])
     (simp_all add: uring_new_def uring_connect_def list_uring_def fresh_uring_def fresh_conn_def)


text \<open>
  What became of a send is never looked at: two batches of completions that differ only in
  the results of their sends, failed and short ones included, leave the backend in the same
  state, so neither a lost connection nor a truncated request is noticed here.
\<close>

theorem uring_send_results_ignored:
  assumes "list_all2 (\<lambda>c c'. cqe_key c = cqe_key c' \<and> (cqe_key c AND 1 \<noteq> OP_SEND \<longrightarrow> c = c')) cs cs'"
  shows "fold reap_one cs u = fold reap_one cs' u"
  using assms
proof (induction cs cs' arbitrary: u rule: list_all2_induct)
  case (Cons c cs c' cs')
  then have "reap_one c u = reap_one c' u"
    by (cases "cqe_key c AND 1 = OP_SEND") (simp_all add: reap_one_def)
  with Cons.IH show ?case by simp
qed simp

theorem uring_send_results_ignored_witness:
  "fold reap_one [\<lparr>cqe_key = 0, cqe_result = 500, cqe_data = []\<rparr>] fresh_uring
     = fold reap_one [\<lparr>cqe_key = 0, cqe_result = - 32, cqe_data = []\<rparr>] fresh_uring"
  by (rule uring_send_results_ignored) (simp add: OP_SEND_def)



end
