(* ===== verification/Libtpa.thy ===== *)
theory Libtpa
  imports Raw_Libc
begin

unbundle bit_operations_syntax

text \<open>
  The byte transport on the user-space stack libtpa, \<open>backend/libtpa/mod.rs\<close>. The functions of
  \<open>libtpa_sys\<close>, the lock file and the process-wide flag are the record \<open>tpa_ops\<close>. A worker is named
  by its address, 0 for the null pointer.
\<close>

section \<open>The library\<close>

text \<open>\<open>TpaIp\<close> as four 32-bit words, in the byte order of the machine; ports in network order.\<close>

record tpa_udp_pkt =
  pk_data :: bytes
  pk_len :: "16 word"
  pk_remote_ip :: "32 word list"
  pk_remote_port :: "16 word"
  pk_local_port :: "16 word"

record 'w tpa_ops =
  open_lock_file :: "'w \<Rightarrow> (fd, io_error) res \<times> 'w"
  c_flock :: "fd \<Rightarrow> 'w \<Rightarrow> (int \<times> nat) \<times> 'w"
  init_done :: "'w \<Rightarrow> bool"
  set_init_done :: "bool \<Rightarrow> 'w \<Rightarrow> 'w"
  tpa_init_with_udp_queues :: "int \<Rightarrow> int \<Rightarrow> 'w \<Rightarrow> int \<times> 'w"
  tpa_udp_init :: "16 word list \<Rightarrow> 'w \<Rightarrow> (int \<times> 16 word list) \<times> 'w"
  tpa_worker_init :: "'w \<Rightarrow> nat \<times> 'w"
  tpa_connect_to :: "bytes \<Rightarrow> 16 word \<Rightarrow> 'w \<Rightarrow> int \<times> 'w"
  tpa_write :: "int \<Rightarrow> bytes \<Rightarrow> 'w \<Rightarrow> (int \<times> nat) \<times> 'w"
  tpa_worker_run :: "nat \<Rightarrow> 'w \<Rightarrow> 'w"
  tpa_udp_send_batch :: "nat \<Rightarrow> tpa_udp_pkt \<Rightarrow> 'w \<Rightarrow> int \<times> 'w"
  tpa_udp_recv_batch :: "nat \<Rightarrow> 16 word \<Rightarrow> 'w \<Rightarrow> (int \<times> bytes) \<times> 'w"
  tpa_event_poll :: "nat \<Rightarrow> 'w \<Rightarrow> (int \<times> 32 word) \<times> 'w"
  tpa_zreadv :: "int \<Rightarrow> 32 word \<Rightarrow> 'w \<Rightarrow> (int \<times> nat \<times> bytes) \<times> 'w"
  TPA_EVENT_IN :: "32 word"
  debug_transport :: "transport_error \<Rightarrow> bytes"

section \<open>The runtime\<close>

record tpa_runtime =
  rt_lock :: fd

definition try_acquire_lock_only :: "'w tpa_ops \<Rightarrow> 'w \<Rightarrow> (tpa_runtime, io_error) res \<times> 'w" where
  "try_acquire_lock_only A w =
     bind_st (open_lock_file A w) (\<lambda>lock w.
     case c_flock A lock w of ((rc, errno), w) \<Rightarrow>
       if rc \<noteq> 0 then (Err (Os errno), w) else (Ok \<lparr>rt_lock = lock\<rparr>, w))"

definition tpa_start :: "'w tpa_ops \<Rightarrow> int \<Rightarrow> int \<Rightarrow> 'w \<Rightarrow> (tpa_runtime, transport_error) res \<times> 'w" where
  "tpa_start A nr_worker nr_udp_queue w =
     (case try_acquire_lock_only A w of (r, w) \<Rightarrow>
      bind_st (map_err Io r, w) (\<lambda>runtime w.
      if init_done A w then (Err (Tpa (- 1)), set_init_done A True w)
      else case tpa_init_with_udp_queues A nr_worker nr_udp_queue (set_init_done A True w) of (rc, w) \<Rightarrow>
        if rc \<noteq> 0 then (Err (Tpa rc), set_init_done A False w) else (Ok runtime, w)))"

definition init_udp_ports ::
  "'w tpa_ops \<Rightarrow> 16 word list \<Rightarrow> 'w \<Rightarrow> (unit, transport_error) res \<times> 16 word list \<times> 'w" where
  "init_udp_ports A ports w =
     (case tpa_udp_init A ports w of ((rc, ports), w) \<Rightarrow>
        if rc \<noteq> 0 then (Err (Tpa rc), ports, w) else (Ok (), ports, w))"

section \<open>Connections\<close>

record tpa_conn =
  tc_sid :: int
  tc_dst :: "socket_addr option"

record lib_tpa =
  tpa_worker :: nat

definition tpa_new :: lib_tpa where
  "tpa_new = \<lparr>tpa_worker = 0\<rparr>"

definition with_worker :: "nat \<Rightarrow> lib_tpa" where
  "with_worker p = \<lparr>tpa_worker = p\<rparr>"

definition attach_worker :: "'w tpa_ops \<Rightarrow> lib_tpa \<Rightarrow> 'w \<Rightarrow> (unit, transport_error) res \<times> lib_tpa \<times> 'w" where
  "attach_worker A b w =
     (case tpa_worker_init A w of (p, w) \<Rightarrow>
        if p = 0 then (Err (Tpa (- 1)), b, w) else (Ok (), b\<lparr>tpa_worker := p\<rparr>, w))"

text \<open>\<open>CString::new\<close> refuses text with a NUL byte.\<close>

definition connect_tcp ::
  "'w tpa_ops \<Rightarrow> bytes \<Rightarrow> 16 word \<Rightarrow> lib_tpa \<Rightarrow> 'w \<Rightarrow> (tpa_conn, transport_error) res \<times> lib_tpa \<times> 'w" where
  "connect_tcp A hst port b w =
     (if CHR 0x00 \<in> set hst then (Err (Tpa (- 1)), b, w)
      else case tpa_connect_to A hst port w of (sid, w) \<Rightarrow>
        if sid < 0 then (Err (Tpa sid), b, w) else (Ok \<lparr>tc_sid = sid, tc_dst = None\<rparr>, b, w))"

definition connect_udp :: "socket_addr \<Rightarrow> tpa_conn" where
  "connect_udp dst = \<lparr>tc_sid = - 1, tc_dst = Some dst\<rparr>"

definition rsplit_once :: "u8 \<Rightarrow> bytes \<Rightarrow> (bytes \<times> bytes) option" where
  "rsplit_once c s =
     (if c \<in> set s
      then Some (rev (tl (dropWhile (\<lambda>x. x \<noteq> c) (rev s))), rev (takeWhile (\<lambda>x. x \<noteq> c) (rev s)))
      else None)"

definition split_host_port :: "bytes \<Rightarrow> (bytes \<times> 16 word) option" where
  "split_host_port endpoint =
     (case rsplit_once (CHR '':'') endpoint of
        None \<Rightarrow> None
      | Some (hst, port) \<Rightarrow> map_option (\<lambda>p. (hst, of_nat p)) (parse_unsigned (2 ^ 16) port))"

text \<open>\<open>u32::from\<close> an address and \<open>to_be\<close> on a little-endian machine.\<close>

definition u32_from :: "bytes \<Rightarrow> 32 word" where
  "u32_from octets = of_nat (foldl (\<lambda>n c. 256 * n + byte c) 0 octets)"

definition u32_to_be :: "32 word \<Rightarrow> 32 word" where
  "u32_to_be x = of_nat (foldl (\<lambda>n c. 256 * n + byte c) 0 (u32_le x))"

definition u16_to_be :: "16 word \<Rightarrow> 16 word" where
  "u16_to_be x = of_nat (256 * (unat x mod 256) + unat x div 256)"

definition tpa_ip_from_v4 :: "bytes \<Rightarrow> 32 word list" where
  "tpa_ip_from_v4 octets = [0, 0, 0, 0][2 := 0xffff0000, 3 := u32_to_be (u32_from octets)]"

definition build_udp_pkt :: "bytes \<Rightarrow> 16 word \<Rightarrow> bytes \<Rightarrow> 16 word \<Rightarrow> 16 word \<Rightarrow> tpa_udp_pkt" where
  "build_udp_pkt data len remote remote_port local_port =
     \<lparr>pk_data = data, pk_len = len, pk_remote_ip = tpa_ip_from_v4 remote,
      pk_remote_port = u16_to_be remote_port, pk_local_port = u16_to_be local_port\<rparr>"

definition send_udp ::
  "'w tpa_ops \<Rightarrow> tpa_conn \<Rightarrow> socket_addr \<Rightarrow> bytes \<Rightarrow> lib_tpa \<Rightarrow> 'w \<Rightarrow> (unit, io_error) res \<times> lib_tpa \<times> 'w" where
  "send_udp A c dst bs b w =
     (case dst of
        V6 _ _ _ _ \<Rightarrow> (Err (Simple Unsupported), b, w)
      | V4 octets port \<Rightarrow>
        (let local_port = (case tc_dst c of Some (V4 _ p) \<Rightarrow> p | _ \<Rightarrow> 0);
             pkt = build_udp_pkt bs (of_nat (length bs)) octets port local_port
         in case tpa_udp_send_batch A (tpa_worker b) pkt w of (n, w) \<Rightarrow>
              if n = 1 then (Ok (), b, w) else (Err (Simple WriteZero), b, w)))"

definition recv_udp :: "'w tpa_ops \<Rightarrow> nat \<Rightarrow> lib_tpa \<Rightarrow> 'w \<Rightarrow> (bytes, io_error) res \<times> lib_tpa \<times> 'w" where
  "recv_udp A len b w =
     (case tpa_udp_recv_batch A (tpa_worker b) (of_nat len) w of ((n, bs), w) \<Rightarrow>
        if n \<le> 0 then (Ok [], b, w) else (Ok bs, b, w))"

definition recv_tcp ::
  "'w tpa_ops \<Rightarrow> tpa_conn \<Rightarrow> nat \<Rightarrow> lib_tpa \<Rightarrow> 'w \<Rightarrow> (bytes, io_error) res \<times> lib_tpa \<times> 'w" where
  "recv_tcp A c len b w =
     (case tpa_event_poll A (tpa_worker b) w of ((n, events), w) \<Rightarrow>
        if n \<le> 0 \<or> events AND TPA_EVENT_IN A = 0 then (Ok [], b, w)
        else case tpa_zreadv A (tc_sid c) (of_nat len) w of ((got, errno, bs), w) \<Rightarrow>
          if got < 0 then (Err (Os errno), b, w) else (Ok bs, b, w))"

section \<open>The byte transport\<close>

definition tpa_connect ::
  "'w tpa_ops \<Rightarrow> bytes \<Rightarrow> lib_tpa \<Rightarrow> 'w \<Rightarrow> (tpa_conn, io_error) res \<times> lib_tpa \<times> 'w" where
  "tpa_connect A endpoint b w =
     bind_st (ok_or (Simple InvalidInput) (split_host_port endpoint), b, w) (\<lambda>(hst, port) (b, w).
     case connect_tcp A hst port b w of (r, b, w) \<Rightarrow>
       (map_err (\<lambda>e. Custom OtherKind (debug_transport A e)) r, b, w))"

partial_function (option) tpa_write_loop ::
  "'w tpa_ops \<Rightarrow> lib_tpa \<Rightarrow> int \<Rightarrow> bytes \<Rightarrow> nat \<Rightarrow> 'w \<Rightarrow> ((unit, io_error) res \<times> 'w) option" where
  "tpa_write_loop A b sid bs sent w =
     (if sent < length bs then
        (case tpa_write A sid (drop sent bs) w of ((n, errno), w') \<Rightarrow>
           if n > 0 then tpa_write_loop A b sid bs (sent + nat n) w'
           else if n = 0 then tpa_write_loop A b sid bs sent (tpa_worker_run A (tpa_worker b) w')
           else Some (Err (Os errno), w'))
      else Some (Ok (), w))"

definition tpa_submit ::
  "'w tpa_ops \<Rightarrow> wire \<Rightarrow> bytes \<Rightarrow> lib_tpa \<times> tpa_conn \<times> 'w \<Rightarrow> (unit, io_error) res \<times> lib_tpa \<times> tpa_conn \<times> 'w" where
  "tpa_submit A wk bs = (\<lambda>(b, c, w).
     case wk of
       Stream_Wire \<Rightarrow>
         (case tpa_write_loop A b (tc_sid c) bs 0 w of None \<Rightarrow> (Hang, b, c, w) | Some (r, w) \<Rightarrow> (r, b, c, w))
     | Datagram dst \<Rightarrow> (case send_udp A c dst bs b w of (r, b, w) \<Rightarrow> (r, b, c, w)))"

definition tpa_poll_recv ::
  "'w tpa_ops \<Rightarrow> nat \<Rightarrow> lib_tpa \<times> tpa_conn \<times> 'w \<Rightarrow> (bytes, io_error) res \<times> lib_tpa \<times> tpa_conn \<times> 'w" where
  "tpa_poll_recv A len = (\<lambda>(b, c, w).
     case (if tc_dst c \<noteq> None then recv_udp A len b w else recv_tcp A c len b w) of (r, b, w) \<Rightarrow> (r, b, c, w))"

definition tpa_drive :: "'w tpa_ops \<Rightarrow> lib_tpa \<Rightarrow> 'w \<Rightarrow> (unit, io_error) res \<times> lib_tpa \<times> 'w" where
  "tpa_drive A b w = (Ok (), b, if tpa_worker b \<noteq> 0 then tpa_worker_run A (tpa_worker b) w else w)"

definition libtpa :: "'w tpa_ops \<Rightarrow> (lib_tpa, tpa_conn, 'w) byte_io" where
  "libtpa A = \<lparr>io_connect = tpa_connect A, io_submit = tpa_submit A, io_poll_recv = tpa_poll_recv A,
     io_drive = tpa_drive A\<rparr>"

section \<open>Properties\<close>

lemma rsplit_once_append:
  assumes "c \<notin> set t"
  shows "rsplit_once c (s @ c # t) = Some (s, t)"
proof -
  have "takeWhile (\<lambda>x. x \<noteq> c) (rev t @ c # rev s) = rev t" "dropWhile (\<lambda>x. x \<noteq> c) (rev t @ c # rev s) = c # rev s"
    using assms by (subst takeWhile_append2 dropWhile_append2; auto)+
  then show ?thesis by (simp add: rsplit_once_def)
qed

text \<open>
  C40. The stack is asked for the host and the port of the configuration: the endpoint text that
  is built from them, whatever the host looks like (colons included), is taken apart again into
  exactly these two.
\<close>

theorem tpa_connect_endpoint:
  assumes "CHR 0x00 \<notin> set hst"
  shows "tpa_connect A (hst @ '':'' @ decimal (unat (port :: 16 word))) b w =
    (case tpa_connect_to A hst port w of (sid, w') \<Rightarrow>
       if sid < 0 then (Err (Custom OtherKind (debug_transport A (Tpa sid))), b, w')
       else (Ok \<lparr>tc_sid = sid, tc_dst = None\<rparr>, b, w'))"
proof -
  have "CHR '':'' \<notin> set (decimal (unat port))" using decimal_digits [of "CHR '':''" "unat port"] by (auto simp: is_ascii_digit_def)
  then have "rsplit_once (CHR '':'') (hst @ '':'' @ decimal (unat port)) = Some (hst, decimal (unat port))"
    using rsplit_once_append by simp
  moreover have "unat port < 2 ^ 16" using unsigned_less [of port] by simp
  ultimately have "split_host_port (hst @ '':'' @ decimal (unat port)) = Some (hst, port)"
    by (simp add: split_host_port_def parse_unsigned_decimal)
  with assms show ?thesis
    by (simp add: tpa_connect_def connect_tcp_def split: prod.split)
qed


definition null_tpa :: "'w tpa_ops" where
  "null_tpa = \<lparr>open_lock_file = (\<lambda>w. (Ok 5, w)), c_flock = (\<lambda>_ w. ((0, 0), w)), init_done = (\<lambda>_. False),
     set_init_done = (\<lambda>_ w. w), tpa_init_with_udp_queues = (\<lambda>_ _ w. (0, w)), tpa_udp_init = (\<lambda>ps w. ((0, ps), w)),
     tpa_worker_init = (\<lambda>w. (1, w)), tpa_connect_to = (\<lambda>_ _ w. (7, w)), tpa_write = (\<lambda>_ bs w. ((int (length bs), 0), w)),
     tpa_worker_run = (\<lambda>_ w. w), tpa_udp_send_batch = (\<lambda>_ _ w. (1, w)), tpa_udp_recv_batch = (\<lambda>_ _ w. ((0, []), w)),
     tpa_event_poll = (\<lambda>_ w. ((0, 0), w)), tpa_zreadv = (\<lambda>_ _ w. ((0, 0, []), w)), TPA_EVENT_IN = 1,
     debug_transport = (\<lambda>_. [])\<rparr>"

theorem tpa_connect_endpoint_witness:
  "tpa_connect null_tpa (''rpc.node1.io'' @ '':'' @ decimal (unat (443 :: 16 word))) \<lparr>tpa_worker = 1\<rparr> ()
     = (Ok \<lparr>tc_sid = 7, tc_dst = None\<rparr>, \<lparr>tpa_worker = 1\<rparr>, ())"
  by (subst tpa_connect_endpoint) (simp_all add: null_tpa_def)

lemma char_of_low: "char_of (256 * n + byte d) = d"
  by (simp add: char_of_eq_iff take_bit_eq_mod)

lemma div_low: "(256 * n + byte d) div 256 = n"
  by simp

lemma u32_le_of_nat:
  assumes "n < 2 ^ 32"
  shows "u32_le (of_nat n) = [char_of n, char_of (n div 256), char_of (n div 256 div 256),
    char_of (n div 256 div 256 div 256)]"
proof -
  have u: "unat (of_nat n :: 32 word) = n" using assms by (simp add: unat_of_nat take_bit_nat_eq_self)
  have "unat (drop_bit k (of_nat n :: 32 word)) = n div 2 ^ k" for k
    by (simp only: unsigned_drop_bit_eq u) (use assms in \<open>simp add: take_bit_nat_eq_self drop_bit_eq_div\<close>)
  then show ?thesis using u by (simp add: u32_le_def div_mult2_eq [symmetric])
qed

lemma u32_le_bytes:
  "u32_le (of_nat (256 * (256 * (256 * byte a + byte b) + byte c) + byte d)) = [d, c, b, a]"
proof -
  define n1 where "n1 = 256 * byte a + byte b"
  define n2 where "n2 = 256 * n1 + byte c"
  have "256 * n2 + byte d < 2 ^ 32"
    unfolding n2_def n1_def
    using byte_less [of a] byte_less [of b] byte_less [of c] byte_less [of d] by (simp del: byte_less)
  from u32_le_of_nat [OF this] have "u32_le (of_nat (256 * n2 + byte d)) = [d, char_of n2, char_of (n2 div 256), char_of (n2 div 256 div 256)]"
    by (simp add: char_of_low)
  moreover have "char_of n2 = c" "char_of n1 = b" unfolding n2_def n1_def by (rule char_of_low)+
  moreover have "n2 div 256 = n1" "n1 div 256 = byte a" unfolding n2_def n1_def by (rule div_low)+
  ultimately show ?thesis by (simp add: n2_def n1_def)
qed

text \<open>
  The address a datagram is sent to is the IPv4-mapped IPv6 address of its destination: ten
  zero bytes, two bytes 255 and the four octets in network order, in the memory of a
  little-endian machine.
\<close>

theorem tpa_ip_v4_mapped:
  assumes "length octets = 4"
  shows "concat (map u32_le (tpa_ip_from_v4 octets)) = replicate 10 (CHR 0x00) @ [CHR 0xFF, CHR 0xFF] @ octets"
proof -
  obtain a b c d where o: "octets = [a, b, c, d]"
    using assms by (auto simp: length_Suc_conv numeral_eq_Suc)
  have "u32_to_be (u32_from octets) = of_nat (256 * (256 * (256 * byte d + byte c) + byte b) + byte a)"
    using u32_le_bytes [of a b c d] by (simp add: u32_to_be_def u32_from_def o algebra_simps)
  moreover have "u32_le 0 = replicate 4 (CHR 0x00)"
    using u32_le_bytes [of "CHR 0x00" "CHR 0x00" "CHR 0x00" "CHR 0x00"] by (simp add: numeral_eq_Suc)
  moreover have "u32_le 0xffff0000 = [CHR 0x00, CHR 0x00, CHR 0xFF, CHR 0xFF]"
    using u32_le_bytes [of "CHR 0xFF" "CHR 0xFF" "CHR 0x00" "CHR 0x00"] by simp
  moreover have "replicate 10 (CHR 0x00) = replicate 4 (CHR 0x00) @ replicate 4 (CHR 0x00) @ [CHR 0x00, CHR 0x00]"
    by (simp add: numeral_eq_Suc)
  ultimately show ?thesis
    using u32_le_bytes [of d c b a] by (simp add: tpa_ip_from_v4_def o)
qed

theorem tpa_ip_v4_mapped_witness:
  "concat (map u32_le (tpa_ip_from_v4 [CHR 0x01, CHR 0x02, CHR 0x03, CHR 0x04]))
     = replicate 10 (CHR 0x00) @ [CHR 0xFF, CHR 0xFF] @ [CHR 0x01, CHR 0x02, CHR 0x03, CHR 0x04]"
  by (rule tpa_ip_v4_mapped) simp

end
