(* ===== verification/Transport_Spec.thy ===== *)
theory Transport_Spec
  imports Io_Uring Libtpa
begin

text \<open>
  What a user chooses about the transport: the engines and their settings of \<open>transport/mod.rs\<close>,
  \<open>transport/parallel.rs\<close> and \<open>transport/sequential.rs\<close>, and the thread settings of \<open>rt/mod.rs\<close>
  that the parallel transport applies.
\<close>

section \<open>Engines\<close>

record core_set =
  core_ids :: "nat list"

record rt_config =
  rt_prio :: "int option"

record parallel_config =
  pa_affinity :: "core_set option"
  pa_rt :: rt_config

definition parallel_config_default :: parallel_config where
  "parallel_config_default = \<lparr>pa_affinity = None, pa_rt = \<lparr>rt_prio = None\<rparr>\<rparr>"

datatype engine =
    SeqRaw
  | SeqUring io_uring_mode io_uring_tuning
  | ParRaw parallel_config
  | ParTpa parallel_config

record transport_spec =
  engine_kind :: engine

definition parallel_raw_libc :: transport_spec where
  "parallel_raw_libc = \<lparr>engine_kind = ParRaw parallel_config_default\<rparr>"

definition parallel_libtpa :: transport_spec where
  "parallel_libtpa = \<lparr>engine_kind = ParTpa parallel_config_default\<rparr>"

definition sequential_raw_libc :: transport_spec where
  "sequential_raw_libc = \<lparr>engine_kind = SeqRaw\<rparr>"

definition sequential_io_uring :: "io_uring_mode \<Rightarrow> transport_spec" where
  "sequential_io_uring mode = \<lparr>engine_kind = SeqUring mode \<lparr>sqpoll = None\<rparr>\<rparr>"

definition spec_affinity :: "core_set \<Rightarrow> transport_spec \<Rightarrow> transport_spec" where
  "spec_affinity cores s =
     (case engine_kind s of
        ParRaw cfg \<Rightarrow> s\<lparr>engine_kind := ParRaw (cfg\<lparr>pa_affinity := Some cores\<rparr>)\<rparr>
      | _ \<Rightarrow> s)"

definition spec_rt_priority :: "int \<Rightarrow> transport_spec \<Rightarrow> transport_spec" where
  "spec_rt_priority p s =
     (case engine_kind s of
        ParRaw cfg \<Rightarrow> s\<lparr>engine_kind := ParRaw (cfg\<lparr>pa_rt := (pa_rt cfg)\<lparr>rt_prio := Some p\<rparr>\<rparr>)\<rparr>
      | _ \<Rightarrow> s)"

definition spec_tuning :: "io_uring_tuning \<Rightarrow> transport_spec \<Rightarrow> transport_spec" where
  "spec_tuning tuning s =
     (case engine_kind s of
        SeqUring mode _ \<Rightarrow> s\<lparr>engine_kind := SeqUring mode tuning\<rparr>
      | _ \<Rightarrow> s)"

text \<open>The settings of the parallel engine do not reach the libtpa engine, which has the same ones.\<close>

lemma tpa_settings_ignored:
  "spec_rt_priority p (spec_affinity cores parallel_libtpa) = parallel_libtpa"
  "spec_rt_priority p (spec_affinity cores parallel_raw_libc)
     = \<lparr>engine_kind = ParRaw \<lparr>pa_affinity = Some cores, pa_rt = \<lparr>rt_prio = Some p\<rparr>\<rparr>\<rparr>"
  by (simp_all add: spec_rt_priority_def spec_affinity_def parallel_libtpa_def parallel_raw_libc_def parallel_config_default_def)

section \<open>Thread settings\<close>

text \<open>The crate \<open>core_affinity\<close> and the scheduler call; the latter returns its value and \<open>errno\<close>.\<close>

record 'w rt_ops =
  get_core_ids :: "'w \<Rightarrow> nat list option \<times> 'w"
  set_for_current :: "nat \<Rightarrow> 'w \<Rightarrow> bool \<times> 'w"
  c_sched_setscheduler :: "int \<Rightarrow> 'w \<Rightarrow> (int \<times> nat) \<times> 'w"

definition pin_current_thread :: "'w rt_ops \<Rightarrow> nat \<Rightarrow> 'w \<Rightarrow> bool \<times> 'w" where
  "pin_current_thread T core_id w =
     (case get_core_ids T w of
        (None, w) \<Rightarrow> (False, w)
      | (Some ids, w) \<Rightarrow>
          (case find (\<lambda>c. c = core_id) ids of
             Some c \<Rightarrow> set_for_current T c w
           | None \<Rightarrow> (False, w)))"

definition set_sched_fifo :: "'w rt_ops \<Rightarrow> int \<Rightarrow> 'w \<Rightarrow> (unit, io_error) res \<times> 'w" where
  "set_sched_fifo T priority w =
     (case c_sched_setscheduler T priority w of ((ret, errno), w) \<Rightarrow>
        (if ret = 0 then Ok () else Err (Os errno), w))"

text \<open>The settings a parallel worker's thread applies before it starts; failures are ignored.\<close>

definition thread_setup :: "'w rt_ops \<Rightarrow> nat option \<Rightarrow> int option \<Rightarrow> 'w \<Rightarrow> 'w" where
  "thread_setup T core_id priority w =
     (let w = (case core_id of Some c \<Rightarrow> snd (pin_current_thread T c w) | None \<Rightarrow> w)
      in case priority of Some p \<Rightarrow> snd (set_sched_fifo T p w) | None \<Rightarrow> w)"

end
