(* ===== verification/Sender.thy ===== *)
theory Sender
  imports Worker_Refine Connect Transport_Spec
begin

text \<open>
  The user's handle, \<open>transport/builder.rs\<close> with \<open>transport/spawn.rs\<close>: the builder, the threads it
  starts, \<open>trigger\<close>, \<open>health\<close> and \<open>shutdown\<close>. Starting a thread appends it, with everything that was
  moved into it, to the list of threads; its handle is its position there. The two ends of a
  ring are copies of one channel state.
\<close>

section \<open>Threads\<close>

type_synonym 'w tx_source = "provider_id \<Rightarrow> job \<Rightarrow> bytes \<Rightarrow> 'w \<Rightarrow> 16 word \<times> bytes \<times> 'w"

type_synonym 'w result_sink = "provider_outcome \<Rightarrow> 'w \<Rightarrow> 'w"

text \<open>The threads of one backend; \<open>'h\<close> is its HTTP connection and \<open>'q\<close> the QUIC connection.\<close>

datatype ('h, 'q, 'jq, 'rq, 'w) backend_thread =
    Reconnect_Thread "('h, 'q, 'w) reconnect_builder" "nat list"
  | Seq_Thread "'w tx_source" "('h, 'q, 'jq, 'rq) seq_worker"
  | Par_Thread "'w tx_source" "nat option" "int option" "('h, 'q, 'jq, 'rq) par_worker"

type_synonym ('t, 'ep, 'cn, 'jq, 'rq, 'w) raw_thread =
  "((unit, fd, 't) http_conn, ('ep, 'cn) quic_engine quic_conn, 'jq, 'rq, 'w) backend_thread"

type_synonym ('t, 'r, 'ep, 'cn, 'jq, 'rq, 'w) uring_thread =
  "(('r uring, uring_conn, 't) http_conn, ('ep, 'cn) quic_engine quic_conn, 'jq, 'rq, 'w) backend_thread"

text \<open>What is moved into a thread of the libtpa transport, which opens its connections itself.\<close>

record ('t, 'jq, 'rq, 'w) tpa_thread =
  tt_index :: nat
  tt_providers :: "provider_config list"
  tt_tls :: "'t tls_ops"
  tt_source :: "'w tx_source"
  tt_core :: "nat option"
  tt_priority :: "int option"
  tt_trigger :: "'jq spsc"
  tt_result_tx :: "'rq spsc"
  tt_reconnect_resp_rx :: nat
  tt_diag :: nat

datatype ('t, 'r, 'ep, 'cn, 'jq, 'rq, 'w) thread =
    Lane_Thread "'w result_sink" "'rq result_lane"
  | Raw_Thread "('t, 'ep, 'cn, 'jq, 'rq, 'w) raw_thread"
  | Uring_Thread "('t, 'r, 'ep, 'cn, 'jq, 'rq, 'w) uring_thread"
  | Tpa_Reconnect_Thread "nat list"
  | Tpa_Thread "('t, 'jq, 'rq, 'w) tpa_thread"

text \<open>
  The code the builder calls. The stop flag and the request channel of a sender are parts of the
  world; response channels and diagnostics cells are named by handles. \<open>thread_spawn\<close> is false
  when the system refuses a thread, which panics; \<open>thread_join\<close> fails when the thread has
  panicked and hangs when it does not end.
\<close>

record ('t, 'r, 'ep, 'cn, 'cc, 'ee, 'ce, 'kp, 'rc, 'jq, 'rq, 'w) sender_env =
  se_libc :: "'w libc_ops"
  se_uring :: "('r, 'w) uring_ops"
  se_tpa :: "'w tpa_ops"
  se_quic :: "('ep, 'cn, 'cc, 'ee, 'ce, 'w) quic_env"
  se_cert :: "('kp, 'rc, 'cc, 'w) cert_ops"
  se_job_ring :: "('jq, job) ring_ops"
  se_result_ring :: "('rq, raw_resp) ring_ops"
  se_debug :: "sender_error \<Rightarrow> bytes"
  bounded_req :: "nat \<Rightarrow> 'w \<Rightarrow> 'w"
  bounded_resp :: "nat \<Rightarrow> 'w \<Rightarrow> nat \<times> 'w"
  seqlock_new :: "worker_diag \<Rightarrow> 'w \<Rightarrow> nat \<times> 'w"
  seqlock_read :: "nat \<Rightarrow> 'w \<Rightarrow> worker_diag"
  stop_store :: "bool \<Rightarrow> 'w \<Rightarrow> 'w"
  thread_spawn :: "'w \<Rightarrow> bool \<times> 'w"
  thread_join :: "nat \<Rightarrow> 'w \<Rightarrow> (unit, unit) res \<times> 'w"

type_synonym ('t, 'r, 'ep, 'cn, 'jq, 'rq, 'w) threads =
  "('t, 'r, 'ep, 'cn, 'jq, 'rq, 'w) thread list \<times> 'w"

definition spawn_thread ::
  "('t, 'r, 'ep, 'cn, 'cc, 'ee, 'ce, 'kp, 'rc, 'jq, 'rq, 'w) sender_env
     \<Rightarrow> ('t, 'r, 'ep, 'cn, 'jq, 'rq, 'w) thread \<Rightarrow> ('t, 'r, 'ep, 'cn, 'jq, 'rq, 'w) threads
     \<Rightarrow> (nat, sender_error) res \<times> ('t, 'r, 'ep, 'cn, 'jq, 'rq, 'w) threads" where
  "spawn_thread E th = (\<lambda>(ts, w).
     case thread_spawn E w of
       (True, w) \<Rightarrow> (Ok (length ts), ts @ [th], w)
     | (False, w) \<Rightarrow> (Panic, ts, w))"

section \<open>The reconnect thread's handle\<close>

record reconnect_thread =
  rc_handle :: "nat option"

definition reconnect_spawn ::
  "('t, 'r, 'ep, 'cn, 'cc, 'ee, 'ce, 'kp, 'rc, 'jq, 'rq, 'w) sender_env
     \<Rightarrow> ('t, 'r, 'ep, 'cn, 'jq, 'rq, 'w) thread \<Rightarrow> ('t, 'r, 'ep, 'cn, 'jq, 'rq, 'w) threads
     \<Rightarrow> (reconnect_thread, sender_error) res \<times> ('t, 'r, 'ep, 'cn, 'jq, 'rq, 'w) threads" where
  "reconnect_spawn E th = (\<lambda>(ts, w).
     bind_st (spawn_thread E th (ts, bounded_req E 64 w)) (\<lambda>h x. (Ok \<lparr>rc_handle = Some h\<rparr>, x)))"

definition reconnect_join ::
  "('t, 'r, 'ep, 'cn, 'cc, 'ee, 'ce, 'kp, 'rc, 'jq, 'rq, 'w) sender_env \<Rightarrow> reconnect_thread \<Rightarrow> 'w
     \<Rightarrow> (unit, unit) res \<times> 'w" where
  "reconnect_join E t w =
     (case rc_handle t of
        Some h \<Rightarrow> (case thread_join E h w of (r, w) \<Rightarrow> (discard r, w))
      | None \<Rightarrow> (Ok (), w))"

section \<open>Dispatch\<close>

datatype 'jq dispatch = Single "'jq spsc" | Fanout "'jq spsc list"

text \<open>The loop of \<open>Fanout\<close> with its flag \<open>ok\<close>.\<close>

fun push_all :: "('jq, job) ring_ops \<Rightarrow> job \<Rightarrow> bool \<Rightarrow> 'jq spsc list \<Rightarrow> bool \<times> 'jq spsc list" where
  "push_all R j ok [] = (ok, [])"
| "push_all R j ok (p # ps) =
     (case try_push R j p of (r, p) \<Rightarrow>
      case push_all R j (if is_ok r then ok else False) ps of (ok, ps) \<Rightarrow> (ok, p # ps))"

definition trigger :: "('jq, job) ring_ops \<Rightarrow> job \<Rightarrow> 'jq dispatch \<Rightarrow> (unit, trigger_error) res \<times> 'jq dispatch" where
  "trigger R j d =
     (case d of
        Single p \<Rightarrow>
          (case try_push R j p of (r, p) \<Rightarrow>
             (if is_ok r then Ok () else Err Backpressure, Single p))
      | Fanout txs \<Rightarrow>
          (case push_all R j True txs of (ok, txs) \<Rightarrow>
             (if ok then Ok () else Err Backpressure, Fanout txs)))"

section \<open>The sender\<close>

record 'jq sender =
  sn_dispatch :: "'jq dispatch"
  sn_workers :: "nat list"
  sn_reconnect :: reconnect_thread
  sn_diag :: "nat list"
  sn_tpa :: "tpa_runtime option"

definition sender_trigger :: "('jq, job) ring_ops \<Rightarrow> job \<Rightarrow> 'jq sender \<Rightarrow> (unit, trigger_error) res \<times> 'jq sender" where
  "sender_trigger R j s = (case trigger R j (sn_dispatch s) of (r, d) \<Rightarrow> (r, s\<lparr>sn_dispatch := d\<rparr>))"

fun join_all ::
  "('t, 'r, 'ep, 'cn, 'cc, 'ee, 'ce, 'kp, 'rc, 'jq, 'rq, 'w) sender_env \<Rightarrow> nat list \<Rightarrow> 'w
     \<Rightarrow> (unit, unit) res \<times> 'w" where
  "join_all E [] w = (Ok (), w)"
| "join_all E (h # hs) w =
     (case thread_join E h w of (r, w) \<Rightarrow> bind_st (discard r, w) (\<lambda>_ w. join_all E hs w))"

definition shutdown ::
  "('t, 'r, 'ep, 'cn, 'cc, 'ee, 'ce, 'kp, 'rc, 'jq, 'rq, 'w) sender_env \<Rightarrow> 'jq sender \<Rightarrow> 'w
     \<Rightarrow> (unit, unit) res \<times> 'w" where
  "shutdown E s w =
     bind_st (join_all E (sn_workers s) (stop_store E True w)) (\<lambda>_ w. reconnect_join E (sn_reconnect s) w)"

definition health ::
  "('t, 'r, 'ep, 'cn, 'cc, 'ee, 'ce, 'kp, 'rc, 'jq, 'rq, 'w) sender_env \<Rightarrow> 'jq sender \<Rightarrow> 'w
     \<Rightarrow> provider_health_entry list" where
  "health E s w =
     map (\<lambda>(i, d). let wd = seqlock_read E d w
                   in \<lparr>he_provider_idx = i, he_alive = wd_alive wd, he_jobs_sent = wd_jobs_sent wd,
                       he_fill_ns = wd_fill_ns wd, he_submit_ns = wd_submit_ns wd\<rparr>)
       (enumerate 0 (sn_diag s))"

section \<open>The builder\<close>

record ('t, 'w) sender_builder =
  sb_transport :: "transport_spec option"
  sb_providers :: "provider_config list"
  sb_source :: "'w tx_source option"
  sb_sink :: "'w result_sink option"
  sb_tls :: "'t tls_ops option"

definition sender_builder_new :: "('t, 'w) sender_builder" where
  "sender_builder_new =
     \<lparr>sb_transport = None, sb_providers = [], sb_source = None, sb_sink = None, sb_tls = None\<rparr>"

definition set_transport :: "transport_spec \<Rightarrow> ('t, 'w) sender_builder \<Rightarrow> ('t, 'w) sender_builder" where
  "set_transport spec b = b\<lparr>sb_transport := Some spec\<rparr>"

definition set_tls :: "'t tls_ops \<Rightarrow> ('t, 'w) sender_builder \<Rightarrow> ('t, 'w) sender_builder" where
  "set_tls cfg b = b\<lparr>sb_tls := Some cfg\<rparr>"

definition add_provider :: "provider_config \<Rightarrow> ('t, 'w) sender_builder \<Rightarrow> ('t, 'w) sender_builder" where
  "add_provider p b = b\<lparr>sb_providers := sb_providers b @ [p]\<rparr>"

definition set_source :: "'w tx_source \<Rightarrow> ('t, 'w) sender_builder \<Rightarrow> ('t, 'w) sender_builder" where
  "set_source s b = b\<lparr>sb_source := Some s\<rparr>"

definition set_sink :: "'w result_sink \<Rightarrow> ('t, 'w) sender_builder \<Rightarrow> ('t, 'w) sender_builder" where
  "set_sink s b = b\<lparr>sb_sink := Some s\<rparr>"

section \<open>Starting the workers\<close>

definition spawn_seq ::
  "('t, 'r, 'ep, 'cn, 'cc, 'ee, 'ce, 'kp, 'rc, 'jq, 'rq, 'w) sender_env
     \<Rightarrow> (('h, 'q, 'jq, 'rq, 'w) backend_thread \<Rightarrow> ('t, 'r, 'ep, 'cn, 'jq, 'rq, 'w) thread)
     \<Rightarrow> ('h, 'q) conn_state dual_conn list \<Rightarrow> 'jq spsc \<Rightarrow> 'rq spsc list \<Rightarrow> 'w tx_source \<Rightarrow> nat list \<Rightarrow> conn_kind \<Rightarrow> nat list
     \<Rightarrow> ('t, 'r, 'ep, 'cn, 'jq, 'rq, 'w) threads
     \<Rightarrow> (nat, sender_error) res \<times> ('t, 'r, 'ep, 'cn, 'jq, 'rq, 'w) threads" where
  "spawn_seq E wrap duals trig result_tx source resp_rx k dg x =
     spawn_thread E (wrap (Seq_Thread source (seq_new trig duals result_tx resp_rx k dg))) x"

text \<open>\<open>core_ids.get(i).copied()\<close>.\<close>

definition get :: "'a list \<Rightarrow> nat \<Rightarrow> 'a option" where
  "get xs i = (if i < length xs then Some (xs ! i) else None)"

definition cfg_cores :: "parallel_config \<Rightarrow> nat list" where
  "cfg_cores cfg = (case pa_affinity cfg of Some c \<Rightarrow> core_ids c | None \<Rightarrow> [])"

fun spawn_parallel_loop ::
  "('t, 'r, 'ep, 'cn, 'cc, 'ee, 'ce, 'kp, 'rc, 'jq, 'rq, 'w) sender_env
     \<Rightarrow> (('h, 'q, 'jq, 'rq, 'w) backend_thread \<Rightarrow> ('t, 'r, 'ep, 'cn, 'jq, 'rq, 'w) thread)
     \<Rightarrow> 'w tx_source \<Rightarrow> parallel_config \<Rightarrow> conn_kind \<Rightarrow> nat list
     \<Rightarrow> (nat \<times> (('h, 'q) conn_state dual_conn \<times> 'rq spsc) \<times> nat) list
     \<Rightarrow> ('t, 'r, 'ep, 'cn, 'jq, 'rq, 'w) threads
     \<Rightarrow> ('jq spsc list \<times> nat list, sender_error) res \<times> ('t, 'r, 'ep, 'cn, 'jq, 'rq, 'w) threads" where
  "spawn_parallel_loop E wrap source cfg k dg [] x = (Ok ([], []), x)"
| "spawn_parallel_loop E wrap source cfg k dg ((i, (dc, res_tx), resp_rx) # rest) x =
     (let trig = channel (se_job_ring E) TRIGGER_RING
      in bind_st (index dg i, x) (\<lambda>cell x.
         bind_st (spawn_thread E (wrap (Par_Thread source (get (cfg_cores cfg) i) (rt_prio (pa_rt cfg))
                    (par_new i trig res_tx dc resp_rx k cell))) x) (\<lambda>h x.
         bind_st (spawn_parallel_loop E wrap source cfg k dg rest x) (\<lambda>(txs, hs) x.
           (Ok (trig # txs, h # hs), x)))))"

definition spawn_parallel ::
  "('t, 'r, 'ep, 'cn, 'cc, 'ee, 'ce, 'kp, 'rc, 'jq, 'rq, 'w) sender_env
     \<Rightarrow> (('h, 'q, 'jq, 'rq, 'w) backend_thread \<Rightarrow> ('t, 'r, 'ep, 'cn, 'jq, 'rq, 'w) thread)
     \<Rightarrow> ('h, 'q) conn_state dual_conn list \<Rightarrow> 'rq spsc list \<Rightarrow> 'w tx_source \<Rightarrow> parallel_config \<Rightarrow> nat list \<Rightarrow> conn_kind \<Rightarrow> nat list
     \<Rightarrow> ('t, 'r, 'ep, 'cn, 'jq, 'rq, 'w) threads
     \<Rightarrow> ('jq dispatch \<times> nat list, sender_error) res \<times> ('t, 'r, 'ep, 'cn, 'jq, 'rq, 'w) threads" where
  "spawn_parallel E wrap duals result_tx source cfg resp_rx k dg x =
     bind_st (spawn_parallel_loop E wrap source cfg k dg (enumerate 0 (zip (zip duals result_tx) resp_rx)) x)
       (\<lambda>(txs, hs) x. (Ok (Fanout txs, hs), x))"

fun spawn_tpa_loop ::
  "('t, 'r, 'ep, 'cn, 'cc, 'ee, 'ce, 'kp, 'rc, 'jq, 'rq, 'w) sender_env \<Rightarrow> provider_config list \<Rightarrow> 't tls_ops
     \<Rightarrow> 'w tx_source \<Rightarrow> parallel_config \<Rightarrow> nat list \<Rightarrow> ((nat \<times> 'rq spsc) \<times> nat) list
     \<Rightarrow> ('t, 'r, 'ep, 'cn, 'jq, 'rq, 'w) threads
     \<Rightarrow> ('jq spsc list \<times> nat list, sender_error) res \<times> ('t, 'r, 'ep, 'cn, 'jq, 'rq, 'w) threads" where
  "spawn_tpa_loop E ps tl_cfg source cfg dg [] x = (Ok ([], []), x)"
| "spawn_tpa_loop E ps tl_cfg source cfg dg (((i, res_tx), resp_rx) # rest) x =
     (let trig = channel (se_job_ring E) TRIGGER_RING
      in bind_st (index dg i, x) (\<lambda>cell x.
         bind_st (spawn_thread E (Tpa_Thread
                    \<lparr>tt_index = i, tt_providers = ps, tt_tls = tl_cfg, tt_source = source,
                     tt_core = get (cfg_cores cfg) i, tt_priority = rt_prio (pa_rt cfg),
                     tt_trigger = trig, tt_result_tx = res_tx, tt_reconnect_resp_rx = resp_rx, tt_diag = cell\<rparr>) x) (\<lambda>h x.
         bind_st (spawn_tpa_loop E ps tl_cfg source cfg dg rest x) (\<lambda>(txs, hs) x.
           (Ok (trig # txs, h # hs), x)))))"

definition spawn_parallel_tpa ::
  "('t, 'r, 'ep, 'cn, 'cc, 'ee, 'ce, 'kp, 'rc, 'jq, 'rq, 'w) sender_env \<Rightarrow> provider_config list \<Rightarrow> 't tls_ops
     \<Rightarrow> 'w tx_source \<Rightarrow> parallel_config \<Rightarrow> 'rq spsc list \<Rightarrow> nat list \<Rightarrow> nat list
     \<Rightarrow> ('t, 'r, 'ep, 'cn, 'jq, 'rq, 'w) threads
     \<Rightarrow> ('jq dispatch \<times> nat list, sender_error) res \<times> ('t, 'r, 'ep, 'cn, 'jq, 'rq, 'w) threads" where
  "spawn_parallel_tpa E ps tl_cfg source cfg result_tx resp_rx dg x =
     bind_st (spawn_tpa_loop E ps tl_cfg source cfg dg (zip (enumerate 0 result_tx) resp_rx) x)
       (\<lambda>(txs, hs) x. (Ok (Fanout txs, hs), x))"

section \<open>Building\<close>

text \<open>\<open>n\<close> calls of a constructor.\<close>

fun new_each :: "('w \<Rightarrow> 'a \<times> 'w) \<Rightarrow> nat \<Rightarrow> 'w \<Rightarrow> 'a list \<times> 'w" where
  "new_each f 0 w = ([], w)"
| "new_each f (Suc n) w =
     (case f w of (a, w) \<Rightarrow> case new_each f n w of (as, w) \<Rightarrow> (a # as, w))"

definition conn_env ::
  "('t, 'r, 'ep, 'cn, 'cc, 'ee, 'ce, 'kp, 'rc, 'jq, 'rq, 'w) sender_env \<Rightarrow> ('b, 'k, 'w) byte_io \<Rightarrow> 't tls_ops
     \<Rightarrow> ('b, 'k, 't, 'ep, 'cn, 'cc, 'ee, 'ce, 'kp, 'rc, 'w) connect_env" where
  "conn_env E io tl_cfg = \<lparr>ce_io = io, ce_tls = tl_cfg, ce_quic = se_quic E, ce_cert = se_cert E\<rparr>"

definition make_raw :: "nat \<Rightarrow> 'w \<Rightarrow> (unit, sender_error) res \<times> 'w" where
  "make_raw i w = (Ok (), w)"

definition make_uring ::
  "('r, 'w) uring_ops \<Rightarrow> io_uring_mode \<Rightarrow> io_uring_tuning \<Rightarrow> nat \<Rightarrow> 'w \<Rightarrow> ('r uring, sender_error) res \<times> 'w" where
  "make_uring U mode tuning i w = (case uring_new U mode tuning w of (r, w) \<Rightarrow> (map_err UnsupportedErr r, w))"

text \<open>
  The branch of a sequential engine and that of the parallel engine on plain sockets. \<open>mk\<close> makes
  the byte transport; \<open>wrap\<close> tells the backends' threads apart.
\<close>

definition build_seq ::
  "('t, 'r, 'ep, 'cn, 'cc, 'ee, 'ce, 'kp, 'rc, 'jq, 'rq, 'w) sender_env
     \<Rightarrow> ((('b, 'k, 't) http_conn, ('ep, 'cn) quic_engine quic_conn, 'jq, 'rq, 'w) backend_thread
           \<Rightarrow> ('t, 'r, 'ep, 'cn, 'jq, 'rq, 'w) thread)
     \<Rightarrow> ('b, 'k, 'w) byte_io \<Rightarrow> (nat \<Rightarrow> 'w \<Rightarrow> ('b, sender_error) res \<times> 'w) \<Rightarrow> conn_kind
     \<Rightarrow> provider_config list \<Rightarrow> 't tls_ops \<Rightarrow> 'w tx_source \<Rightarrow> 'rq spsc list \<Rightarrow> nat list \<Rightarrow> nat list
     \<Rightarrow> ('t, 'r, 'ep, 'cn, 'jq, 'rq, 'w) threads
     \<Rightarrow> ('jq dispatch \<times> nat list \<times> reconnect_thread, sender_error) res \<times> ('t, 'r, 'ep, 'cn, 'jq, 'rq, 'w) threads" where
  "build_seq E wrap io mk k ps tl_cfg source result_tx resps dg = (\<lambda>(ts, w).
     case connect_dual_all (conn_env E io tl_cfg) ps mk w of (r, w) \<Rightarrow>
     bind_st (r, ts, w) (\<lambda>duals x.
     bind_st (reconnect_spawn E (wrap (Reconnect_Thread
                (engine_reconnect_build (conn_env E io tl_cfg) (se_debug E) ps mk) resps)) x) (\<lambda>rc x.
     let trig = channel (se_job_ring E) TRIGGER_RING
     in bind_st (spawn_seq E wrap duals trig result_tx source resps k dg x) (\<lambda>h x.
          (Ok (Single trig, [h], rc), x)))))"

definition build_par ::
  "('t, 'r, 'ep, 'cn, 'cc, 'ee, 'ce, 'kp, 'rc, 'jq, 'rq, 'w) sender_env \<Rightarrow> parallel_config
     \<Rightarrow> provider_config list \<Rightarrow> 't tls_ops \<Rightarrow> 'w tx_source \<Rightarrow> 'rq spsc list \<Rightarrow> nat list \<Rightarrow> nat list
     \<Rightarrow> ('t, 'r, 'ep, 'cn, 'jq, 'rq, 'w) threads
     \<Rightarrow> ('jq dispatch \<times> nat list \<times> reconnect_thread, sender_error) res \<times> ('t, 'r, 'ep, 'cn, 'jq, 'rq, 'w) threads" where
  "build_par E cfg ps tl_cfg source result_tx resps dg = (\<lambda>(ts, w).
     let io = raw_libc (se_libc E)
     in case connect_dual_all (conn_env E io tl_cfg) ps make_raw w of (r, w) \<Rightarrow>
        bind_st (r, ts, w) (\<lambda>duals x.
        bind_st (reconnect_spawn E (Raw_Thread (Reconnect_Thread
                   (engine_reconnect_build (conn_env E io tl_cfg) (se_debug E) ps make_raw) resps)) x) (\<lambda>rc x.
        bind_st (spawn_parallel E Raw_Thread duals result_tx source cfg resps RawLibcKind dg x) (\<lambda>(d, hs) x.
          (Ok (d, hs, rc), x)))))"

definition build_tpa ::
  "('t, 'r, 'ep, 'cn, 'cc, 'ee, 'ce, 'kp, 'rc, 'jq, 'rq, 'w) sender_env \<Rightarrow> parallel_config
     \<Rightarrow> provider_config list \<Rightarrow> 't tls_ops \<Rightarrow> 'w tx_source \<Rightarrow> 'rq spsc list \<Rightarrow> nat list \<Rightarrow> nat list
     \<Rightarrow> ('t, 'r, 'ep, 'cn, 'jq, 'rq, 'w) threads
     \<Rightarrow> (('jq dispatch \<times> nat list \<times> reconnect_thread) \<times> tpa_runtime, sender_error) res
         \<times> ('t, 'r, 'ep, 'cn, 'jq, 'rq, 'w) threads" where
  "build_tpa E cfg ps tl_cfg source result_tx resps dg = (\<lambda>(ts, w).
     case tpa_start (se_tpa E) (sint (of_nat (length ps) :: 32 word)) 0 w of (r, w) \<Rightarrow>
     bind_st (map_err (SConnect 0) r, ts, w) (\<lambda>rt x.
     bind_st (reconnect_spawn E (Tpa_Reconnect_Thread resps) x) (\<lambda>rc x.
     bind_st (spawn_parallel_tpa E ps tl_cfg source cfg result_tx resps dg x) (\<lambda>(d, hs) x.
       (Ok ((d, hs, rc), rt), x)))))"

definition build_engine ::
  "('t, 'r, 'ep, 'cn, 'cc, 'ee, 'ce, 'kp, 'rc, 'jq, 'rq, 'w) sender_env \<Rightarrow> engine
     \<Rightarrow> provider_config list \<Rightarrow> 't tls_ops \<Rightarrow> 'w tx_source \<Rightarrow> 'rq spsc list \<Rightarrow> nat list \<Rightarrow> nat list
     \<Rightarrow> ('t, 'r, 'ep, 'cn, 'jq, 'rq, 'w) threads
     \<Rightarrow> (('jq dispatch \<times> nat list \<times> reconnect_thread) \<times> tpa_runtime option, sender_error) res
         \<times> ('t, 'r, 'ep, 'cn, 'jq, 'rq, 'w) threads" where
  "build_engine E eng ps tl_cfg source result_tx resps dg x =
     (case eng of
        SeqRaw \<Rightarrow>
          bind_st (build_seq E Raw_Thread (raw_libc (se_libc E)) make_raw RawLibcKind ps tl_cfg source result_tx resps dg x)
            (\<lambda>b x. (Ok (b, None), x))
      | SeqUring mode tuning \<Rightarrow>
          bind_st (build_seq E Uring_Thread (io_uring (se_uring E)) (make_uring (se_uring E) mode tuning) IoUringKind
                     ps tl_cfg source result_tx resps dg x)
            (\<lambda>b x. (Ok (b, None), x))
      | ParRaw cfg \<Rightarrow>
          bind_st (build_par E cfg ps tl_cfg source result_tx resps dg x) (\<lambda>b x. (Ok (b, None), x))
      | ParTpa cfg \<Rightarrow>
          bind_st (build_tpa E cfg ps tl_cfg source result_tx resps dg x) (\<lambda>(b, rt) x. (Ok (b, Some rt), x)))"

text \<open>The lane thread is started before the connections are opened.\<close>

definition sender_build ::
  "('t, 'r, 'ep, 'cn, 'cc, 'ee, 'ce, 'kp, 'rc, 'jq, 'rq, 'w) sender_env \<Rightarrow> ('t, 'w) sender_builder
     \<Rightarrow> ('t, 'r, 'ep, 'cn, 'jq, 'rq, 'w) threads
     \<Rightarrow> ('jq sender, sender_error) res \<times> ('t, 'r, 'ep, 'cn, 'jq, 'rq, 'w) threads" where
  "sender_build E b x =
     (if sb_providers b = [] then (Err NoProviders, x)
      else bind_st (ok_or NoTransport (sb_transport b), x) (\<lambda>spec x.
        bind_st (ok_or NoTls (sb_tls b), x) (\<lambda>tl_cfg x.
        bind_st (ok_or NoSource (sb_source b), x) (\<lambda>source x.
        bind_st (ok_or NoSink (sb_sink b), x) (\<lambda>sink (ts, w).
        let ps = sb_providers b; n = length ps;
            rings = map (\<lambda>_. channel (se_result_ring E) RESULT_RING) ps;
            lane = lane_new rings (map pc_codec ps)
        in bind_st (spawn_thread E (Lane_Thread sink lane) (ts, stop_store E False w)) (\<lambda>lane_handle (ts, w).
           case new_each (seqlock_new E diag_default) n w of (dg, w) \<Rightarrow>
           case new_each (bounded_resp E 1) n w of (resps, w) \<Rightarrow>
           bind_st (build_engine E (engine_kind spec) ps tl_cfg source rings resps dg (ts, w)) (\<lambda>((d, hs, rc), rt) x.
             (Ok \<lparr>sn_dispatch = d, sn_workers = hs @ [lane_handle], sn_reconnect = rc, sn_diag = dg, sn_tpa = rt\<rparr>, x))))))))"

section \<open>What the threads do\<close>

definition par_thread_body ::
  "'w rt_ops \<Rightarrow> ('h, 'q, 'jq, 'rq, 'w) worker_env \<Rightarrow> nat option \<Rightarrow> int option \<Rightarrow> ('h, 'q, 'jq, 'rq) par_worker \<Rightarrow> 'w
     \<Rightarrow> ((unit, unit) res \<times> ('h, 'q, 'jq, 'rq) par_worker \<times> 'w) option" where
  "par_thread_body T W core_id priority worker w = par_run W (worker, thread_setup T core_id priority w)"

text \<open>
  The body of a libtpa thread: it gives up silently when it cannot attach to the stack or cannot
  open one of its two connections. Which worker's final state it leaves is not observable.
\<close>

definition tpa_thread_body ::
  "'w rt_ops \<Rightarrow> 'w tpa_ops \<Rightarrow> (lib_tpa, tpa_conn, 't, 'ep, 'cn, 'cc, 'ee, 'ce, 'kp, 'rc, 'w) connect_env
     \<Rightarrow> ((lib_tpa, tpa_conn, 't) http_conn, ('ep, 'cn) quic_engine quic_conn, 'jq, 'rq, 'w) worker_env
     \<Rightarrow> ('t, 'jq, 'rq, 'w) tpa_thread \<Rightarrow> 'w \<Rightarrow> ((unit, unit) res \<times> 'w) option" where
  "tpa_thread_body T A N W t w =
     (let w = thread_setup T (tt_core t) (tt_priority t) w;
          open_conn = (\<lambda>p w. connect_one N (tt_providers t) (tt_index t) (\<lambda>_ w. (Ok (with_worker p), w)) w)
      in case attach_worker A tpa_new w of (r, probe, w) \<Rightarrow>
         if \<not> is_ok r then Some (Ok (), w)
         else case open_conn (tpa_worker probe) w of
                (Ok a, w) \<Rightarrow>
                  (case open_conn (tpa_worker probe) w of
                     (Ok s, w) \<Rightarrow>
                       map_option (\<lambda>(r, _, w). (r, w))
                         (par_run W (par_new (tt_index t) (tt_trigger t) (tt_result_tx t) (dual_new a s)
                            (tt_reconnect_resp_rx t) LibTpaKind (tt_diag t), w))
                   | (r, w) \<Rightarrow> Some (discard r, w))
              | (r, w) \<Rightarrow> Some (discard r, w))"

end
