(* ===== verification/Sender_Props.thy ===== *)
theory Sender_Props
  imports Sender
begin

text \<open>
  What the user's handle guarantees: how \<open>trigger\<close> fans a job out, how a successful \<open>build\<close> wires
  rings, connections, threads and cells together, and what a failed \<open>build\<close> leaves behind.
\<close>

section \<open>Triggering\<close>

fun dispatch_rings :: "'jq dispatch \<Rightarrow> 'jq spsc list" where
  "dispatch_rings (Single p) = [p]"
| "dispatch_rings (Fanout ps) = ps"

text \<open>A ring before and after a push: it takes the job exactly if it has room.\<close>

definition has_room :: "('q \<Rightarrow> 'a list) \<Rightarrow> ('q \<Rightarrow> nat) \<Rightarrow> 'q spsc \<Rightarrow> bool" where
  "has_room items cap c \<longleftrightarrow> length (items (inner c)) < cap (inner c)"

definition pushed_to :: "('q \<Rightarrow> 'a list) \<Rightarrow> ('q \<Rightarrow> nat) \<Rightarrow> 'a \<Rightarrow> 'q spsc \<Rightarrow> 'q spsc \<Rightarrow> bool" where
  "pushed_to items cap j c c' \<longleftrightarrow>
     items (inner c') = items (inner c) @ (if has_room items cap c then [j] else [])
     \<and> cap (inner c') = cap (inner c)
     \<and> counter c' = counter c + (if has_room items cap c then 1 else 0)"

context rtrb_ring
begin

lemma try_push_pushed:
  "\<exists>r c'. try_push R j c = (r, c') \<and> is_ok r = has_room ring_items ring_cap c \<and> pushed_to ring_items ring_cap j c c'"
  using try_push_room [of c j] try_push_full [of c j]
  by (cases "has_room ring_items ring_cap c") (auto simp: has_room_def pushed_to_def)

end

lemma push_all_pushed:
  assumes "rtrb_ring R items cap"
  shows "\<exists>ps'. push_all R j ok ps = (ok \<and> list_all (has_room items cap) ps, ps')
    \<and> list_all2 (pushed_to items cap j) ps ps'"
proof (induction ps arbitrary: ok)
  case (Cons p ps)
  obtain r p' where p: "try_push R j p = (r, p')" "is_ok r = has_room items cap p" "pushed_to items cap j p p'"
    using rtrb_ring.try_push_pushed [OF assms] by blast
  from Cons.IH [of "if is_ok r then ok else False"] p show ?case by auto
qed simp

text \<open>
  C13. A trigger succeeds exactly if every ring it pushes to has room, and otherwise reports
  backpressure. In both cases the job is queued at the end of every ring that has room, so a
  trigger that failed on one provider has still reached all the others, and a repeated one
  reaches them twice; a full ring is left alone.
\<close>

theorem trigger_fans_out:
  assumes "rtrb_ring R items cap"
  shows "\<exists>d'. trigger R j d
      = (if list_all (has_room items cap) (dispatch_rings d) then Ok () else Err Backpressure, d')
    \<and> list_all2 (pushed_to items cap j) (dispatch_rings d) (dispatch_rings d')"
proof (cases d)
  case (Single p)
  obtain r p' where "try_push R j p = (r, p')" "is_ok r = has_room items cap p" "pushed_to items cap j p p'"
    using rtrb_ring.try_push_pushed [OF assms] by blast
  with Single show ?thesis by (intro exI [of _ "Single p'"]) (simp add: trigger_def)
next
  case (Fanout ps)
  from push_all_pushed [OF assms, of j True ps] obtain ps' where
    "push_all R j True ps = (list_all (has_room items cap) ps, ps')" "list_all2 (pushed_to items cap j) ps ps'"
    by auto
  with Fanout show ?thesis by (intro exI [of _ "Fanout ps'"]) (simp add: trigger_def)
qed

text \<open>Two rings of capacity 1, one of them full: the job is refused and queued all the same.\<close>

theorem trigger_fans_out_witness:
  "\<exists>d'. trigger list_ring job1 (Fanout [\<lparr>inner = (1, [job2]), counter = 1\<rparr>, \<lparr>inner = (1, []), counter = 0\<rparr>])
      = (Err Backpressure, d')
    \<and> list_all2 (pushed_to snd fst job1)
        [\<lparr>inner = (1, [job2]), counter = 1\<rparr>, \<lparr>inner = (1, []), counter = 0\<rparr>] (dispatch_rings d')"
  using trigger_fans_out [OF lr.rtrb_ring_axioms, of job1
      "Fanout [\<lparr>inner = (1, [job2]), counter = 1\<rparr>, \<lparr>inner = (1, []), counter = 0\<rparr>]"]
  by (simp add: has_room_def)

section \<open>A successful build\<close>

lemma spawn_thread_ok:
  assumes "\<And>w. fst (thread_spawn E w)"
  shows "spawn_thread E th (ts, w) = (Ok (length ts), ts @ [th], snd (thread_spawn E w))"
  using assms [of w] by (cases "thread_spawn E w") (simp add: spawn_thread_def)

lemma reconnect_spawn_ok:
  assumes "\<And>w. fst (thread_spawn E w)"
  shows "\<exists>w'. reconnect_spawn E th (ts, w) = (Ok \<lparr>rc_handle = Some (length ts)\<rparr>, ts @ [th], w')"
  by (simp add: reconnect_spawn_def spawn_thread_ok [OF assms])

lemma spawn_parallel_loop_ok:
  assumes "\<And>w. fst (thread_spawn E w)" and "k + length xs \<le> length dg"
  shows "\<exists>w'. spawn_parallel_loop E wrap source cfg kd dg (enumerate k xs) (ts, w)
    = (Ok (replicate (length xs) (channel (se_job_ring E) TRIGGER_RING), [length ts ..< length ts + length xs]),
       ts @ map (\<lambda>(i, (dc, res_tx), resp_rx). wrap (Par_Thread source (get (cfg_cores cfg) i) (rt_prio (pa_rt cfg))
              (par_new i (channel (se_job_ring E) TRIGGER_RING) res_tx dc resp_rx kd (dg ! i)))) (enumerate k xs), w')"
  using assms(2)
proof (induction xs arbitrary: k ts w)
  case (Cons x xs)
  obtain dc res_tx resp_rx where x: "x = ((dc, res_tx), resp_rx)" by (cases x) auto
  let ?th = "wrap (Par_Thread source (get (cfg_cores cfg) k) (rt_prio (pa_rt cfg))
     (par_new k (channel (se_job_ring E) TRIGGER_RING) res_tx dc resp_rx kd (dg ! k)))"
  from Cons.IH [of "Suc k" "ts @ [?th]" "snd (thread_spawn E w)"] Cons.prems obtain w' where
    "spawn_parallel_loop E wrap source cfg kd dg (enumerate (Suc k) xs) (ts @ [?th], snd (thread_spawn E w))
      = (Ok (replicate (length xs) (channel (se_job_ring E) TRIGGER_RING), [Suc (length ts) ..< Suc (length ts) + length xs]),
         (ts @ [?th]) @ map (\<lambda>(i, (dc, res_tx), resp_rx). wrap (Par_Thread source (get (cfg_cores cfg) i) (rt_prio (pa_rt cfg))
              (par_new i (channel (se_job_ring E) TRIGGER_RING) res_tx dc resp_rx kd (dg ! i)))) (enumerate (Suc k) xs), w')"
    by auto
  with Cons.prems show ?case
    by (simp add: x spawn_thread_ok [OF assms(1)] index_def Let_def upt_conv_Cons del: upt_Suc)
qed simp

lemma connect_duals_length: "fst (connect_duals N ps mk is w) = Ok ds \<Longrightarrow> length ds = length is"
proof (induction "is" arbitrary: w ds)
  case (Cons i "is")
  obtain r1 w1 where 1: "connect_one N ps i mk w = (r1, w1)" by force
  obtain r2 w2 where 2: "connect_one N ps i mk w1 = (r2, w2)" by force
  obtain r3 w3 where 3: "connect_duals N ps mk is w2 = (r3, w3)" by force
  from Cons.prems 1 2 3 Cons.IH [of w2] show ?case by (cases r1; cases r2; cases r3; auto)
qed simp

lemma new_each_length: "length (fst (new_each f n w)) = n"
  by (induction n arbitrary: w) (auto split: prod.split simp: prod_eq_iff)

text \<open>Everything a worker \<open>i\<close> of the parallel transport is given, by the index of its provider.\<close>

definition par_wiring ::
  "('t, 'r, 'ep, 'cn, 'cc, 'ee, 'ce, 'kp, 'rc, 'jq, 'rq, 'w) sender_env \<Rightarrow> 'w tx_source \<Rightarrow> parallel_config
     \<Rightarrow> ((unit, fd, 't) http_conn, ('ep, 'cn) quic_engine quic_conn) conn_state dual_conn list \<Rightarrow> nat list \<Rightarrow> nat list \<Rightarrow> nat
     \<Rightarrow> ('t, 'r, 'ep, 'cn, 'jq, 'rq, 'w) thread" where
  "par_wiring E source cfg duals rxs cells i =
     Raw_Thread (Par_Thread source (get (cfg_cores cfg) i) (rt_prio (pa_rt cfg))
       (par_new i (channel (se_job_ring E) TRIGGER_RING) (channel (se_result_ring E) RESULT_RING)
          (duals ! i) (rxs ! i) RawLibcKind (cells ! i)))"

lemma par_wiring_map:
  assumes "length duals = n" and "length rxs = n"
  shows "map (\<lambda>(i, (dc, res_tx), resp_rx). Raw_Thread (Par_Thread source (get (cfg_cores cfg) i) (rt_prio (pa_rt cfg))
      (par_new i (channel (se_job_ring E) TRIGGER_RING) res_tx dc resp_rx RawLibcKind (cells ! i))))
      (enumerate 0 (zip (zip duals (replicate n (channel (se_result_ring E) RESULT_RING))) rxs))
    = map (par_wiring E source cfg duals rxs cells) [0..<n]"
  using assms by (intro nth_equalityI) (auto simp: nth_enumerate_eq par_wiring_def)

lemma build_par_ok:
  assumes "\<And>w. fst (thread_spawn E w)"
    and "connect_dual_all (conn_env E (raw_libc (se_libc E)) tl_cfg) ps make_raw w = (Ok duals, w1)"
    and "length rxs = length ps" and "length cells = length ps"
  shows "\<exists>w'. build_par E cfg ps tl_cfg source (replicate (length ps) (channel (se_result_ring E) RESULT_RING)) rxs cells (ts, w)
    = (Ok (Fanout (replicate (length ps) (channel (se_job_ring E) TRIGGER_RING)),
         [Suc (length ts) ..< Suc (length ts) + length ps], \<lparr>rc_handle = Some (length ts)\<rparr>),
       ts @ Raw_Thread (Reconnect_Thread (engine_reconnect_build (conn_env E (raw_libc (se_libc E)) tl_cfg) (se_debug E) ps make_raw) rxs)
          # map (par_wiring E source cfg duals rxs cells) [0..<length ps], w')"
proof -
  let ?th = "Raw_Thread (Reconnect_Thread (engine_reconnect_build (conn_env E (raw_libc (se_libc E)) tl_cfg) (se_debug E) ps make_raw) rxs)"
  let ?xs = "zip (zip duals (replicate (length ps) (channel (se_result_ring E) RESULT_RING))) rxs"
  have n: "length duals = length ps"
    using connect_duals_length [of "conn_env E (raw_libc (se_libc E)) tl_cfg" ps make_raw "[0..<length ps]" w duals] assms(2)
    by (simp add: connect_dual_all_def)
  obtain w2 where r: "reconnect_spawn E ?th (ts, w1) = (Ok \<lparr>rc_handle = Some (length ts)\<rparr>, ts @ [?th], w2)"
    using reconnect_spawn_ok [OF assms(1)] by blast
  show ?thesis
    using spawn_parallel_loop_ok [OF assms(1), of 0 ?xs cells Raw_Thread source cfg RawLibcKind "ts @ [?th]" w2]
      par_wiring_map [OF n assms(3), of source cfg E cells] n assms(2-4) r
    by (auto simp: build_par_def spawn_parallel_def Let_def simp del: upt_Suc)
qed


section \<open>A failed build\<close>

lemma spawn_thread_not_Err [simp]: "spawn_thread E th x \<noteq> (Err e, y)"
  by (cases x) (auto simp: spawn_thread_def split: prod.splits bool.splits)

lemma reconnect_spawn_not_Err [simp]: "reconnect_spawn E th x \<noteq> (Err e, y)"
  by (cases x) (auto simp: reconnect_spawn_def bind_st_Err)

lemma spawn_parallel_loop_not_Err: "spawn_parallel_loop E wrap source cfg k dg xs x \<noteq> (Err e, y)"
  by (induction E wrap source cfg k dg xs x arbitrary: y rule: spawn_parallel_loop.induct)
     (auto simp: bind_st_Err Let_def)

lemma spawn_tpa_loop_not_Err: "spawn_tpa_loop E ps tl_cfg source cfg dg xs x \<noteq> (Err e, y)"
  by (induction E ps tl_cfg source cfg dg xs x arbitrary: y rule: spawn_tpa_loop.induct)
     (auto simp: bind_st_Err Let_def)

lemmas build_not_Err = spawn_parallel_loop_not_Err spawn_tpa_loop_not_Err

text \<open>A branch of the builder fails only while it opens connections or starts the stack.\<close>

lemma build_seq_Err:
  "build_seq E wrap io mk k ps tl_cfg source rings resps dg (ts, w) = (Err e, ts', w') \<Longrightarrow> ts' = ts"
  by (cases "connect_dual_all (conn_env E io tl_cfg) ps mk w") (simp add: build_seq_def spawn_seq_def bind_st_Err Let_def)

lemma build_par_Err:
  "build_par E cfg ps tl_cfg source rings resps dg (ts, w) = (Err e, ts', w') \<Longrightarrow> ts' = ts"
  by (cases "connect_dual_all (conn_env E (raw_libc (se_libc E)) tl_cfg) ps make_raw w")
     (auto simp: build_par_def spawn_parallel_def bind_st_Err Let_def build_not_Err)

lemma build_tpa_Err:
  "build_tpa E cfg ps tl_cfg source rings resps dg (ts, w) = (Err e, ts', w') \<Longrightarrow> ts' = ts"
  by (cases "tpa_start (se_tpa E) (sint (of_nat (length ps) :: 32 word)) 0 w")
     (auto simp: build_tpa_def spawn_parallel_tpa_def bind_st_Err build_not_Err)

lemma build_engine_Err:
  "build_engine E eng ps tl_cfg source rings resps dg (ts, w) = (Err e, ts', w') \<Longrightarrow> ts' = ts"
  by (cases eng) (auto simp: build_engine_def bind_st_Err dest: build_seq_Err build_par_Err build_tpa_Err)

lemma lane_iteration_ok:
  assumes "rtrb_ring R items cap" and "length (lane_rings l) \<le> length (lane_codecs l)"
  shows "\<exists>l' w'. lane_iteration R env l w = (Ok (), l', w') \<and> length (lane_rings l') \<le> length (lane_codecs l')"
proof -
  have "0 + length (lane_rings l) \<le> length (lane_codecs l)" using assms(2) by simp
  from lane_pass_items [OF assms(1) this, of env False w] obtain rings' where
    p: "lane_pass R env (lane_codecs l) 0 False (lane_rings l) w
      = (Ok (False \<or> list_ex (\<lambda>c. items (inner c) \<noteq> []) (lane_rings l)), rings', fold (on_result env) (pass_outcomes items (lane_codecs l) 0 (lane_rings l)) w)"
      and m: "map (\<lambda>c. (items (inner c), cap (inner c), counter c)) rings' = map (\<lambda>c. ([], cap (inner c), counter c)) (lane_rings l)"
    by blast
  have "length rings' = length (lane_rings l)" using arg_cong [OF m, of length] by simp
  with assms(2) have "length (lane_rings (l\<lparr>lane_rings := rings'\<rparr>)) \<le> length (lane_codecs (l\<lparr>lane_rings := rings'\<rparr>))" by simp
  moreover have "\<exists>w'. lane_iteration R env l w = (Ok (), l\<lparr>lane_rings := rings'\<rparr>, w')"
    unfolding lane_iteration_def p by (cases rings') (simp_all add: Let_def)
  ultimately show ?thesis by blast
qed

lemma lane_run_forever:
  assumes "rtrb_ring R items cap" and "\<And>v. \<not> lane_stop env v" and "length (lane_rings l) \<le> length (lane_codecs l)"
  shows "lane_run R env l w = None"
proof (rule ccontr)
  assume "lane_run R env l w \<noteq> None"
  then obtain y where "lane_run R env l w = Some y" by blast
  then have "\<not> (R = R \<and> env = env \<and> length (lane_rings l) \<le> length (lane_codecs l))"
  proof (rule lane_run.raw_induct [where P = "\<lambda>R' env' l _ _. \<not> (R' = R \<and> env' = env \<and> length (lane_rings l) \<le> length (lane_codecs l))", rotated], goal_cases)
    case (1 run R' env' l w y)
    obtain l' w' where "length (lane_rings l) \<le> length (lane_codecs l) \<longrightarrow>
        lane_iteration R env l w = (Ok (), l', w') \<and> length (lane_rings l') \<le> length (lane_codecs l')"
      using lane_iteration_ok [OF assms(1)] by metis
    with 1(1) [of R env l' w' y] 1(2) assms(2) show ?case by auto
  qed
  with assms(3) show False by simp
qed

lemma build_incomplete:
  assumes "sb_providers b = [] \<or> sb_transport b = None \<or> sb_tls b = None \<or> sb_source b = None \<or> sb_sink b = None"
  shows "\<exists>e \<in> {NoProviders, NoTransport, NoTls, NoSource, NoSink}. sender_build E b x = (Err e, x)"
  using assms
  by (cases "sb_providers b = []"; cases "sb_transport b"; cases "sb_tls b"; cases "sb_source b"; cases "sb_sink b";
      simp add: sender_build_def)

lemma build_complete:
  assumes "sb_providers b \<noteq> []" and "sb_transport b = Some spec" and "sb_tls b = Some tl_cfg"
    and "sb_source b = Some source" and "sb_sink b = Some sink"
    and "sender_build E b (ts, w) = (Err e, ts', w')"
  shows "ts' = ts @ [Lane_Thread sink (lane_new (map (\<lambda>_. channel (se_result_ring E) RESULT_RING) (sb_providers b))
    (map pc_codec (sb_providers b)))]"
proof -
  let ?rings = "map (\<lambda>_. channel (se_result_ring E) RESULT_RING) (sb_providers b)"
  let ?lane = "Lane_Thread sink (lane_new ?rings (map pc_codec (sb_providers b)))"
  obtain ok w0 where s: "thread_spawn E (stop_store E False w) = (ok, w0)" by force
  obtain cells wc where c: "new_each (seqlock_new E diag_default) (length (sb_providers b)) w0 = (cells, wc)" by force
  obtain rxs wr where x: "new_each (bounded_resp E 1) (length (sb_providers b)) wc = (rxs, wr)" by force
  obtain r y where e: "build_engine E (engine_kind spec) (sb_providers b) tl_cfg source ?rings rxs cells (ts @ [?lane], wr) = (r, y)"
    by (rule prod.exhaust)
  have "sender_build E b (ts, w) = (if ok then bind_st (r, y) (\<lambda>((d, hs, rc), rt) x.
      (Ok \<lparr>sn_dispatch = d, sn_workers = hs @ [length ts], sn_reconnect = rc, sn_diag = cells, sn_tpa = rt\<rparr>, x)) else (Panic, ts, w0))"
    using assms(1-5) s c x e by (simp add: sender_build_def spawn_thread_def Let_def)
  with assms(6) have "r = Err e \<and> y = (ts', w')" by (cases r; cases ok) auto
  with e show ?thesis by (auto dest: build_engine_Err)
qed


section \<open>A small system\<close>

text \<open>Names resolve, threads start; \<open>up\<close> says if the providers accept connections.\<close>

definition sample_libc :: "bool \<Rightarrow> (nat \<times> bytes list) libc_ops" where
  "sample_libc up = log_os\<lparr>tcp_connect := (\<lambda>_ w. (if up then Ok 3 else Err (Os 111), w))\<rparr>"

definition sample_cert :: "(unit, unit, unit, 'w) cert_ops" where
  "sample_cert = \<lparr>from_pkcs8 = (\<lambda>_ _. Ok ()), generate_for = (\<lambda>_ w. (Ok (), w)), serialize_der = (\<lambda>_. []),
     self_signed = (\<lambda>_ _ w. (Ok [], w)), tls_no_client_auth = (\<lambda>_. ()), tls_client_auth = (\<lambda>_ _ _. Ok ()),
     with_alpn = (\<lambda>_ _. ()), quic_client_config = (\<lambda>_ _. ()), quic_suitable = (\<lambda>_. Ok ()), varint_bounds_text = []\<rparr>"

definition sample_uring :: "(unit, nat \<times> bytes list) uring_ops" where
  "sample_uring = \<lparr>ring_build = (\<lambda>_ _ w. (Err (Os 38), w)), sq_push = (\<lambda>_ r w. (False, r, w)),
     ring_submit = (\<lambda>r w. (Ok 0, r, w)), cq_take = (\<lambda>r w. ([], r, w)), ur_os = log_os, ur_display = (\<lambda>_. [])\<rparr>"

definition sample_env ::
  "bool \<Rightarrow> (bytes, unit, unit, bytes list, unit, unit, unit, unit, unit, nat \<times> job list, nat \<times> raw_resp list, nat \<times> bytes list) sender_env" where
  "sample_env up = \<lparr>se_libc = sample_libc up, se_uring = sample_uring, se_tpa = null_tpa, se_quic = queue_env, se_cert = sample_cert,
     se_job_ring = list_ring, se_result_ring = list_ring, se_debug = (\<lambda>_. []), bounded_req = (\<lambda>_ w. w),
     bounded_resp = (\<lambda>_ (n, l). (n, (Suc n, l))), seqlock_new = (\<lambda>_ (n, l). (n, (Suc n, l))),
     seqlock_read = (\<lambda>_ _. diag_default), stop_store = (\<lambda>_ w. w), thread_spawn = (\<lambda>w. (True, w)),
     thread_join = (\<lambda>_ w. (Ok (), w))\<rparr>"

definition sample_builder :: "(bytes, nat \<times> bytes list) sender_builder" where
  "sample_builder = set_sink (\<lambda>_ w. w) (set_source (\<lambda>_ _ scratch w. (0, scratch, w))
     (add_provider (helius ''secret'') (set_tls null_tls (set_transport parallel_raw_libc sender_builder_new))))"

lemma sample_builder_sel:
  "sb_providers sample_builder = [helius ''secret'']"
  "sb_transport sample_builder = Some \<lparr>engine_kind = ParRaw parallel_config_default\<rparr>"
  "sb_tls sample_builder = Some null_tls" "sb_source sample_builder = Some (\<lambda>_ _ scratch w. (0, scratch, w))"
  "sb_sink sample_builder = Some (\<lambda>_ w. w)"
  by (simp_all add: sample_builder_def set_sink_def set_source_def add_provider_def set_tls_def set_transport_def
      parallel_raw_libc_def sender_builder_new_def)

lemma helius_compiles: "\<exists>t. compile (build_envelope (helius ''secret'')) = Ok t"
  using good_helius compile_benign [of "envelope_builder (helius ''secret'')"]
  by (simp add: good_preset_def build_envelope_def)

lemma helius_sel: "pc_protocol (helius ''secret'') = Http_Protocol"
  by (simp add: helius_def http_cfg_def Let_def)

text \<open>With no handshake to make, a connection is open as soon as the socket is.\<close>

lemma sample_connect:
  "\<exists>c. connect_one (conn_env (sample_env up) (raw_libc (se_libc (sample_env up))) null_tls) [helius ''secret''] 0 make_raw w
     = (if up then Ok (Http_Conn c) else Err (SConnect 0 (ConnectErr (Os 111))), w)"
proof -
  obtain t where "compile (build_envelope (helius ''secret'')) = Ok t" using helius_compiles by blast
  then show ?thesis
    by (simp add: connect_one_def index_def helius_sel connect_http_def make_raw_def connect_with_def conn_env_def
        raw_libc_def raw_connect_def sample_env_def sample_libc_def log_os_def engine_new_def null_tls_def
        handshake_loop.simps is_handshaking_def Let_def)
qed

lemma sample_connect_all:
  "is_ok (fst (connect_dual_all (conn_env (sample_env True) (raw_libc (se_libc (sample_env True))) null_tls) [helius ''secret''] make_raw w))"
  "connect_dual_all (conn_env (sample_env False) (raw_libc (se_libc (sample_env False))) null_tls) [helius ''secret''] make_raw w
     = (Err (SConnect 0 (ConnectErr (Os 111))), w)"
  using sample_connect [of True w] sample_connect [of False w] by (auto simp: connect_dual_all_def)

lemma sample_spawn: "fst (thread_spawn (sample_env up) w)"
  by (simp add: sample_env_def)



end
