(* ===== verification/System_Jobs.thy ===== *)
theory System_Jobs
  imports Sender_Props
begin

unbundle bit_operations_syntax

text \<open>
  The parallel transport as a whole: the user triggers jobs, each worker runs iterations of its
  loop, the lane delivers outcomes, and everything else (the reconnect thread, the peers, time)
  changes the world between these steps. The invariant follows every job id from the trigger
  rings through the connections and result rings to the sink.
\<close>

section \<open>Where a job id can be\<close>

fun pend_ids :: "(job \<times> 64 word) option \<Rightarrow> 64 word multiset" where
  "pend_ids None = {#}"
| "pend_ids (Some (j, _)) = {#job_id j#}"

fun conn_ids :: "('h, 'g quic_conn) conn_state \<Rightarrow> 64 word multiset" where
  "conn_ids (Http_Conn _) = {#}"
| "conn_ids (Quic_Conn q) = (case qc_inflight q of None \<Rightarrow> {#} | Some (jid, _) \<Rightarrow> {#jid#})"

text \<open>
  The ids a worker holds: queued for it, in flight on its connections, and answered but not yet
  taken by the lane. \<open>jitems\<close> and \<open>ritems\<close> are the contents of the two rings.
\<close>

definition held ::
  "('jq \<Rightarrow> job list) \<Rightarrow> ('rq \<Rightarrow> raw_resp list) \<Rightarrow> ('h, 'g quic_conn, 'jq, 'rq) par_worker \<Rightarrow> 64 word multiset" where
  "held jitems ritems s =
     mset (map job_id (jitems (inner (pw_trigger s)))) + pend_ids (pw_inflight s)
     + conn_ids (conn (active (pw_dual_conn s))) + conn_ids (conn (standby (pw_dual_conn s)))
     + mset (map rr_job (ritems (inner (pw_result_tx s))))"

definition tagged :: "('rq \<Rightarrow> raw_resp list) \<Rightarrow> ('h, 'q, 'jq, 'rq) par_worker \<Rightarrow> bool" where
  "tagged ritems s \<longleftrightarrow>
     list_all (\<lambda>r. rr_provider r = provider_of_index (pw_provider_idx s)) (ritems (inner (pw_result_tx s)))"

text \<open>\<open>s'\<close> holds nothing that \<open>s\<close> did not hold, apart from \<open>A\<close>, and its responses are its own.\<close>

definition carries ::
  "('jq \<Rightarrow> job list) \<Rightarrow> ('rq \<Rightarrow> raw_resp list) \<Rightarrow> ('h, 'g quic_conn, 'jq, 'rq) par_worker \<Rightarrow> 64 word multiset
     \<Rightarrow> ('h, 'g quic_conn, 'jq, 'rq) par_worker \<Rightarrow> bool" where
  "carries ji ri s A s' \<longleftrightarrow> pw_provider_idx s' = pw_provider_idx s \<and> held ji ri s' \<subseteq># A + held ji ri s
     \<and> (tagged ri s \<longrightarrow> tagged ri s')"

lemma carries_refl: "carries ji ri s {#} s"
  by (simp add: carries_def)

lemma carries_trans:
  assumes "carries ji ri s A s1" and "carries ji ri s1 B s2"
  shows "carries ji ri s (A + B) s2"
proof -
  have "held ji ri s2 \<subseteq># B + (A + held ji ri s)"
    using assms subset_mset.order_trans [OF _ subset_mset.add_left_mono] by (fastforce simp: carries_def)
  with assms show ?thesis by (simp add: carries_def ac_simps)
qed

lemma carries_more: "carries ji ri s A s' \<Longrightarrow> A \<subseteq># B \<Longrightarrow> carries ji ri s B s'"
  using subset_mset.order_trans [OF _ subset_mset.add_right_mono] by (fastforce simp: carries_def)

text \<open>
  The QUIC connections of a worker are the crate's own, and a connection that comes from the
  reconnect thread is new.
\<close>

definition own_quic :: "('h, 'g quic_conn, 'jq, 'rq, 'w) worker_env \<Rightarrow> ('g, 'w) quic_ops \<Rightarrow> bool" where
  "own_quic E Q \<longleftrightarrow> q_send_tx (cops E) = quic_send_tx Q \<and> q_drive (cops E) = quic_drive Q
     \<and> q_poll_noresp_window (cops E) = poll_noresp_window Q"

definition fresh_box :: "('h, 'g quic_conn) conn_box \<Rightarrow> bool" where
  "fresh_box b \<longleftrightarrow> (\<forall>c. b = Conn_Box c \<longrightarrow> conn_ids c = {#})"

definition fresh_deliveries :: "('h, 'g quic_conn, 'jq, 'rq, 'w) worker_env \<Rightarrow> bool" where
  "fresh_deliveries E \<longleftrightarrow> (\<forall>h w p w'. resp_try_recv (xchan E) h w = (Some p, w') \<longrightarrow> fresh_box (rp_conn p))"

lemma own_quic_conn_ops: "cops E = conn_ops_of B T enc Q \<Longrightarrow> own_quic E Q"
  by (simp add: own_quic_def conn_ops_of_def)

lemma connect_one_fresh:
  assumes "connect_one N ps i mk w = (Ok c, w')"
  shows "conn_ids c = {#}"
proof -
  have "connect_http N i p mk w = (Ok c, w') \<Longrightarrow> conn_ids c = {#}" for p
    by (auto simp: connect_http_def bind_st_Ok case_prod_beta)
  moreover have "connect_quic N i p w = (Ok c, w') \<Longrightarrow> conn_ids c = {#}" for p
    by (auto simp: connect_quic_def quic_new_def bind_st_Ok case_prod_beta)
  moreover from assms obtain p where
    "(case pc_protocol p of Http_Protocol \<Rightarrow> connect_http N i p mk w | Quic_Protocol \<Rightarrow> connect_quic N i p w) = (Ok c, w')"
    by (auto simp: connect_one_def bind_st_Ok)
  ultimately show ?thesis by (cases "pc_protocol p") auto
qed

lemma reconnect_builds_fresh:
  "engine_reconnect_build N dbg ps mk i k w = (Ok b, w') \<Longrightarrow> fresh_box b"
  by (cases "connect_one N ps i mk w"; cases "fst (connect_one N ps i mk w)")
     (auto simp: engine_reconnect_build_def fresh_box_def dest: connect_one_fresh)


lemma connect_duals_fresh:
  "connect_duals N ps mk is w = (Ok ds, w') \<Longrightarrow> d \<in> set ds \<Longrightarrow>
   conn_ids (conn (active d)) = {#} \<and> conn_ids (conn (standby d)) = {#}"
proof (induction "is" arbitrary: w ds)
  case (Cons i "is")
  from Cons.prems(1) obtain a w1 s w2 ds' where c: "connect_one N ps i mk w = (Ok a, w1)" "connect_one N ps i mk w1 = (Ok s, w2)"
    "connect_duals N ps mk is w2 = (Ok ds', w')" "ds = dual_new a s # ds'" by (auto simp: bind_st_Ok)
  from connect_one_fresh [OF c(1)] connect_one_fresh [OF c(2)] Cons.IH [OF c(3)] Cons.prems(2) c(4) show ?case
    by (auto simp: dual_new_def)
qed simp

section \<open>A worker creates no job\<close>

lemma held_failover: "carries ji ri s {#} (fst (par_do_failover E (s, w)))"
  by (simp add: carries_def held_def tagged_def par_do_failover_def dual_swap_def)

lemma held_mark_sent: "carries ji ri s {#job_id j#} (par_mark_sent j t s)"
  by (simp add: carries_def held_def tagged_def par_mark_sent_def)

lemma held_set_active:
  assumes "conn_ids c \<subseteq># A + conn_ids (active_conn s)"
  shows "carries ji ri s A (set_active_conn c s)"
proof -
  have "X + conn_ids c + Y \<subseteq># A + (X + conn_ids (active_conn s) + Y)" for X Y
    using assms by (simp add: subset_mset.add_mono ac_simps)
  then show ?thesis
    by (simp add: carries_def held_def tagged_def set_active_conn_def active_conn_def)
qed

text \<open>An id that \<open>s1\<close> has given up may reappear in \<open>s'\<close>.\<close>

lemma carries_spend:
  assumes "carries ji ri s1 A s'" and "A + held ji ri s1 \<subseteq># held ji ri s"
    and "pw_provider_idx s1 = pw_provider_idx s" and "pw_result_tx s1 = pw_result_tx s"
  shows "carries ji ri s {#} s'"
  using assms subset_mset.order_trans [of "held ji ri s'" "A + held ji ri s1" "held ji ri s"]
  by (auto simp: carries_def tagged_def)

lemma held_push_result:
  assumes "rtrb_ring (result_ring E) ri rcap" and "rr_provider resp = provider_of_index (pw_provider_idx s)"
  shows "carries ji ri s {#rr_job resp#} (par_push_result E resp s)"
proof -
  obtain r c where "try_push (result_ring E) resp (pw_result_tx s) = (r, c)" "pushed_to ri rcap resp (pw_result_tx s) c"
    using rtrb_ring.try_push_pushed [OF assms(1)] by blast
  with assms(2) show ?thesis
    by (auto simp: carries_def held_def tagged_def par_push_result_def pushed_to_def)
qed

lemma quic_send_ids:
  assumes "quic_send_tx Q j t tr q w = (r, q', w')"
  shows "conn_ids (Quic_Conn q') \<subseteq># {#job_id j#} + conn_ids (Quic_Conn q)"
proof -
  obtain now w1 where c: "clock Q w = (now, w1)" by force
  obtain r1 g w2 where "qe_send_tx Q tr now (qc_engine q) w1 = (r1, g, w2)" by (metis prod.exhaust)
  with c assms show ?thesis by (cases r1) (auto simp: quic_send_tx_def)
qed

lemma held_send_to:
  assumes "own_quic E Q" and "par_send_to E j t len (s, w) = (r, s', w')"
  shows "carries ji ri s {#job_id j#} s'"
proof (cases "slice_of (pw_scratch s) 0 len :: (bytes, unit) res")
  case (Ok tr)
  note b = assms(2) [unfolded par_send_to_def, simplified, unfolded Ok, simplified]
  show ?thesis
  proof (cases "active_conn s")
    case (Quic_Conn q)
    obtain r1 q1 w1 where q: "quic_send_tx Q j t tr q w = (r1, q1, w1)" by (metis prod.exhaust)
    have "carries ji ri s {#job_id j#} (set_active_conn (Quic_Conn q1) s)"
      by (rule held_set_active) (use quic_send_ids [OF q] Quic_Conn in simp)
    moreover have "s' = set_active_conn (Quic_Conn q1) s \<or> s' = (set_active_conn (Quic_Conn q1) s)\<lparr>pw_jobs_sent := pw_jobs_sent s + 1\<rparr>"
      using b Quic_Conn q assms(1) by (cases r1) (simp_all add: own_quic_def)
    ultimately show ?thesis by (auto simp: carries_def held_def tagged_def)
  next
    case (Http_Conn h)
    obtain r1 h1 w1 where h1: "h_send_tx (cops E) tr h w = (r1, h1, w1)" by (metis prod.exhaust)
    let ?s1 = "set_active_conn (Http_Conn h1) s"
    have c1: "carries ji ri s {#} ?s1" by (rule held_set_active) (simp add: Http_Conn)
    obtain s2 w2 where f: "par_do_failover E (?s1, w1) = (s2, w2)" by force
    have c2: "carries ji ri s {#} s2"
      using carries_trans [OF c1 held_failover [of ji ri ?s1 E w1]] f by simp
    have mark: "carries ji ri s {#job_id j#} (par_mark_sent j t x)" "carries ji ri s {#job_id j#} x"
      if "carries ji ri s {#} x" for x
      using carries_trans [OF that held_mark_sent [of ji ri x j t]] carries_more [OF that, of "{#job_id j#}"] by simp_all
    show ?thesis
    proof (cases "active_conn s2")
      case (Quic_Conn q)
      with b Http_Conn h1 f mark [OF c1] mark [OF c2] show ?thesis
        by (cases r1) (auto simp: Let_def split: transport_error.splits if_splits)
    next
      case (Http_Conn h2)
      obtain r2 h3 w3 where h3: "h_send_tx (cops E) tr h2 w2 = (r2, h3, w3)" by (metis prod.exhaust)
      let ?s3 = "set_active_conn (Http_Conn h3) s2"
      have "carries ji ri s2 {#} ?s3" by (rule held_set_active) (simp add: Http_Conn)
      from carries_trans [OF c2 this] have c3: "carries ji ri s {#} ?s3" by simp
      from b \<open>active_conn s = Http_Conn h\<close> h1 f Http_Conn h3 mark [OF c1] mark [OF c3] show ?thesis
        by (cases r1) (auto simp: Let_def split: transport_error.splits if_splits)
    qed
  qed
qed (use assms(2) carries_more [OF carries_refl] in \<open>simp_all add: par_send_to_def\<close>)

lemma poll_noresp_ids:
  assumes "poll_noresp_window Q q w = (p, q', w')"
  shows "conn_ids (Quic_Conn q) = (case p of None \<Rightarrow> {#} | Some (jid, _) \<Rightarrow> {#jid#}) + conn_ids (Quic_Conn q')"
proof -
  obtain now w1 where "clock Q w = (now, w1)" by force
  with assms show ?thesis
    by (cases "qc_inflight q"; cases "qc_sent_at q") (auto simp: poll_noresp_window_def split: if_splits option.splits)
qed

lemma held_poll_http:
  assumes "rtrb_ring (result_ring E) ri rcap" and "active_conn s = Http_Conn h"
    and "par_poll E (provider_of_index (pw_provider_idx s)) (s, w) = (r, s', w')"
  shows "carries ji ri s {#} s'"
proof -
  let ?pid = "provider_of_index (pw_provider_idx s)"
  obtain r1 h1 w1 where poll: "h_poll_response (cops E) h w = (r1, h1, w1)" by (metis prod.exhaust)
  let ?s = "set_active_conn (Http_Conn h1) s"
  have c: "carries ji ri s {#} ?s" by (rule held_set_active) (simp add: assms(2))
  consider (body) body j t where "r1 = Ok (Some body)" "pw_inflight s = Some (j, t)" | (other) "s' = ?s"
    using assms(2,3) poll by (cases r1) (auto simp: par_poll_def Let_def split: option.splits transport_error.splits)
  then show ?thesis
  proof cases
    case body
    obtain now w2 where t: "rdtsc (hw E) w1 = (now, w2)" by force
    let ?s1 = "?s\<lparr>pw_inflight := None\<rparr>"
    have "s' = par_push_result E (settled_resp (job_id j) ?pid t now body) ?s1"
      using assms(2,3) poll body t by (simp add: par_poll_def Let_def)
    then have p: "carries ji ri ?s1 {#job_id j#} s'"
      using held_push_result [OF assms(1), of "settled_resp (job_id j) ?pid t now body" ?s1] by (simp add: settled_resp_def)
    have "carries ji ri ?s {#} s'"
      by (rule carries_spend [OF p]) (simp_all add: held_def body)
    from carries_trans [OF c this] show ?thesis by simp
  qed (use c in simp)
qed

lemma held_poll_quic:
  assumes "rtrb_ring (result_ring E) ri rcap" and "own_quic E Q" and "active_conn s = Quic_Conn q"
    and "par_poll E (provider_of_index (pw_provider_idx s)) (s, w) = (r, s', w')"
  shows "carries ji ri s {#} s'"
proof -
  let ?pid = "provider_of_index (pw_provider_idx s)"
  obtain p q1 w1 where poll: "poll_noresp_window Q q w = (p, q1, w1)" by (metis prod.exhaust)
  let ?s = "set_active_conn (Quic_Conn q1) s"
  note ids = poll_noresp_ids [OF poll]
  consider (report) jid t where "p = Some (jid, t)" "\<not> q_is_dead (cops E) q" | (other) "p = None" "s' = ?s" | (dead) "s' = s"
    using assms poll by (cases "q_is_dead (cops E) q"; cases p) (auto simp: par_poll_def own_quic_def Let_def)
  then show ?thesis
  proof cases
    case report
    obtain now w2 where t: "rdtsc (hw E) w1 = (now, w2)" by force
    have "s' = par_push_result E (unanswered_resp jid ?pid t now) ?s"
      using assms(2-4) poll report t by (simp add: par_poll_def own_quic_def Let_def)
    then have c: "carries ji ri ?s {#jid#} s'"
      using held_push_result [OF assms(1), of "unanswered_resp jid ?pid t now" ?s] by (simp add: unanswered_resp_def)
    have "active (pw_dual_conn s) = (active (pw_dual_conn s))\<lparr>conn := Quic_Conn q\<rparr>"
      using assms(3) by (simp add: active_conn_def)
    with ids report have "{#jid#} + held ji ri ?s = held ji ri s"
      using assms(3) by (simp add: held_def set_active_conn_def active_conn_def)
    then show ?thesis by (intro carries_spend [OF c]) simp_all
  next
    case other
    with ids held_set_active [of "Quic_Conn q1" "{#}" s] assms(3) show ?thesis by simp
  qed (simp add: carries_refl)
qed

lemma held_reap:
  assumes "rtrb_ring (result_ring E) ri rcap" and "own_quic E Q"
    and "par_reap E (provider_of_index (pw_provider_idx s)) (s, w) = (r, s', w')"
  shows "carries ji ri s {#} s'"
proof -
  let ?pid = "provider_of_index (pw_provider_idx s)"
  obtain r1 s1 w1 where p: "par_poll E ?pid (s, w) = (r1, s1, w1)" by (metis prod.exhaust)
  then have c: "carries ji ri s {#} s1"
    using held_poll_http [OF assms(1)] held_poll_quic [OF assms(1,2)] by (cases "active_conn s") blast+
  from carries_trans [OF c held_failover [of ji ri s1 E w1]] c assms(3) p show ?thesis
    by (cases r1) (auto simp: par_reap_def split: if_splits)
qed

lemma held_drive:
  assumes "own_quic E Q" and "par_drive E (s, w) = (r, s', w')"
  shows "carries ji ri s {#} s'"
proof (cases "active_conn s")
  case (Http_Conn h)
  obtain r1 h1 w1 where "h_drive (cops E) h w = (r1, h1, w1)" by (metis prod.exhaust)
  with Http_Conn assms(2) have "s' = set_active_conn (Http_Conn h1) s" by (simp add: par_drive_def conn_drive_def)
  with Http_Conn show ?thesis by (simp add: held_set_active)
next
  case (Quic_Conn q)
  obtain now w1 where c: "clock Q w = (now, w1)" by force
  obtain r1 g w2 where "qe_drive Q now (qc_engine q) w1 = (r1, g, w2)" by (metis prod.exhaust)
  with Quic_Conn c assms have "s' = set_active_conn (Quic_Conn (q\<lparr>qc_engine := g\<rparr>)) s"
    by (simp add: par_drive_def conn_drive_def own_quic_def quic_drive_def)
  with Quic_Conn show ?thesis by (simp add: held_set_active)
qed

lemma held_maintain:
  assumes "fresh_deliveries E" and "par_maintain E (s, w) = (s', w')"
  shows "carries ji ri s {#} s'"
proof -
  obtain po w1 where rv: "resp_try_recv (xchan E) (pw_reconnect_resp_rx s) w = (po, w1)" by force
  consider (new) p c where "po = Some p" "rp_conn p = Conn_Box c"
      "s' = s\<lparr>pw_dual_conn := replace_standby c (pw_dual_conn s)\<rparr>" | (same) "s' = s"
    using assms(2) rv
    by (cases po; cases "rp_conn (the po)")
       (simp_all add: par_maintain_def check_standby_delivery_def par_publish_diag_def)
  then show ?thesis
  proof cases
    case new
    then have "conn_ids c = {#}" using assms(1) rv unfolding fresh_deliveries_def fresh_box_def by blast
    with new show ?thesis by (simp add: carries_def held_def tagged_def replace_standby_def)
  qed (simp add: carries_refl)
qed

lemma held_take_job:
  assumes "rtrb_ring (job_ring E) ji jcap" and "own_quic E Q" and "par_take_job E pid (s, w) = (r, s', w')"
  shows "carries ji ri s {#} s'"
proof -
  obtain jo t where pop: "try_pop (job_ring E) (pw_trigger s) = (jo, t)" by force
  show ?thesis
  proof (cases "ji (inner (pw_trigger s))")
    case Nil
    with rtrb_ring.try_pop_none [OF assms(1)] pop have t: "jo = None" "ji (inner t) = []" by fastforce+
    with assms(3) pop have "s' = s\<lparr>pw_trigger := t\<rparr>" by (simp add: par_take_job_def)
    with t Nil show ?thesis by (simp add: carries_def held_def tagged_def)
  next
    case (Cons j js)
    with rtrb_ring.try_pop_some [OF assms(1)] pop have t: "jo = Some j" "ji (inner t) = js" by fastforce+
    obtain t1 w1 where t1: "rdtsc (hw E) w = (t1, w1)" by force
    obtain len sc w2 where f: "fill E pid j (pw_scratch s) w1 = (len, sc, w2)" by (metis prod.exhaust)
    let ?s = "s\<lparr>pw_trigger := t, pw_scratch := sc\<rparr>"
    have "par_send_to E j t1 (unat len) (?s, w2) = (r, s', w')"
      using assms(3) pop t t1 f by (simp add: par_take_job_def)
    from held_send_to [OF assms(2) this] have c: "carries ji ri ?s {#job_id j#} s'" .
    show ?thesis by (rule carries_spend [OF c]) (simp_all add: held_def Cons t)
  qed
qed

lemma held_iteration:
  assumes "rtrb_ring (job_ring E) ji jcap" and "rtrb_ring (result_ring E) ri rcap" and "own_quic E Q"
    and "fresh_deliveries E" and "par_iteration E (s, w) = (Ok (), s', w')"
  shows "carries ji ri s {#} s'"
  using assms(5)
proof (rule par_iteration_Ok)
  fix s1 w1 s2 w2 s3 w3 s4 w4
  assume 1: "par_take_job E (provider_of_index (pw_provider_idx s)) (s, w) = (Ok (), s1, w1)"
    and 2: "par_drive E (s1, w1) = (Ok (), s2, w2)"
    and 3: "par_reap E (provider_of_index (pw_provider_idx s)) (s2, w2) = (Ok (), s3, w3)"
    and 4: "(s4, w4) = (if (pw_tick s3 + 1) AND PERIODIC_MASK = 0
      then par_maintain E (s3\<lparr>pw_tick := pw_tick s3 + 1\<rparr>, w3) else (s3\<lparr>pw_tick := pw_tick s3 + 1\<rparr>, w3))"
    and 5: "(s', w') = (if is_empty (job_ring E) (pw_trigger s4) then par_maintain E (par_idle E (s4, w4)) else (s4, w4))"
  have c1: "carries ji ri s {#} s1" by (rule held_take_job [OF assms(1,3) 1])
  have c2: "carries ji ri s {#} s2" using carries_trans [OF c1 held_drive [OF assms(3) 2]] by simp
  then have "provider_of_index (pw_provider_idx s) = provider_of_index (pw_provider_idx s2)" by (simp add: carries_def)
  from carries_trans [OF c2 held_reap [OF assms(2,3) 3 [unfolded this]]] have c3: "carries ji ri s {#} s3" by simp
  let ?s3 = "s3\<lparr>pw_tick := pw_tick s3 + 1\<rparr>"
  have t: "carries ji ri s {#} ?s3" using c3 by (auto simp: carries_def held_def tagged_def)
  have c4: "carries ji ri s {#} s4"
    using carries_trans [OF t held_maintain [OF assms(4), of ?s3 w3 s4 w4]] t 4
    by (cases "(pw_tick s3 + 1) AND PERIODIC_MASK = 0") simp_all
  obtain w5 where "par_idle E (s4, w4) = (s4, w5)" by (simp add: par_idle_def)
  then show "carries ji ri s {#} s'"
    using carries_trans [OF c4 held_maintain [OF assms(4), of s4 w5 s' w']] c4 5
    by (cases "is_empty (job_ring E) (pw_trigger s4)") simp_all
qed

section \<open>The system\<close>

text \<open>
  The state of a running sender: its workers, the world, the outcomes the sink has been given
  and the jobs the user has triggered, both oldest first.
\<close>

record ('h, 'q, 'jq, 'rq, 'w) system =
  sy_workers :: "('h, 'q, 'jq, 'rq) par_worker list"
  sy_world :: 'w
  sy_log :: "provider_outcome list"
  sy_jobs :: "job list"

definition start_system ::
  "('h, 'q, 'jq, 'rq, 'w) worker_env \<Rightarrow> ('h, 'q) conn_state dual_conn list \<Rightarrow> (nat \<Rightarrow> nat) \<Rightarrow> (nat \<Rightarrow> nat) \<Rightarrow> conn_kind
     \<Rightarrow> 'w \<Rightarrow> ('h, 'q, 'jq, 'rq, 'w) system" where
  "start_system E duals rxs cells k w =
     \<lparr>sy_workers = map (\<lambda>i. par_new i (channel (job_ring E) TRIGGER_RING) (channel (result_ring E) RESULT_RING)
                         (duals ! i) (rxs i) k (cells i)) [0..<length duals],
      sy_world = w, sy_log = [], sy_jobs = []\<rparr>"

text \<open>
  One step: the user triggers a job, with or without success; a worker runs one iteration of
  its loop; the lane makes one pass; or the world changes in any way.
\<close>

inductive sys_step ::
  "('h, 'q, 'jq, 'rq, 'w) worker_env \<Rightarrow> response_codec list \<Rightarrow> ('h, 'q, 'jq, 'rq, 'w) system
     \<Rightarrow> ('h, 'q, 'jq, 'rq, 'w) system \<Rightarrow> bool" for E codecs where
  user: "trigger (job_ring E) j (Fanout (map pw_trigger (sy_workers x))) = (r, Fanout ps)
    \<Longrightarrow> sys_step E codecs x (x\<lparr>sy_workers := map2 (\<lambda>s p. s\<lparr>pw_trigger := p\<rparr>) (sy_workers x) ps,
          sy_jobs := sy_jobs x @ [j]\<rparr>)"
| work: "i < length (sy_workers x) \<Longrightarrow> par_iteration E (sy_workers x ! i, sy_world x) = (Ok (), s', w')
    \<Longrightarrow> sys_step E codecs x (x\<lparr>sy_workers := (sy_workers x)[i := s'], sy_world := w'\<rparr>)"
| lane: "lane_pass (result_ring E) log_lane codecs 0 False (map pw_result_tx (sy_workers x)) (sy_log x) = (Ok got, rings, l)
    \<Longrightarrow> sys_step E codecs x (x\<lparr>sy_workers := map2 (\<lambda>s c. s\<lparr>pw_result_tx := c\<rparr>) (sy_workers x) rings, sy_log := l\<rparr>)"
| world: "sys_step E codecs x (x\<lparr>sy_world := w'\<rparr>)"

inductive sys_reach ::
  "('h, 'q, 'jq, 'rq, 'w) worker_env \<Rightarrow> response_codec list \<Rightarrow> ('h, 'q, 'jq, 'rq, 'w) system
     \<Rightarrow> ('h, 'q, 'jq, 'rq, 'w) system \<Rightarrow> bool" for E codecs x where
  start: "sys_reach E codecs x x"
| step: "sys_reach E codecs x y \<Longrightarrow> sys_step E codecs y z \<Longrightarrow> sys_reach E codecs x z"

definition reported :: "nat \<Rightarrow> provider_outcome list \<Rightarrow> 64 word multiset" where
  "reported i l = mset (map po_job (filter (\<lambda>oc. po_provider oc = provider_of_index i) l))"

definition sys_inv :: "('jq \<Rightarrow> job list) \<Rightarrow> ('rq \<Rightarrow> raw_resp list) \<Rightarrow> nat \<Rightarrow> ('h, 'g quic_conn, 'jq, 'rq, 'w) system \<Rightarrow> bool" where
  "sys_inv ji ri n x \<longleftrightarrow> length (sy_workers x) = n
     \<and> (\<forall>i < n. pw_provider_idx (sy_workers x ! i) = i \<and> tagged ri (sy_workers x ! i)
          \<and> reported i (sy_log x) + held ji ri (sy_workers x ! i) \<subseteq># mset (map job_id (sy_jobs x)))
     \<and> (\<forall>oc \<in> set (sy_log x). \<exists>i < n. po_provider oc = provider_of_index i)"

lemma reported_append: "reported i (l @ l') = reported i l + reported i l'"
  by (simp add: reported_def)

lemma provider_of_index_inj: "i < 2 ^ 16 \<Longrightarrow> j < 2 ^ 16 \<Longrightarrow> provider_of_index i = provider_of_index j \<longleftrightarrow> i = j"
  by (metis provider_idx_of_index)

text \<open>A pass reports for provider \<open>i\<close> exactly what ring \<open>i\<close> held.\<close>

lemma pass_outcomes_reported:
  assumes "\<And>m. m < length rings \<Longrightarrow> list_all (\<lambda>r. rr_provider r = provider_of_index (k + m)) (ri (inner (rings ! m)))"
    and "k + length rings \<le> 2 ^ 16" and "i < 2 ^ 16"
  shows "reported i (pass_outcomes ri codecs k rings)
    = (if k \<le> i \<and> i < k + length rings then mset (map rr_job (ri (inner (rings ! (i - k))))) else {#})"
  using assms(1,2)
proof (induction rings arbitrary: k)
  case (Cons c rings)
  have here: "list_all (\<lambda>r. rr_provider r = provider_of_index k) (ri (inner c))" using Cons.prems(1) [of 0] by simp
  have k: "k < 2 ^ 16" using Cons.prems(2) by simp
  have "list_all (\<lambda>r. rr_provider r = provider_of_index k) rs \<Longrightarrow>
      reported i (map (\<lambda>r. parse_one r (codecs ! k)) rs) = (if i = k then mset (map rr_job rs) else {#})" for rs
    using provider_of_index_inj [OF k assms(3)]
    by (induction rs) (auto simp: reported_def parse_one_def Let_def)
  note this [OF here]
  moreover have "reported i (pass_outcomes ri codecs (Suc k) rings)
      = (if Suc k \<le> i \<and> i < Suc k + length rings then mset (map rr_job (ri (inner (rings ! (i - Suc k))))) else {#})"
    using Cons.prems(1) [of "Suc _"] Cons.prems(2) by (intro Cons.IH) auto
  ultimately show ?case by (auto simp: reported_append nth_Cons')
qed (auto simp: reported_def)

lemma pass_outcomes_provider:
  assumes "\<And>m. m < length rings \<Longrightarrow> list_all (\<lambda>r. rr_provider r = provider_of_index (k + m)) (ri (inner (rings ! m)))"
    and "oc \<in> set (pass_outcomes ri codecs k rings)"
  shows "\<exists>m < length rings. po_provider oc = provider_of_index (k + m)"
  using assms
proof (induction rings arbitrary: k)
  case (Cons c rings)
  have "\<exists>m < length rings. po_provider oc = provider_of_index (Suc k + m)" if "oc \<in> set (pass_outcomes ri codecs (Suc k) rings)"
    using Cons.prems(1) [of "Suc _"] that by (intro Cons.IH) auto
  moreover have "po_provider oc = provider_of_index k" if "oc \<in> (\<lambda>r. parse_one r (codecs ! k)) ` set (ri (inner c))"
    using Cons.prems(1) [of 0] that by (auto simp: list_all_iff parse_one_def Let_def)
  ultimately show ?case using Cons.prems(2) by fastforce
qed simp

lemma sys_inv_start:
  assumes "rtrb_ring (job_ring E) ji jcap" and "rtrb_ring (result_ring E) ri rcap"
    and "\<And>d. d \<in> set duals \<Longrightarrow> conn_ids (conn (active d)) = {#} \<and> conn_ids (conn (standby d)) = {#}"
  shows "sys_inv ji ri (length duals) (start_system E duals rxs cells k w)"
  using assms(3) rtrb_ring.new_items [OF assms(1)] rtrb_ring.new_items [OF assms(2)]
  by (auto simp: sys_inv_def start_system_def par_new_def held_def tagged_def channel_def reported_def)

lemma sys_inv_user:
  assumes "rtrb_ring (job_ring E) ji jcap" and "sys_inv ji ri n x"
    and "trigger (job_ring E) j (Fanout (map pw_trigger (sy_workers x))) = (r, Fanout ps)"
  shows "sys_inv ji ri n (x\<lparr>sy_workers := map2 (\<lambda>s p. s\<lparr>pw_trigger := p\<rparr>) (sy_workers x) ps, sy_jobs := sy_jobs x @ [j]\<rparr>)"
proof -
  from push_all_pushed [OF assms(1), of j True "map pw_trigger (sy_workers x)"] assms(3)
  have ps: "list_all2 (pushed_to ji jcap j) (map pw_trigger (sy_workers x)) ps"
    by (auto simp: trigger_def split: prod.splits)
  then have len: "length ps = length (sy_workers x)" by (auto dest: list_all2_lengthD)
  have "tagged ri ((sy_workers x ! i)\<lparr>pw_trigger := ps ! i\<rparr>)
      \<and> reported i (sy_log x) + held ji ri ((sy_workers x ! i)\<lparr>pw_trigger := ps ! i\<rparr>) \<subseteq># add_mset (job_id j) (mset (map job_id (sy_jobs x)))"
    if "i < n" for i
  proof -
    let ?s = "sy_workers x ! i"
    have i: "tagged ri ?s" "reported i (sy_log x) + held ji ri ?s \<subseteq># mset (map job_id (sy_jobs x))"
      using assms(2) that by (auto simp: sys_inv_def)
    have "pushed_to ji jcap j (pw_trigger ?s) (ps ! i)"
      using ps that assms(2) by (auto simp: list_all2_conv_all_nth sys_inv_def)
    then have "held ji ri (?s\<lparr>pw_trigger := ps ! i\<rparr>) \<subseteq># {#job_id j#} + held ji ri ?s"
      by (auto simp: held_def pushed_to_def)
    from subset_mset.add_left_mono [OF this, of "reported i (sy_log x)"]
    have "reported i (sy_log x) + held ji ri (?s\<lparr>pw_trigger := ps ! i\<rparr>)
        \<subseteq># add_mset (job_id j) (reported i (sy_log x) + held ji ri ?s)" by simp
    also have "\<dots> \<subseteq># add_mset (job_id j) (mset (map job_id (sy_jobs x)))" using i(2) by simp
    finally show ?thesis using i(1) by (simp add: tagged_def)
  qed
  with assms(2) len show ?thesis by (auto simp: sys_inv_def)
qed

lemma sys_inv_lane:
  assumes "rtrb_ring (result_ring E) ri rcap" and "sys_inv ji ri n x" and "n \<le> length codecs" and "n \<le> 2 ^ 16"
    and "lane_pass (result_ring E) log_lane codecs 0 False (map pw_result_tx (sy_workers x)) (sy_log x) = (r, rings, l)"
  shows "sys_inv ji ri n (x\<lparr>sy_workers := map2 (\<lambda>s c. s\<lparr>pw_result_tx := c\<rparr>) (sy_workers x) rings, sy_log := l\<rparr>)"
proof -
  let ?rings = "map pw_result_tx (sy_workers x)"
  have n: "length (sy_workers x) = n" using assms(2) by (simp add: sys_inv_def)
  have log: "fold (on_result log_lane) os l = l @ os" for os l
    by (induction os arbitrary: l) (simp_all add: log_lane_def)
  have "0 + length ?rings \<le> length codecs" using assms(3) n by simp
  from lane_pass_items [OF assms(1) this, of log_lane False "sy_log x"] assms(5)
  have l: "l = sy_log x @ pass_outcomes ri codecs 0 ?rings"
    and m: "map (\<lambda>c. (ri (inner c), rcap (inner c), counter c)) rings = map (\<lambda>c. ([], rcap (inner c), counter c)) ?rings"
    by (simp_all add: log)
  have len: "length rings = n" using arg_cong [OF m, of length] n by simp
  have empty: "ri (inner (rings ! i)) = []" if "i < n" for i
    using arg_cong [OF m, of "\<lambda>xs. fst (xs ! i)"] that len n by simp
  have tags: "list_all (\<lambda>r. rr_provider r = provider_of_index (0 + m)) (ri (inner (?rings ! m)))" if "m < length ?rings" for m
    using assms(2) that n by (auto simp: sys_inv_def tagged_def)
  have rep: "reported i (pass_outcomes ri codecs 0 ?rings) = mset (map rr_job (ri (inner (pw_result_tx (sy_workers x ! i)))))"
    if "i < n" for i
    using pass_outcomes_reported [OF tags, of i codecs] that n assms(4) by simp
  have "\<exists>i < n. po_provider oc = provider_of_index i" if "oc \<in> set (pass_outcomes ri codecs 0 ?rings)" for oc
    using pass_outcomes_provider [OF tags that] n by auto
  moreover have "reported i l + held ji ri (s\<lparr>pw_result_tx := rings ! i\<rparr>) = reported i (sy_log x) + held ji ri s"
    if "i < n" "s = sy_workers x ! i" for i s
    using that rep [OF that(1)] empty [OF that(1)] by (simp add: l reported_append held_def ac_simps)
  ultimately show ?thesis
    using assms(2) len n empty by (auto simp: sys_inv_def tagged_def l)
qed

lemma sys_inv_step:
  assumes "rtrb_ring (job_ring E) ji jcap" and "rtrb_ring (result_ring E) ri rcap" and "own_quic E Q" and "fresh_deliveries E"
    and "n \<le> length codecs" and "n \<le> 2 ^ 16" and "sys_step E codecs x y" and "sys_inv ji ri n x"
  shows "sys_inv ji ri n y"
  using assms(7)
proof cases
  case (user j r ps)
  then show ?thesis using sys_inv_user [OF assms(1,8)] by blast
next
  case (work i s' w')
  from held_iteration [OF assms(1-4) work(3)] have c: "carries ji ri (sy_workers x ! i) {#} s'" .
  then have "reported i (sy_log x) + held ji ri s' \<subseteq># reported i (sy_log x) + held ji ri (sy_workers x ! i)"
    by (simp add: carries_def)
  also have "\<dots> \<subseteq># mset (map job_id (sy_jobs x))" using assms(8) work(2) by (auto simp: sys_inv_def)
  finally show ?thesis using assms(8) c work by (auto simp: sys_inv_def carries_def nth_list_update)
next
  case (lane got rings l)
  then show ?thesis using sys_inv_lane [OF assms(2,8,5,6)] by blast
next
  case (world w')
  with assms(8) show ?thesis by (simp add: sys_inv_def)
qed

text \<open>
  C4. No outcome is made up and none is reported twice: in every reachable state of the
  parallel transport, however the threads interleave and whatever the peers and the reconnect
  thread do, every outcome the sink has got carries the index of one of the providers, and for
  each provider the reported job ids, counted with multiplicity, are among the ids of the
  triggered jobs.
\<close>

theorem outcomes_are_jobs:
  assumes "rtrb_ring (job_ring E) ji jcap" and "rtrb_ring (result_ring E) ri rcap" and "own_quic E Q" and "fresh_deliveries E"
    and "\<And>d. d \<in> set duals \<Longrightarrow> conn_ids (conn (active d)) = {#} \<and> conn_ids (conn (standby d)) = {#}"
    and "length duals \<le> length codecs" and "length duals \<le> 2 ^ 16"
    and "sys_reach E codecs (start_system E duals rxs cells k w) x"
  shows "(\<forall>oc \<in> set (sy_log x). \<exists>i < length duals. po_provider oc = provider_of_index i)
    \<and> (\<forall>i < length duals. mset (map po_job (filter (\<lambda>oc. po_provider oc = provider_of_index i) (sy_log x)))
         \<subseteq># mset (map job_id (sy_jobs x)))"
proof -
  from assms(8) have "sys_inv ji ri (length duals) x"
  proof induction
    case start
    show ?case by (rule sys_inv_start [OF assms(1,2,5)])
  next
    case (step y z)
    with sys_inv_step [OF assms(1-4,6,7)] show ?case by blast
  qed
  then show ?thesis
    unfolding sys_inv_def reported_def by (meson mset_subset_eq_add_left subset_mset.order_trans)
qed

text \<open>One provider on a scripted connection that answers the first poll.\<close>

definition still_quic :: "(unit, unit) quic_ops" where
  "still_quic = \<lparr>clock = (\<lambda>w. (0, w)), qe_send_tx = (\<lambda>_ _ g w. (Ok (), g, w)), qe_drive = (\<lambda>_ g w. (Ok (), g, w)),
     qe_is_closed = (\<lambda>_. False)\<rparr>"

definition demo_env :: "(script, unit quic_conn, nat \<times> job list, nat \<times> raw_resp list, unit) worker_env" where
  "demo_env = \<lparr>job_ring = list_ring, result_ring = list_ring,
     cops = \<lparr>h_send_tx = h_send_tx script_conn, h_poll_response = h_poll_response script_conn, h_drive = h_drive script_conn,
       q_send_tx = quic_send_tx still_quic, q_poll_noresp_window = poll_noresp_window still_quic,
       q_drive = quic_drive still_quic, q_is_dead = quic_is_dead still_quic\<rparr>,
     xchan = \<lparr>req_try_send = (\<lambda>_ w. (True, w)), req_recv_timeout = (\<lambda>w. (Timeout, w)),
       resp_try_send = (\<lambda>_ _ w. (True, w)), resp_try_recv = (\<lambda>_ w. (None, w))\<rparr>,
     hw = null_hw, stop_load = (\<lambda>_. False), fill = (\<lambda>_ _ sc w. (3, sc, w)), diag_write = (\<lambda>_ _ w. w), trigger_addr = 0\<rparr>"

definition demo_duals :: "(script, unit quic_conn) conn_state dual_conn list" where
  "demo_duals = [dual_new (Http_Conn ([], [Ok (Some ''a'')])) (Http_Conn ([], []))]"

definition demo_worker :: "job list \<Rightarrow> (script, unit quic_conn, nat \<times> job list, nat \<times> raw_resp list) par_worker" where
  "demo_worker js = par_new 0 \<lparr>inner = (256, js), counter = of_nat (length js)\<rparr> \<lparr>inner = (256, []), counter = 0\<rparr>
     (demo_duals ! 0) 0 RawLibcKind 0"

lemma demo_start:
  "start_system demo_env demo_duals (\<lambda>i. i) (\<lambda>i. i) RawLibcKind ()
     = \<lparr>sy_workers = [demo_worker []], sy_world = (), sy_log = [], sy_jobs = []\<rparr>"
  by (simp add: start_system_def demo_worker_def demo_env_def demo_duals_def channel_def list_ring_def notifier_new_def
      TRIGGER_RING_def RESULT_RING_def)

lemma demo_trigger:
  "trigger (job_ring demo_env) job1 (Fanout [pw_trigger (demo_worker [])]) = (Ok (), Fanout [pw_trigger (demo_worker [job1])])"
  by (simp add: trigger_def demo_worker_def demo_env_def par_new_def list_ring_def try_push_def notify_def)

lemma demo_iteration:
  "\<exists>s'. par_iteration demo_env (demo_worker [job1], ()) = (Ok (), s', ())
     \<and> pw_result_tx s' = \<lparr>inner = (256, [settled_resp 1 0 0 0 ''a'']), counter = 1\<rparr>"
  by (simp add: demo_env_def demo_duals_def demo_worker_def worker_defs script_conn_def par_new_def dual_new_def
      list_ring_def job1_def provider_of_index_def)

lemma demo_run:
  "\<exists>x. sys_reach demo_env [json_rpc_parse] (start_system demo_env demo_duals (\<lambda>i. i) (\<lambda>i. i) RawLibcKind ()) x
     \<and> map po_job (sy_log x) = [1] \<and> sy_jobs x = [job1]"
proof -
  let ?x0 = "\<lparr>sy_workers = [demo_worker []], sy_world = (), sy_log = [], sy_jobs = []\<rparr>"
  let ?x1 = "\<lparr>sy_workers = [demo_worker [job1]], sy_world = (), sy_log = [], sy_jobs = [job1]\<rparr>"
  have "(demo_worker [])\<lparr>pw_trigger := pw_trigger (demo_worker [job1])\<rparr> = demo_worker [job1]"
    by (simp add: demo_worker_def par_new_def)
  then have r1: "sys_reach demo_env [json_rpc_parse] ?x0 ?x1"
    using sys_reach.step [OF sys_reach.start sys_step.user [of demo_env job1 ?x0]] demo_trigger by simp
  obtain s' where w: "par_iteration demo_env (demo_worker [job1], ()) = (Ok (), s', ())"
    and s': "pw_result_tx s' = \<lparr>inner = (256, [settled_resp 1 0 0 0 ''a'']), counter = 1\<rparr>"
    using demo_iteration by blast
  let ?x2 = "\<lparr>sy_workers = [s'], sy_world = (), sy_log = [], sy_jobs = [job1]\<rparr>"
  have r2: "sys_reach demo_env [json_rpc_parse] ?x0 ?x2"
    using sys_reach.step [OF r1 sys_step.work [of 0 ?x1 demo_env s' "()"]] w by simp
  obtain rings where "lane_pass (result_ring demo_env) log_lane [json_rpc_parse] 0 False (map pw_result_tx (sy_workers ?x2)) (sy_log ?x2)
      = (Ok True, rings, [parse_one (settled_resp 1 0 0 0 ''a'') json_rpc_parse])"
    using lane_pass_items [OF lr.rtrb_ring_axioms, of 0 "[pw_result_tx s']" "[json_rpc_parse]" log_lane False "[]"]
    by (auto simp: s' demo_env_def log_lane_def)
  from sys_reach.step [OF r2 sys_step.lane [OF this]] show ?thesis
    by (intro exI [of _ "?x2\<lparr>sy_workers := map2 (\<lambda>s c. s\<lparr>pw_result_tx := c\<rparr>) (sy_workers ?x2) rings,
          sy_log := [parse_one (settled_resp 1 0 0 0 ''a'') json_rpc_parse]\<rparr>"])
       (simp add: demo_start parse_one_def settled_resp_def Let_def)
qed

theorem outcomes_are_jobs_witness:
  "\<exists>x. sys_reach demo_env [json_rpc_parse] (start_system demo_env demo_duals (\<lambda>i. i) (\<lambda>i. i) RawLibcKind ()) x
     \<and> map po_job (sy_log x) = [1] \<and> sy_jobs x = [job1]
     \<and> (\<forall>oc \<in> set (sy_log x). \<exists>i < length demo_duals. po_provider oc = provider_of_index i)
     \<and> (\<forall>i < length demo_duals. mset (map po_job (filter (\<lambda>oc. po_provider oc = provider_of_index i) (sy_log x)))
          \<subseteq># mset (map job_id (sy_jobs x)))"
proof -
  obtain x where x: "sys_reach demo_env [json_rpc_parse] (start_system demo_env demo_duals (\<lambda>i. i) (\<lambda>i. i) RawLibcKind ()) x"
    "map po_job (sy_log x) = [1]" "sy_jobs x = [job1]"
    by (rule exE [OF demo_run]) (elim conjE, rule that)
  have "rtrb_ring (job_ring demo_env) snd fst" "rtrb_ring (result_ring demo_env) snd fst"
    using lr.rtrb_ring_axioms by (simp_all add: demo_env_def)
  moreover have "own_quic demo_env still_quic" "fresh_deliveries demo_env"
    by (simp_all add: own_quic_def fresh_deliveries_def demo_env_def)
  ultimately show ?thesis
    using outcomes_are_jobs [OF _ _ _ _ _ _ _ x(1), of snd fst snd fst still_quic] x
    by (auto simp: demo_duals_def dual_new_def)
qed

end
