(* ===== verification/System_Seq.thy ===== *)
theory System_Seq
  imports System_Jobs
begin

unbundle bit_operations_syntax

text \<open>
  The sequential transport as a whole: the user triggers jobs on one ring, the worker serves
  every provider, the lane delivers outcomes, and the world changes between these steps. The
  state is abstracted to that of \<open>System_Jobs\<close>, with the projections of the worker as its
  workers, and the invariant of that system carries over.
\<close>

section \<open>The worker gives each provider a job once\<close>

lemma bind_st_pairE:
  assumes "bind_st x (\<lambda>a (s, w). f a s w) = (Ok b, y)"
  obtains a s w where "x = (Ok a, s, w)" and "f a s w = (Ok b, y)"
  using assms that by (cases x; cases "fst x") (auto split: prod.splits)

definition seq_carries ::
  "('jq \<Rightarrow> job list) \<Rightarrow> ('rq \<Rightarrow> raw_resp list) \<Rightarrow> ('h, 'g quic_conn, 'jq, 'rq) seq_worker \<Rightarrow> (nat \<Rightarrow> 64 word multiset)
     \<Rightarrow> ('h, 'g quic_conn, 'jq, 'rq) seq_worker \<Rightarrow> bool" where
  "seq_carries ji ri s A s' \<longleftrightarrow> seq_wf s' \<and> length (sw_conns s') = length (sw_conns s)
     \<and> (\<forall>i < length (sw_conns s). carries ji ri (proj i s) (A i) (proj i s'))"

lemma seq_carries_refl: "seq_wf s \<Longrightarrow> seq_carries ji ri s (\<lambda>_. {#}) s"
  by (simp add: seq_carries_def carries_refl)

lemma seq_carries_trans:
  assumes "seq_carries ji ri s A s1" and "seq_carries ji ri s1 B s2"
  shows "seq_carries ji ri s (\<lambda>i. A i + B i) s2"
  using assms carries_trans by (fastforce simp: seq_carries_def)

text \<open>Two states that differ in nothing a job can be in.\<close>

lemma carries_same:
  assumes "pw_provider_idx s' = pw_provider_idx s" and "pw_trigger s' = pw_trigger s" and "pw_result_tx s' = pw_result_tx s"
    and "pw_dual_conn s' = pw_dual_conn s" and "pw_inflight s' = pw_inflight s"
  shows "carries ji ri x A s' = carries ji ri x A s" and "carries ji ri s' A x = carries ji ri s A x"
  using assms by (simp_all add: carries_def held_def tagged_def)

lemma seq_carries_put:
  assumes "seq_wf s" and "k < length (sw_conns s)" and "carries ji ri (proj k s) A p" and "pw_trigger p = sw_trigger s"
  shows "seq_carries ji ri s (\<lambda>i. if i = k then A else {#}) (put_at k s p)"
proof -
  have idx: "pw_provider_idx p = k" using assms(3) by (simp add: carries_def)
  note nth = put_at_nth [OF assms(1,2), of p]
  have "carries ji ri (proj k s) A (proj k (put_at k s p))"
    using carries_same(1) [of "proj k (put_at k s p)" p] assms(3) by (simp add: nth idx)
  moreover have "carries ji ri (proj i s) {#} (proj i (put_at k s p))" if "i \<noteq> k" for i
    using carries_same(1) [of "proj i (put_at k s p)" "proj i s"] carries_refl [of ji ri "proj i s"] that assms(4)
    by (simp add: put_at_def)
  ultimately show ?thesis using assms(1) by (auto simp: seq_carries_def put_at_wf nth)
qed

lemma par_send_to_trigger: "pw_trigger (fst (snd (par_send_to E j t len (p, w)))) = pw_trigger p"
proof (cases "slice_of (pw_scratch p) 0 len :: (bytes, unit) res")
  case (Ok txn)
  show ?thesis
  proof (cases "active_conn p")
    case (Quic_Conn q)
    obtain r q' w1 where "q_send_tx (cops E) j t txn q w = (r, q', w1)" by (metis prod.exhaust)
    with Ok Quic_Conn show ?thesis by (cases r) (simp_all add: par_send_to_def set_active_conn_def)
  next
    case (Http_Conn h)
    obtain r h' w1 where s1: "h_send_tx (cops E) txn h w = (r, h', w1)" by (metis prod.exhaust)
    obtain p2 w2 where f: "par_do_failover E (set_active_conn (Http_Conn h') p, w1) = (p2, w2)" by force
    then have "pw_trigger p2 = pw_trigger p" by (auto simp: par_do_failover_def set_active_conn_def)
    with Ok Http_Conn s1 f show ?thesis
      by (cases r) (auto simp: par_send_to_def par_mark_sent_def set_active_conn_def Let_def
          split: transport_error.splits conn_state.splits prod.splits)
  qed
qed (simp_all add: par_send_to_def)

lemma par_drive_trigger: "pw_trigger (fst (snd (par_drive E (p, w)))) = pw_trigger p"
  by (simp add: par_drive_def set_active_conn_def split: prod.split)

lemma par_reap_trigger: "pw_trigger (fst (snd (par_reap E pid (p, w)))) = pw_trigger p"
proof -
  obtain r p1 w1 where q: "par_poll E pid (p, w) = (r, p1, w1)" by (metis prod.exhaust)
  have "pw_trigger (fst (snd (par_poll E pid (p, w)))) = pw_trigger p"
    by (simp add: par_poll_def par_push_result_def set_active_conn_def Let_def
        split: conn_state.split prod.split res.split option.split transport_error.split)
  with q show ?thesis by (cases r) (simp_all add: par_reap_def par_do_failover_def)
qed

lemma seq_carries_fill_send:
  assumes "own_quic E Q" and "seq_wf s" and "k < length (sw_conns s)" and "seq_fill_send E j t k (s, w) = (r, s', w')"
  shows "seq_carries ji ri s (\<lambda>i. if i = k then {#job_id j#} else {#}) s'"
proof -
  obtain len sc w1 where f: "fill E (provider_of_index k) j (sw_scratch s) w = (len, sc, w1)" by (metis prod.exhaust)
  let ?s = "s\<lparr>sw_scratch := sc\<rparr>"
  have wf: "seq_wf ?s" "k < length (sw_conns ?s)" using assms(2,3) by (simp_all add: seq_wf_def)
  obtain r1 p w2 where p: "par_send_to E j t (unat len) (proj k ?s, w1) = (r1, p, w2)" by (metis prod.exhaust)
  have c: "carries ji ri (proj k ?s) {#job_id j#} p" by (rule held_send_to [OF assms(1) p])
  have "pw_trigger p = sw_trigger ?s" using par_send_to_trigger [of E j t "unat len" "proj k ?s" w1] p by simp
  with seq_carries_put [OF wf c] have "seq_carries ji ri ?s (\<lambda>i. if i = k then {#job_id j#} else {#}) (put_at k ?s p)" by simp
  moreover have "s' = put_at k ?s p"
    using seq_send_to_put [OF of_provider_proj [OF wf], of E j t "unat len" w1] assms(4) f p by (simp add: seq_fill_send_def)
  moreover have "carries ji ri (proj i s) A x = carries ji ri (proj i ?s) A x" for i A x
    by (rule carries_same(2)) simp_all
  ultimately show ?thesis by (simp add: seq_carries_def)
qed

lemma seq_carries_drive:
  assumes "own_quic E Q" and "seq_wf s" and "k < length (sw_conns s)" and "seq_drive E k (s, w) = (r, s', w')"
  shows "seq_carries ji ri s (\<lambda>_. {#}) s'"
proof -
  obtain r1 p w1 where p: "par_drive E (proj k s, w) = (r1, p, w1)" by (metis prod.exhaust)
  have "pw_trigger p = sw_trigger s" using par_drive_trigger [of E "proj k s" w] p by simp
  from seq_carries_put [OF assms(2,3) held_drive [OF assms(1) p] this] show ?thesis
    using seq_drive_put [OF of_provider_proj [OF assms(2,3)], of E w] assms(4) p by simp
qed

lemma seq_carries_reap:
  assumes "rtrb_ring (result_ring E) ri rcap" and "own_quic E Q" and "seq_wf s" and "k < length (sw_conns s)"
    and "seq_reap E k (provider_of_index k) (s, w) = (r, s', w')"
  shows "seq_carries ji ri s (\<lambda>_. {#}) s'"
proof -
  obtain r1 p w1 where p: "par_reap E (provider_of_index k) (proj k s, w) = (r1, p, w1)" by (metis prod.exhaust)
  have t: "pw_trigger p = sw_trigger s" using par_reap_trigger [of E "provider_of_index k" "proj k s" w] p by simp
  have "carries ji ri (proj k s) {#} p" by (rule held_reap [OF assms(1,2)]) (use p in simp)
  from seq_carries_put [OF assms(3,4) this t] show ?thesis
    using seq_reap_put [OF of_provider_proj [OF assms(3,4)], of E "provider_of_index k" w] assms(5) p by simp
qed

lemma seq_carries_service:
  assumes "rtrb_ring (result_ring E) ri rcap" and "own_quic E Q" and "seq_wf s" and "k < length (sw_conns s)"
    and "seq_service E k (s, w) = (Ok (), s', w')"
  shows "seq_carries ji ri s (\<lambda>_. {#}) s'"
proof -
  from assms(5) obtain s1 w1 where 1: "seq_drive E k (s, w) = (Ok (), s1, w1)"
    and 2: "seq_reap E k (provider_of_index k) (s1, w1) = (Ok (), s', w')"
    by (auto simp: seq_service_def bind_st_Ok)
  have c: "seq_carries ji ri s (\<lambda>_. {#}) s1" by (rule seq_carries_drive [OF assms(2-4) 1])
  then have "seq_wf s1" "k < length (sw_conns s1)" using assms(4) by (simp_all add: seq_carries_def)
  from seq_carries_trans [OF c seq_carries_reap [OF assms(1,2) this 2]] show ?thesis by simp
qed

text \<open>A delivered connection is new, whichever provider it is for.\<close>

lemma seq_carries_standby:
  assumes "fresh_deliveries E" and "seq_wf s" and "take_standby E k (s, w) = (Ok (), s', w')"
  shows "seq_carries ji ri s (\<lambda>_. {#}) s'"
proof (cases "k < length (sw_reconnect_resp_rx s)")
  case True
  obtain po w1 where rv: "resp_try_recv (xchan E) (sw_reconnect_resp_rx s ! k) w = (po, w1)" by force
  show ?thesis
  proof (cases po)
    case None
    with assms(2,3) rv True show ?thesis by (simp add: take_standby_def seq_carries_refl)
  next
    case (Some resp)
    show ?thesis
    proof (cases "rp_conn resp")
      case Other_Box
      with assms(2,3) rv True Some show ?thesis by (simp add: take_standby_def seq_carries_refl)
    next
      case (Conn_Box c)
      let ?m = "rp_provider_idx resp"
      have fresh: "conn_ids c = {#}"
        using assms(1) rv Some Conn_Box unfolding fresh_deliveries_def fresh_box_def by blast
      have s': "s' = s\<lparr>sw_conns := (sw_conns s)[?m := replace_standby c (sw_conns s ! ?m)]\<rparr>" "?m < length (sw_conns s)"
        using assms(3) rv True Some Conn_Box by (simp_all add: take_standby_def index_def split: if_splits)
      have "carries ji ri (proj i s) {#} (proj i s')" for i
        using s' fresh by (cases "i = ?m") (simp_all add: carries_def held_def tagged_def replace_standby_def)
      with s' assms(2) show ?thesis by (simp add: seq_carries_def seq_wf_def)
    qed
  qed
qed (use assms(3) in \<open>simp add: take_standby_def index_def\<close>)

section \<open>Loops and iterations\<close>

text \<open>A loop over distinct indices whose step at \<open>k\<close> gives \<open>k\<close> the ids \<open>A\<close>.\<close>

lemma seq_carries_each:
  assumes "\<And>k s w s' w'. k \<in> set ks \<Longrightarrow> seq_wf s \<Longrightarrow> length (sw_conns s) = n \<Longrightarrow> f k (s, w) = (Ok (), s', w')
      \<Longrightarrow> seq_carries ji ri s (\<lambda>i. if i = k then A else {#}) s'"
    and "distinct ks" and "seq_wf s" and "length (sw_conns s) = n" and "for_each ks f (s, w) = (Ok (), s', w')"
  shows "seq_carries ji ri s (\<lambda>i. if i \<in> set ks then A else {#}) s'"
  using assms
proof (induction ks arbitrary: s w)
  case Nil
  then show ?case by (simp add: seq_carries_refl)
next
  case (Cons k ks)
  from Cons.prems(5) obtain s1 w1 where 1: "f k (s, w) = (Ok (), s1, w1)" and 2: "for_each ks f (s1, w1) = (Ok (), s', w')"
    by (auto simp: bind_st_Ok)
  have c: "seq_carries ji ri s (\<lambda>i. if i = k then A else {#}) s1" by (rule Cons.prems(1) [OF _ Cons.prems(3,4) 1]) simp
  have "seq_carries ji ri s1 (\<lambda>i. if i \<in> set ks then A else {#}) s'"
  proof (rule Cons.IH [OF _ _ _ _ 2])
    show "seq_wf s1" "length (sw_conns s1) = n" using c Cons.prems(4) by (simp_all add: seq_carries_def)
  qed (use Cons.prems(1,2) in auto)
  from seq_carries_trans [OF c this]
  have "seq_carries ji ri s (\<lambda>i. (if i = k then A else {#}) + (if i \<in> set ks then A else {#})) s'" .
  moreover have "(\<lambda>i. (if i = k then A else {#}) + (if i \<in> set ks then A else {#})) = (\<lambda>i. if i \<in> set (k # ks) then A else {#})"
    using Cons.prems(2) by auto
  ultimately show ?case by (simp only:)
qed

text \<open>The same for steps that give nobody anything.\<close>

lemma seq_carries_none:
  assumes "\<And>k s w s' w'. k < m \<Longrightarrow> seq_wf s \<Longrightarrow> length (sw_conns s) = n \<Longrightarrow> f k (s, w) = (Ok (), s', w')
      \<Longrightarrow> seq_carries ji ri s (\<lambda>_. {#}) s'"
    and "seq_wf s" and "length (sw_conns s) = n" and "for_each [0..<m] f (s, w) = (Ok (), s', w')"
  shows "seq_carries ji ri s (\<lambda>_. {#}) s'"
  using seq_carries_each [of "[0..<m]" n f ji ri "{#}" s w s' w'] assms by simp

lemma seq_carries_take_job:
  assumes "rtrb_ring (job_ring E) ji jcap" and "own_quic E Q" and "seq_wf s" and "seq_take_job E (s, w) = (Ok (), s', w')"
  shows "seq_carries ji ri s (\<lambda>_. {#}) s'"
proof -
  obtain jo t where pop: "try_pop (job_ring E) (sw_trigger s) = (jo, t)" by force
  let ?s = "s\<lparr>sw_trigger := t\<rparr>"
  have wf: "seq_wf ?s" using assms(3) by (simp add: seq_wf_def)
  show ?thesis
  proof (cases "ji (inner (sw_trigger s))")
    case Nil
    with rtrb_ring.try_pop_none [OF assms(1)] pop have t: "jo = None" "ji (inner t) = []" by fastforce+
    with assms(4) pop have "s' = ?s" by (simp add: seq_take_job_def)
    with t Nil wf show ?thesis by (simp add: seq_carries_def carries_def held_def tagged_def)
  next
    case (Cons j js)
    with rtrb_ring.try_pop_some [OF assms(1)] pop have t: "jo = Some j" "ji (inner t) = js" by fastforce+
    obtain t1 w1 where t1: "rdtsc (hw E) w = (t1, w1)" by force
    let ?n = "length (sw_conns s)"
    have "bind_st (for_each [0..<?n] (seq_fill_send E j t1) (?s, w1))
        (\<lambda>_ (s, w). for_each [0..<length (sw_conns s)] (seq_drive E) (s, w)) = (Ok (), s', w')"
      using assms(4) by (simp add: seq_take_job_def pop t t1)
    then obtain s1 w2 where
      1: "for_each [0..<?n] (seq_fill_send E j t1) (?s, w1) = (Ok (), s1, w2)"
      and 2: "for_each [0..<length (sw_conns s1)] (seq_drive E) (s1, w2) = (Ok (), s', w')"
      by (rule bind_st_pairE) auto
    have c1: "seq_carries ji ri ?s (\<lambda>i. if i \<in> set [0..<?n] then {#job_id j#} else {#}) s1"
    proof (rule seq_carries_each [where n = ?n, OF _ _ wf _ 1])
      show "seq_carries ji ri a (\<lambda>i. if i = k then {#job_id j#} else {#}) a'"
        if "k \<in> set [0..<?n]" "seq_wf a" "length (sw_conns a) = ?n" "seq_fill_send E j t1 k (a, v) = (Ok (), a', v')" for k a v a' v'
        by (rule seq_carries_fill_send [OF assms(2) that(2) _ that(4)]) (use that in simp)
    qed simp_all
    then have wf1: "seq_wf s1" by (simp add: seq_carries_def)
    have "seq_carries ji ri s1 (\<lambda>_. {#}) s'"
    proof (rule seq_carries_none [OF _ wf1 refl 2])
      show "seq_carries ji ri a (\<lambda>_. {#}) a'"
        if "k < length (sw_conns s1)" "seq_wf a" "length (sw_conns a) = length (sw_conns s1)" "seq_drive E k (a, v) = (Ok (), a', v')" for k a v a' v'
        by (rule seq_carries_drive [OF assms(2) that(2) _ that(4)]) (use that in simp)
    qed
    with c1 have c: "seq_carries ji ri ?s (\<lambda>i. (if i \<in> set [0..<?n] then {#job_id j#} else {#}) + {#}) s'"
      by (rule seq_carries_trans)
    have "carries ji ri (proj i s) {#} (proj i s')" if "i < ?n" for i
    proof (rule carries_spend)
      show "carries ji ri (proj i ?s) {#job_id j#} (proj i s')" using c that by (simp add: seq_carries_def)
      show "{#job_id j#} + held ji ri (proj i ?s) \<subseteq># held ji ri (proj i s)" by (simp add: held_def Cons t)
    qed simp_all
    with c show ?thesis by (simp add: seq_carries_def)
  qed
qed

lemma seq_carries_maintain:
  assumes "fresh_deliveries E" and "seq_wf s" and "seq_maintain E (s, w) = (Ok (), s', w')"
  shows "seq_carries ji ri s (\<lambda>_. {#}) s'"
proof -
  from assms(3) obtain s1 w1 where 1: "check_standby_deliveries E (s, w) = (Ok (), s1, w1)"
    and 2: "seq_publish_diag E (s1, w1) = (Ok (), s', w')"
    by (auto simp: seq_maintain_def bind_st_Ok)
  have c: "seq_carries ji ri s (\<lambda>_. {#}) s1"
    by (rule seq_carries_none [OF _ assms(2) refl 1 [unfolded check_standby_deliveries_def fst_conv]])
       (rule seq_carries_standby [OF assms(1)])
  then have wf: "seq_wf s1" by (simp add: seq_carries_def)
  have "seq_carries ji ri s1 (\<lambda>_. {#}) s'"
    by (rule seq_carries_none [OF _ wf refl 2 [unfolded seq_publish_diag_def fst_conv]])
       (auto simp: bind_st_Ok seq_carries_refl)
  from seq_carries_trans [OF c this] show ?thesis by simp
qed

lemma seq_carries_finish:
  assumes "fresh_deliveries E" and "seq_wf s" and "seq_finish E (s, w) = (Ok (), s', w')"
  shows "seq_carries ji ri s (\<lambda>_. {#}) s'"
proof -
  let ?s = "s\<lparr>sw_tick := sw_tick s + 1\<rparr>"
  have wf: "seq_wf ?s" using assms(2) by (simp add: seq_wf_def)
  have t: "seq_carries ji ri s (\<lambda>_. {#}) ?s" using wf by (simp add: seq_carries_def carries_def held_def tagged_def)
  from assms(3) obtain s1 w1 where
    1: "(if sw_tick ?s AND PERIODIC_MASK = 0 then seq_maintain E (?s, w) else (Ok (), ?s, w)) = (Ok (), s1, w1)"
    and 2: "(if is_empty (job_ring E) (sw_trigger s1) then seq_maintain E (seq_idle E (s1, w1)) else (Ok (), s1, w1)) = (Ok (), s', w')"
    by (auto simp: seq_finish_def Let_def bind_st_Ok)
  have "seq_carries ji ri ?s (\<lambda>_. {#}) s1"
    using 1 seq_carries_maintain [OF assms(1) wf] seq_carries_refl [OF wf] by (auto split: if_splits)
  from seq_carries_trans [OF t this] have c: "seq_carries ji ri s (\<lambda>_. {#}) s1" by simp
  then have wf1: "seq_wf s1" by (simp add: seq_carries_def)
  obtain w2 where "seq_idle E (s1, w1) = (s1, w2)" by (simp add: seq_idle_def)
  with 2 have "seq_carries ji ri s1 (\<lambda>_. {#}) s'"
    using seq_carries_maintain [OF assms(1) wf1] seq_carries_refl [OF wf1] by (auto split: if_splits)
  from seq_carries_trans [OF c this] show ?thesis by simp
qed

lemma seq_carries_iteration:
  assumes "rtrb_ring (job_ring E) ji jcap" and "rtrb_ring (result_ring E) ri rcap" and "own_quic E Q"
    and "fresh_deliveries E" and "seq_wf s" and "seq_iteration E (s, w) = (Ok (), s', w')"
  shows "seq_carries ji ri s (\<lambda>_. {#}) s'"
proof -
  from assms(6) obtain s1 w1 s2 w2 where 1: "seq_take_job E (s, w) = (Ok (), s1, w1)"
    and 2: "for_each [0..<length (sw_conns s1)] (seq_service E) (s1, w1) = (Ok (), s2, w2)"
    and 3: "seq_finish E (s2, w2) = (Ok (), s', w')"
    by (auto simp: seq_iteration_finish bind_st_Ok)
  have c1: "seq_carries ji ri s (\<lambda>_. {#}) s1" by (rule seq_carries_take_job [OF assms(1,3,5) 1])
  then have wf1: "seq_wf s1" by (simp add: seq_carries_def)
  have "seq_carries ji ri s1 (\<lambda>_. {#}) s2"
  proof (rule seq_carries_none [OF _ wf1 refl 2])
    show "seq_carries ji ri a (\<lambda>_. {#}) a'"
      if "k < length (sw_conns s1)" "seq_wf a" "length (sw_conns a) = length (sw_conns s1)" "seq_service E k (a, v) = (Ok (), a', v')" for k a v a' v'
      by (rule seq_carries_service [OF assms(2,3) that(2) _ that(4)]) (use that in simp)
  qed
  from seq_carries_trans [OF c1 this] have c2: "seq_carries ji ri s (\<lambda>_. {#}) s2" by simp
  then have "seq_wf s2" by (simp add: seq_carries_def)
  from seq_carries_trans [OF c2 seq_carries_finish [OF assms(4) this 3]] show ?thesis by simp
qed

section \<open>The system\<close>

record ('h, 'q, 'jq, 'rq, 'w) seq_system =
  ss_worker :: "('h, 'q, 'jq, 'rq) seq_worker"
  ss_world :: 'w
  ss_log :: "provider_outcome list"
  ss_jobs :: "job list"

definition start_seq_system ::
  "('h, 'q, 'jq, 'rq, 'w) worker_env \<Rightarrow> ('h, 'q) conn_state dual_conn list \<Rightarrow> nat list \<Rightarrow> nat list \<Rightarrow> conn_kind
     \<Rightarrow> 'w \<Rightarrow> ('h, 'q, 'jq, 'rq, 'w) seq_system" where
  "start_seq_system E duals rxs cells k w =
     \<lparr>ss_worker = seq_new (channel (job_ring E) TRIGGER_RING) duals (map (\<lambda>_. channel (result_ring E) RESULT_RING) duals) rxs k cells,
      ss_world = w, ss_log = [], ss_jobs = []\<rparr>"

inductive seq_sys_step ::
  "('h, 'q, 'jq, 'rq, 'w) worker_env \<Rightarrow> response_codec list \<Rightarrow> ('h, 'q, 'jq, 'rq, 'w) seq_system
     \<Rightarrow> ('h, 'q, 'jq, 'rq, 'w) seq_system \<Rightarrow> bool" for E codecs where
  user: "trigger (job_ring E) j (Single (sw_trigger (ss_worker x))) = (r, Single p)
    \<Longrightarrow> seq_sys_step E codecs x (x\<lparr>ss_worker := (ss_worker x)\<lparr>sw_trigger := p\<rparr>, ss_jobs := ss_jobs x @ [j]\<rparr>)"
| work: "seq_iteration E (ss_worker x, ss_world x) = (Ok (), s', w')
    \<Longrightarrow> seq_sys_step E codecs x (x\<lparr>ss_worker := s', ss_world := w'\<rparr>)"
| lane: "lane_pass (result_ring E) log_lane codecs 0 False (sw_result_tx (ss_worker x)) (ss_log x) = (Ok got, rings, l)
    \<Longrightarrow> seq_sys_step E codecs x (x\<lparr>ss_worker := (ss_worker x)\<lparr>sw_result_tx := rings\<rparr>, ss_log := l\<rparr>)"
| world: "seq_sys_step E codecs x (x\<lparr>ss_world := w'\<rparr>)"

inductive seq_sys_reach ::
  "('h, 'q, 'jq, 'rq, 'w) worker_env \<Rightarrow> response_codec list \<Rightarrow> ('h, 'q, 'jq, 'rq, 'w) seq_system
     \<Rightarrow> ('h, 'q, 'jq, 'rq, 'w) seq_system \<Rightarrow> bool" for E codecs x where
  start: "seq_sys_reach E codecs x x"
| step: "seq_sys_reach E codecs x y \<Longrightarrow> seq_sys_step E codecs y z \<Longrightarrow> seq_sys_reach E codecs x z"

text \<open>The abstraction to the system of parallel workers.\<close>

definition abs_system :: "('h, 'q, 'jq, 'rq, 'w) seq_system \<Rightarrow> ('h, 'q, 'jq, 'rq, 'w) system" where
  "abs_system x = \<lparr>sy_workers = map (\<lambda>i. proj i (ss_worker x)) [0..<length (sw_conns (ss_worker x))],
     sy_world = ss_world x, sy_log = ss_log x, sy_jobs = ss_jobs x\<rparr>"

definition seq_sys_inv :: "('jq \<Rightarrow> job list) \<Rightarrow> ('rq \<Rightarrow> raw_resp list) \<Rightarrow> nat \<Rightarrow> ('h, 'g quic_conn, 'jq, 'rq, 'w) seq_system \<Rightarrow> bool" where
  "seq_sys_inv ji ri n x \<longleftrightarrow> seq_wf (ss_worker x) \<and> length (sw_conns (ss_worker x)) = n \<and> sys_inv ji ri n (abs_system x)"

text \<open>A step in which every provider gets at most the jobs the user has just triggered.\<close>

lemma seq_sys_inv_carries:
  assumes "seq_sys_inv ji ri n x" and "seq_carries ji ri (ss_worker x) (\<lambda>_. mset (map job_id js)) s'"
  shows "seq_sys_inv ji ri n (x\<lparr>ss_worker := s', ss_world := w', ss_jobs := ss_jobs x @ js\<rparr>)"
proof -
  have n: "length (sw_conns (ss_worker x)) = n" "length (sw_conns s') = n" "seq_wf s'"
    using assms by (simp_all add: seq_sys_inv_def seq_carries_def)
  have "tagged ri (proj i s') \<and> reported i (ss_log x) + held ji ri (proj i s') \<subseteq># mset (map job_id (ss_jobs x @ js))"
    if "i < n" for i
  proof -
    have c: "carries ji ri (proj i (ss_worker x)) (mset (map job_id js)) (proj i s')"
      using assms(2) that n by (simp add: seq_carries_def)
    have i: "tagged ri (proj i (ss_worker x))"
      "reported i (ss_log x) + held ji ri (proj i (ss_worker x)) \<subseteq># mset (map job_id (ss_jobs x))"
      using assms(1) that n by (auto simp: seq_sys_inv_def sys_inv_def abs_system_def)
    have "reported i (ss_log x) + held ji ri (proj i s')
        \<subseteq># mset (map job_id js) + (reported i (ss_log x) + held ji ri (proj i (ss_worker x)))"
      using c by (simp add: carries_def subset_mset.add_left_mono ac_simps)
    also have "\<dots> \<subseteq># mset (map job_id js) + mset (map job_id (ss_jobs x))" using i(2) by (rule subset_mset.add_left_mono)
    finally show ?thesis using c i(1) by (simp add: carries_def ac_simps)
  qed
  with n assms(1) show ?thesis by (auto simp: seq_sys_inv_def sys_inv_def abs_system_def)
qed

lemma seq_sys_inv_lane:
  assumes "rtrb_ring (result_ring E) ri rcap" and "seq_sys_inv ji ri n x" and "n \<le> length codecs" and "n \<le> 2 ^ 16"
    and "lane_pass (result_ring E) log_lane codecs 0 False (sw_result_tx (ss_worker x)) (ss_log x) = (Ok got, rings, l)"
  shows "seq_sys_inv ji ri n (x\<lparr>ss_worker := (ss_worker x)\<lparr>sw_result_tx := rings\<rparr>, ss_log := l\<rparr>)"
proof -
  let ?s = "ss_worker x"
  have n: "length (sw_conns ?s) = n" "length (sw_result_tx ?s) = n" "seq_wf ?s" "sys_inv ji ri n (abs_system x)"
    using assms(2) by (simp_all add: seq_sys_inv_def seq_wf_def)
  have r: "map pw_result_tx (sy_workers (abs_system x)) = sw_result_tx ?s"
    using n by (auto simp: abs_system_def intro!: nth_equalityI)
  have len: "length rings = n"
    using lane_pass_items [OF assms(1), of 0 "sw_result_tx ?s" codecs log_lane False "ss_log x"] assms(3,5) n(2)
    by (auto dest!: arg_cong [where f = length])
  from sys_inv_lane [OF assms(1) n(4) assms(3,4), unfolded r] assms(5)
  have "sys_inv ji ri n ((abs_system x)\<lparr>sy_workers := map2 (\<lambda>s c. s\<lparr>pw_result_tx := c\<rparr>) (sy_workers (abs_system x)) rings, sy_log := l\<rparr>)"
    by (simp add: abs_system_def)
  moreover have "map2 (\<lambda>s c. s\<lparr>pw_result_tx := c\<rparr>) (sy_workers (abs_system x)) rings
      = map (\<lambda>i. proj i (?s\<lparr>sw_result_tx := rings\<rparr>)) [0..<n]"
    using n(1) len by (intro nth_equalityI) (simp_all add: abs_system_def proj_def)
  ultimately show ?thesis using n len by (simp add: seq_sys_inv_def abs_system_def seq_wf_def)
qed

lemma seq_sys_inv_start:
  assumes "rtrb_ring (job_ring E) ji jcap" and "rtrb_ring (result_ring E) ri rcap"
    and "\<And>d. d \<in> set duals \<Longrightarrow> conn_ids (conn (active d)) = {#} \<and> conn_ids (conn (standby d)) = {#}"
    and "length rxs = length duals" and "length cells = length duals"
  shows "seq_sys_inv ji ri (length duals) (start_seq_system E duals rxs cells k w)"
  using assms(3-5) rtrb_ring.new_items [OF assms(1)] rtrb_ring.new_items [OF assms(2)]
  by (auto simp: seq_sys_inv_def sys_inv_def abs_system_def start_seq_system_def seq_new_def seq_wf_def
      held_def tagged_def channel_def reported_def Let_def)

lemma seq_sys_inv_step:
  assumes "rtrb_ring (job_ring E) ji jcap" and "rtrb_ring (result_ring E) ri rcap" and "own_quic E Q" and "fresh_deliveries E"
    and "n \<le> length codecs" and "n \<le> 2 ^ 16" and "seq_sys_step E codecs x y" and "seq_sys_inv ji ri n x"
  shows "seq_sys_inv ji ri n y"
  using assms(7)
proof cases
  case (user j r p)
  let ?s = "ss_worker x"
  obtain r' c where push: "try_push (job_ring E) j (sw_trigger ?s) = (r', c)" "pushed_to ji jcap j (sw_trigger ?s) c"
    using rtrb_ring.try_push_pushed [OF assms(1)] by blast
  with user have "p = c" by (simp add: trigger_def)
  with push(2) have "seq_carries ji ri ?s (\<lambda>_. mset (map job_id [j])) (?s\<lparr>sw_trigger := p\<rparr>)"
    using assms(8) by (auto simp: seq_carries_def carries_def held_def tagged_def pushed_to_def seq_sys_inv_def seq_wf_def)
  from seq_sys_inv_carries [OF assms(8) this, of "ss_world x"] user show ?thesis by simp
next
  case (work s' w')
  have "seq_carries ji ri (ss_worker x) (\<lambda>_. {#}) s'"
    by (rule seq_carries_iteration [OF assms(1-4) _ work(2)]) (use assms(8) in \<open>simp add: seq_sys_inv_def\<close>)
  with seq_sys_inv_carries [OF assms(8), of "[]" s' w'] work show ?thesis by simp
next
  case (lane got rings l)
  then show ?thesis using seq_sys_inv_lane [OF assms(2,8,5,6)] by blast
next
  case (world w')
  have "seq_carries ji ri (ss_worker x) (\<lambda>_. {#}) (ss_worker x)"
    by (rule seq_carries_refl) (use assms(8) in \<open>simp add: seq_sys_inv_def\<close>)
  with seq_sys_inv_carries [OF assms(8), of "[]" "ss_worker x" w'] world show ?thesis by simp
qed

text \<open>
  C7. The sequential transport makes up no outcome either and reports none twice: in every
  reachable state, however the user, the worker and the lane interleave and whatever the peers
  and the reconnect thread do, every outcome the sink has got carries the index of one of the
  providers, and for each provider the reported job ids, counted with multiplicity, are among
  the ids of the triggered jobs, although one worker sends every job to all providers.
\<close>

theorem seq_outcomes_are_jobs:
  assumes "rtrb_ring (job_ring E) ji jcap" and "rtrb_ring (result_ring E) ri rcap" and "own_quic E Q" and "fresh_deliveries E"
    and "\<And>d. d \<in> set duals \<Longrightarrow> conn_ids (conn (active d)) = {#} \<and> conn_ids (conn (standby d)) = {#}"
    and "length rxs = length duals" and "length cells = length duals"
    and "length duals \<le> length codecs" and "length duals \<le> 2 ^ 16"
    and "seq_sys_reach E codecs (start_seq_system E duals rxs cells k w) x"
  shows "(\<forall>oc \<in> set (ss_log x). \<exists>i < length duals. po_provider oc = provider_of_index i)
    \<and> (\<forall>i < length duals. mset (map po_job (filter (\<lambda>oc. po_provider oc = provider_of_index i) (ss_log x)))
         \<subseteq># mset (map job_id (ss_jobs x)))"
proof -
  from assms(10) have "seq_sys_inv ji ri (length duals) x"
  proof induction
    case start
    show ?case by (rule seq_sys_inv_start [OF assms(1,2,5-7)])
  next
    case (step y z)
    with seq_sys_inv_step [OF assms(1-4,8,9)] show ?case by blast
  qed
  then have "sys_inv ji ri (length duals) (abs_system x)" by (simp add: seq_sys_inv_def)
  then have "(\<forall>oc \<in> set (sy_log (abs_system x)). \<exists>i < length duals. po_provider oc = provider_of_index i)
    \<and> (\<forall>i < length duals. reported i (sy_log (abs_system x)) \<subseteq># mset (map job_id (sy_jobs (abs_system x))))"
    unfolding sys_inv_def by (meson mset_subset_eq_add_left subset_mset.order_trans)
  then show ?thesis by (simp add: abs_system_def reported_def)
qed

text \<open>Two providers on scripted connections that answer the first poll.\<close>

definition demo_pair :: "(script, unit quic_conn) conn_state dual_conn list" where
  "demo_pair = demo_duals @ demo_duals"

definition demo_seq :: "job list \<Rightarrow> (script, unit quic_conn, nat \<times> job list, nat \<times> raw_resp list) seq_worker" where
  "demo_seq js = seq_new \<lparr>inner = (256, js), counter = of_nat (length js)\<rparr> demo_pair
     [\<lparr>inner = (256, []), counter = 0\<rparr>, \<lparr>inner = (256, []), counter = 0\<rparr>] [0, 1] RawLibcKind [0, 1]"

lemmas seq_worker_defs = seq_iteration_def seq_take_job_def seq_fill_send_def seq_send_to_def seq_drive_def seq_service_def
  seq_reap_def seq_poll_def seq_push_result_def seq_mark_sent_def seq_set_conn_def seq_maintain_def
  check_standby_deliveries_def take_standby_def seq_publish_diag_def seq_idle_def index_def store_def

lemma demo_seq_start:
  "start_seq_system demo_env demo_pair [0, 1] [0, 1] RawLibcKind ()
     = \<lparr>ss_worker = demo_seq [], ss_world = (), ss_log = [], ss_jobs = []\<rparr>"
  by (simp add: start_seq_system_def demo_seq_def demo_env_def demo_pair_def demo_duals_def channel_def list_ring_def
      notifier_new_def TRIGGER_RING_def RESULT_RING_def)

lemma demo_seq_iteration:
  "\<exists>s'. seq_iteration demo_env (demo_seq [job1], ()) = (Ok (), s', ())
     \<and> sw_result_tx s' = [\<lparr>inner = (256, [settled_resp 1 0 0 0 ''a'']), counter = 1\<rparr>,
                          \<lparr>inner = (256, [settled_resp 1 1 0 0 ''a'']), counter = 1\<rparr>]"
  by (simp add: demo_env_def demo_pair_def demo_duals_def demo_seq_def seq_worker_defs worker_defs script_conn_def seq_new_def dual_new_def
      list_ring_def job1_def provider_of_index_def upt_conv_Cons)

lemma demo_seq_run:
  "\<exists>x. seq_sys_reach demo_env [json_rpc_parse, json_rpc_parse] (start_seq_system demo_env demo_pair [0, 1] [0, 1] RawLibcKind ()) x
     \<and> map po_job (ss_log x) = [1, 1] \<and> map po_provider (ss_log x) = [0, 1] \<and> ss_jobs x = [job1]"
proof -
  let ?cs = "[json_rpc_parse, json_rpc_parse]"
  let ?x0 = "\<lparr>ss_worker = demo_seq [], ss_world = (), ss_log = [], ss_jobs = []\<rparr>"
  let ?x1 = "\<lparr>ss_worker = demo_seq [job1], ss_world = (), ss_log = [], ss_jobs = [job1]\<rparr>"
  have "trigger (job_ring demo_env) job1 (Single (sw_trigger (demo_seq []))) = (Ok (), Single (sw_trigger (demo_seq [job1])))"
    by (simp add: trigger_def demo_seq_def demo_env_def seq_new_def list_ring_def try_push_def notify_def Let_def)
  moreover have "(demo_seq [])\<lparr>sw_trigger := sw_trigger (demo_seq [job1])\<rparr> = demo_seq [job1]"
    by (simp add: demo_seq_def seq_new_def Let_def)
  ultimately have r1: "seq_sys_reach demo_env ?cs ?x0 ?x1"
    using seq_sys_reach.step [OF seq_sys_reach.start seq_sys_step.user [of demo_env job1 ?x0]] by simp
  obtain s' where w: "seq_iteration demo_env (demo_seq [job1], ()) = (Ok (), s', ())"
    and s': "sw_result_tx s' = [\<lparr>inner = (256, [settled_resp 1 0 0 0 ''a'']), counter = 1\<rparr>,
                                \<lparr>inner = (256, [settled_resp 1 1 0 0 ''a'']), counter = 1\<rparr>]"
    using demo_seq_iteration by blast
  let ?x2 = "\<lparr>ss_worker = s', ss_world = (), ss_log = [], ss_jobs = [job1]\<rparr>"
  have r2: "seq_sys_reach demo_env ?cs ?x0 ?x2"
    using seq_sys_reach.step [OF r1 seq_sys_step.work [of demo_env ?x1 s' "()"]] w by simp
  let ?l = "[parse_one (settled_resp 1 0 0 0 ''a'') json_rpc_parse, parse_one (settled_resp 1 1 0 0 ''a'') json_rpc_parse]"
  obtain rings where "lane_pass (result_ring demo_env) log_lane ?cs 0 False (sw_result_tx (ss_worker ?x2)) (ss_log ?x2) = (Ok True, rings, ?l)"
    using lane_pass_items [OF lr.rtrb_ring_axioms, of 0 "sw_result_tx s'" ?cs log_lane False "[]"]
    by (auto simp: s' demo_env_def log_lane_def)
  note r3 = seq_sys_reach.step [OF r2 seq_sys_step.lane [OF this]]
  have l: "map po_job ?l = [1, 1]" "map po_provider ?l = [0, 1]"
    by (simp_all add: parse_one_def settled_resp_def Let_def)
  show ?thesis unfolding demo_seq_start
    by (rule exI, rule conjI, rule r3) (use l in simp)
qed

theorem seq_outcomes_are_jobs_witness:
  "\<exists>x. seq_sys_reach demo_env [json_rpc_parse, json_rpc_parse] (start_seq_system demo_env demo_pair [0, 1] [0, 1] RawLibcKind ()) x
     \<and> map po_job (ss_log x) = [1, 1] \<and> map po_provider (ss_log x) = [0, 1] \<and> ss_jobs x = [job1]
     \<and> (\<forall>oc \<in> set (ss_log x). \<exists>i < length demo_pair. po_provider oc = provider_of_index i)
     \<and> (\<forall>i < length demo_pair. mset (map po_job (filter (\<lambda>oc. po_provider oc = provider_of_index i) (ss_log x)))
          \<subseteq># mset (map job_id (ss_jobs x)))"
proof -
  obtain x where x: "seq_sys_reach demo_env [json_rpc_parse, json_rpc_parse] (start_seq_system demo_env demo_pair [0, 1] [0, 1] RawLibcKind ()) x"
    "map po_job (ss_log x) = [1, 1]" "map po_provider (ss_log x) = [0, 1]" "ss_jobs x = [job1]"
    by (rule exE [OF demo_seq_run]) (elim conjE, rule that)
  have "rtrb_ring (job_ring demo_env) snd fst" "rtrb_ring (result_ring demo_env) snd fst"
    using lr.rtrb_ring_axioms by (simp_all add: demo_env_def)
  moreover have "own_quic demo_env still_quic" "fresh_deliveries demo_env"
    by (simp_all add: own_quic_def fresh_deliveries_def demo_env_def)
  ultimately show ?thesis
    using seq_outcomes_are_jobs [OF _ _ _ _ _ _ _ _ _ x(1), of snd fst snd fst still_quic] x
    by (auto simp: demo_pair_def demo_duals_def dual_new_def)
qed

end
