(* ===== verification/System_Answer.thy ===== *)
theory System_Answer
  imports System_Jobs Worker_Refine
begin

unbundle bit_operations_syntax

text \<open>
  The way of one job through the parallel transport: from the trigger over the ring, the worker,
  an HTTP connection whose peer answers after some polls, and the result ring to the sink.
  Between two iterations of the worker the world may change in any way.
\<close>

section \<open>A peer that answers\<close>

text \<open>
  \<open>answers C n body h\<close>: in every world, the first \<open>n\<close> rounds of driving and polling find nothing
  and the next one the response.
\<close>

fun answers :: "('h, 'q, 'w) conn_ops \<Rightarrow> nat \<Rightarrow> bytes \<Rightarrow> 'h \<Rightarrow> bool" where
  "answers C 0 body h \<longleftrightarrow> (\<forall>w. \<exists>h1 w1 h2 w2. h_drive C h w = (Ok (), h1, w1)
     \<and> h_poll_response C h1 w1 = (Ok (Some body), h2, w2))"
| "answers C (Suc n) body h \<longleftrightarrow> (\<forall>w. \<exists>h1 w1 h2 w2. h_drive C h w = (Ok (), h1, w1)
     \<and> h_poll_response C h1 w1 = (Ok None, h2, w2) \<and> answers C n body h2)"

text \<open>Iterations of a worker, each in a world of its own.\<close>

fun par_in ::
  "('h, 'q, 'jq, 'rq, 'w) worker_env \<Rightarrow> 'w list \<Rightarrow> ('h, 'q, 'jq, 'rq) par_worker
     \<Rightarrow> (unit, unit) res \<times> ('h, 'q, 'jq, 'rq) par_worker" where
  "par_in E [] s = (Ok (), s)"
| "par_in E (w # ws) s = (case par_iteration E (s, w) of (r, s', _) \<Rightarrow> bind_st (r, s') (\<lambda>_ s. par_in E ws s))"

section \<open>The worker while it waits\<close>

definition waiting ::
  "('h, 'q, 'jq, 'rq, 'w) worker_env \<Rightarrow> ('jq \<Rightarrow> job list) \<Rightarrow> job \<Rightarrow> 64 word \<Rightarrow> nat \<Rightarrow> bytes \<Rightarrow> nat \<Rightarrow> 'rq spsc
     \<Rightarrow> ('h, 'q, 'jq, 'rq) par_worker \<Rightarrow> bool" where
  "waiting E ji j sent n body i ring s \<longleftrightarrow> ji (inner (pw_trigger s)) = [] \<and> pw_inflight s = Some (j, sent)
     \<and> (\<exists>h. active_conn s = Http_Conn h \<and> answers (cops E) n body h) \<and> pw_provider_idx s = i \<and> pw_result_tx s = ring"

text \<open>What follows the poll touches neither the active connection nor the rings nor the job.\<close>

lemma par_maintain_keeps:
  assumes "par_maintain E (s, w) = (s', w')"
  shows "active_conn s' = active_conn s \<and> pw_inflight s' = pw_inflight s \<and> pw_trigger s' = pw_trigger s
    \<and> pw_result_tx s' = pw_result_tx s \<and> pw_provider_idx s' = pw_provider_idx s"
proof -
  obtain po w1 where "resp_try_recv (xchan E) (pw_reconnect_resp_rx s) w = (po, w1)" by force
  with assms show ?thesis
    by (cases po; cases "rp_conn (the po)")
       (auto simp: par_maintain_def check_standby_delivery_def par_publish_diag_def active_conn_def replace_standby_def)
qed

lemma par_finish_keeps:
  assumes "par_finish E (s, w) = (s', w')"
  shows "active_conn s' = active_conn s \<and> pw_inflight s' = pw_inflight s \<and> pw_trigger s' = pw_trigger s
    \<and> pw_result_tx s' = pw_result_tx s \<and> pw_provider_idx s' = pw_provider_idx s"
proof -
  let ?s = "s\<lparr>pw_tick := pw_tick s + 1\<rparr>"
  obtain s1 w1 where 1: "(if pw_tick ?s AND PERIODIC_MASK = 0 then par_maintain E (?s, w) else (?s, w)) = (s1, w1)" by force
  then have k: "active_conn s1 = active_conn s \<and> pw_inflight s1 = pw_inflight s \<and> pw_trigger s1 = pw_trigger s
      \<and> pw_result_tx s1 = pw_result_tx s \<and> pw_provider_idx s1 = pw_provider_idx s"
    using par_maintain_keeps [of E ?s w s1 w1] by (auto simp: active_conn_def split: if_splits)
  obtain w2 where idle: "par_idle E (s1, w1) = (s1, w2)" by (simp add: par_idle_def)
  have "(s', w') = (if is_empty (job_ring E) (pw_trigger s1) then par_maintain E (s1, w2) else (s1, w1))"
    using assms by (simp only: par_finish_def Let_def prod.case 1 fst_conv idle)
  with k par_maintain_keeps [of E s1 w2 s' w'] show ?thesis by (auto split: if_splits)
qed

lemma par_iteration_finish:
  "par_iteration E (s, w) = bind_st (par_take_job E (provider_of_index (pw_provider_idx s)) (s, w)) (\<lambda>_ x.
     bind_st (par_drive E x) (\<lambda>_ x. bind_st (par_reap E (provider_of_index (pw_provider_idx s)) x) (\<lambda>_ x. (Ok (), par_finish E x))))"
  by (simp add: par_iteration_def par_finish_def Let_def case_prod_unfold)

text \<open>One round of driving, polling and maintenance, from a worker that has taken its job.\<close>

lemma round_none:
  assumes "waiting E ji j sent (Suc n) body i ring s"
  shows "\<exists>s' w'. bind_st (par_drive E (s, w)) (\<lambda>_ x. bind_st (par_reap E pid x) (\<lambda>_ x. (Ok (), par_finish E x))) = (Ok (), s', w')
    \<and> waiting E ji j sent n body i ring s'"
proof -
  from assms obtain h where h: "active_conn s = Http_Conn h" "answers (cops E) (Suc n) body h" by (auto simp: waiting_def)
  obtain h1 w1 h2 w2 where d: "h_drive (cops E) h w = (Ok (), h1, w1)" "h_poll_response (cops E) h1 w1 = (Ok None, h2, w2)"
    and a: "answers (cops E) n body h2" using h(2) by (auto dest!: spec [of _ w])
  let ?s = "set_active_conn (Http_Conn h2) (set_active_conn (Http_Conn h1) s)"
  obtain s' w' where f: "par_finish E (?s, w2) = (s', w')" by force
  have "bind_st (par_drive E (s, w)) (\<lambda>_ x. bind_st (par_reap E pid x) (\<lambda>_ x. (Ok (), par_finish E x))) = (Ok (), s', w')"
    using h(1) d f by (simp add: par_drive_def conn_drive_def par_reap_def par_poll_def Let_def)
  with par_finish_keeps [OF f] a assms show ?thesis by (auto simp: waiting_def)
qed

lemma round_answer:
  assumes "waiting E ji j sent 0 body i ring s" and "rtrb_ring (result_ring E) ri rcap"
    and "length (ri (inner ring)) < rcap (inner ring)"
  shows "\<exists>s' w' now. bind_st (par_drive E (s, w)) (\<lambda>_ x. bind_st (par_reap E pid x) (\<lambda>_ x. (Ok (), par_finish E x))) = (Ok (), s', w')
    \<and> ri (inner (pw_result_tx s')) = ri (inner ring) @ [settled_resp (job_id j) pid sent now body] \<and> pw_inflight s' = None"
proof -
  from assms(1) obtain h where h: "active_conn s = Http_Conn h" "answers (cops E) 0 body h" by (auto simp: waiting_def)
  have p: "pw_inflight s = Some (j, sent)" "pw_result_tx s = ring" using assms(1) by (simp_all add: waiting_def)
  obtain h1 w1 h2 w2 where d: "h_drive (cops E) h w = (Ok (), h1, w1)" "h_poll_response (cops E) h1 w1 = (Ok (Some body), h2, w2)"
    using h(2) by (auto dest!: spec [of _ w])
  obtain now w3 where t: "rdtsc (hw E) w2 = (now, w3)" by force
  let ?r = "settled_resp (job_id j) pid sent now body"
  let ?s = "par_push_result E ?r (set_active_conn (Http_Conn h2) (set_active_conn (Http_Conn h1) s)\<lparr>pw_inflight := None\<rparr>)"
  obtain s' w' where f: "par_finish E (?s, w3) = (s', w')" by force
  have "bind_st (par_drive E (s, w)) (\<lambda>_ x. bind_st (par_reap E pid x) (\<lambda>_ x. (Ok (), par_finish E x))) = (Ok (), s', w')"
    using h(1) d t f p by (simp add: par_drive_def conn_drive_def par_reap_def par_poll_def Let_def)
  moreover obtain c where "try_push (result_ring E) ?r ring = (Ok (), c)" "ri (inner c) = ri (inner ring) @ [?r]"
    using rtrb_ring.try_push_room [OF assms(2,3), of ?r] by auto
  ultimately show ?thesis using par_finish_keeps [OF f] p by (auto simp: par_push_result_def)
qed

lemma waiting_take_job:
  assumes "rtrb_ring (job_ring E) ji jcap" and "waiting E ji j sent n body i ring s"
  shows "\<exists>s'. par_take_job E pid (s, w) = (Ok (), s', w) \<and> waiting E ji j sent n body i ring s'"
proof -
  obtain t where "try_pop (job_ring E) (pw_trigger s) = (None, t)" "ji (inner t) = []"
    using rtrb_ring.try_pop_none [OF assms(1)] assms(2) by (fastforce simp: waiting_def)
  with assms(2) show ?thesis by (auto simp: par_take_job_def waiting_def active_conn_def)
qed

text \<open>The job is taken and sent; the rest of the iteration is a round.\<close>

lemma take_and_send:
  assumes "rtrb_ring (job_ring E) ji jcap" and "ji (inner (pw_trigger s)) = [j]" and "active_conn s = Http_Conn h"
    and "\<And>w. \<exists>w'. fill E pid j (pw_scratch s) w = (len, sc, w')" and "unat len \<le> length sc"
    and "\<And>w. \<exists>h' w'. h_send_tx (cops E) (take (unat len) sc) h w = (Ok (), h', w') \<and> answers (cops E) n body h'"
  shows "\<exists>s' w' sent. par_take_job E pid (s, w) = (Ok (), s', w')
    \<and> waiting E ji j sent n body (pw_provider_idx s) (pw_result_tx s) s'"
proof -
  obtain t where t: "try_pop (job_ring E) (pw_trigger s) = (Some j, t)" "ji (inner t) = []"
    using rtrb_ring.try_pop_some [OF assms(1,2)] by blast
  obtain sent w1 where c: "rdtsc (hw E) w = (sent, w1)" by force
  obtain w2 where f: "fill E pid j (pw_scratch s) w1 = (len, sc, w2)" using assms(4) by blast
  obtain h' w3 where h: "h_send_tx (cops E) (take (unat len) sc) h w2 = (Ok (), h', w3)" "answers (cops E) n body h'"
    using assms(6) by blast
  let ?s = "par_mark_sent j sent (set_active_conn (Http_Conn h') (s\<lparr>pw_trigger := t, pw_scratch := sc\<rparr>))"
  have "par_take_job E pid (s, w) = (Ok (), ?s, w3)"
    using t(1) c f h(1) assms(3,5) by (simp add: par_take_job_def par_send_to_def slice_of_def active_conn_def Let_def)
  moreover have "waiting E ji j sent n body (pw_provider_idx s) (pw_result_tx s) ?s"
    using t(2) h(2) by (simp add: waiting_def par_mark_sent_def active_conn_def set_active_conn_def)
  ultimately show ?thesis by blast
qed

lemma waiting_answered:
  assumes "rtrb_ring (job_ring E) ji jcap" and "rtrb_ring (result_ring E) ri rcap"
    and "length (ri (inner ring)) < rcap (inner ring)" and "length ws = n"
    and "waiting E ji j sent n body i ring s1" and "par_take_job E (provider_of_index i) (s, w) = (Ok (), s1, w1)"
    and "pw_provider_idx s = i"
  shows "\<exists>s' now. par_in E (w # ws) s = (Ok (), s') \<and> pw_inflight s' = None
    \<and> ri (inner (pw_result_tx s')) = ri (inner ring) @ [settled_resp (job_id j) (provider_of_index i) sent now body]"
  using assms(4-7)
proof (induction ws arbitrary: n s s1 w w1)
  case Nil
  then show ?case
    using round_answer [OF _ assms(2,3), of ji j sent body i s1 w1 "provider_of_index i"] Nil.prems
    by (auto simp: par_iteration_finish)
next
  case (Cons v ws)
  then obtain m where n: "n = Suc m" "length ws = m" by (cases n) auto
  obtain s2 w2 where 2: "par_iteration E (s, w) = (Ok (), s2, w2)" "waiting E ji j sent m body i ring s2"
    using round_none [of E ji j sent m body i ring s1 w1 "provider_of_index i"] Cons.prems n
    by (auto simp: par_iteration_finish)
  obtain s3 where 3: "par_take_job E (provider_of_index i) (s2, v) = (Ok (), s3, v)" "waiting E ji j sent m body i ring s3"
    using waiting_take_job [OF assms(1) 2(2)] by blast
  have "pw_provider_idx s2 = i" using 2(2) by (simp add: waiting_def)
  from Cons.IH [OF n(2) 3(2,1) this] 2(1) show ?case by simp
qed

text \<open>The outcome a pass of the lane makes of a response on ring \<open>i\<close>.\<close>

lemma pass_outcomes_mem:
  assumes "i < length rings" and "r \<in> set (ri (inner (rings ! i)))"
  shows "parse_one r (codecs ! (k + i)) \<in> set (pass_outcomes ri codecs k rings)"
  using assms
proof (induction rings arbitrary: i k)
  case (Cons c rings)
  then show ?case using Cons.IH [of "i - 1" "Suc k"] by (cases i) auto
qed simp

lemma lane_reports:
  assumes "rtrb_ring R ri rcap" and "length rings \<le> length codecs" and "i < length rings"
    and "r \<in> set (ri (inner (rings ! i)))"
  shows "\<exists>rings' l1 l2. lane_pass R log_lane codecs 0 False rings l = (Ok True, rings', l @ l1 @ parse_one r (codecs ! i) # l2)"
proof -
  have log: "fold (on_result log_lane) os l = l @ os" for os l
    by (induction os arbitrary: l) (simp_all add: log_lane_def)
  have "ri (inner (rings ! i)) \<noteq> []" using assms(4) by (cases "ri (inner (rings ! i))") auto
  with nth_mem [OF assms(3)] have "list_ex (\<lambda>c. ri (inner c) \<noteq> []) rings" unfolding list_ex_iff by (rule bexI [rotated])
  then have ne: "(False \<or> list_ex (\<lambda>c. ri (inner c) \<noteq> []) rings) = True" by simp
  obtain l1 l2 where p: "pass_outcomes ri codecs 0 rings = l1 @ parse_one r (codecs ! i) # l2"
    using pass_outcomes_mem [of i rings r ri codecs 0] assms(3,4) by (auto dest!: split_list)
  from lane_pass_items [OF assms(1), of 0 rings codecs log_lane False l] assms(2)
  show ?thesis unfolding ne p log by auto
qed

section \<open>Property\<close>



end
