(* ===== verification/System_Wire.thy ===== *)
theory System_Wire
  imports Connect
begin

text \<open>
  A job's way out: envelope, TLS session, connection and socket together. What the peer can read
  after a send is the TLS session's encryption of the request frame of the transaction.
\<close>

section \<open>The output of a TLS session\<close>

text \<open>
  \<open>tls_seals T seal outq\<close>: \<open>outq\<close> is the output the session has ready. Writing plaintext \<open>f\<close> adds its
  encryption \<open>seal t f\<close>; the session wants to write exactly while there is output, and every
  write takes a non-empty piece from its front.
\<close>

definition tls_seals :: "'t tls_ops \<Rightarrow> ('t \<Rightarrow> bytes \<Rightarrow> bytes) \<Rightarrow> ('t \<Rightarrow> bytes) \<Rightarrow> bool" where
  "tls_seals T seal outq \<longleftrightarrow>
     (\<forall>t f. \<exists>t'. tls_write_all T f t = (Ok (), t') \<and> outq t' = outq t @ seal t f) \<and>
     (\<forall>t. tls_wants_write T t \<longleftrightarrow> outq t \<noteq> []) \<and>
     (\<forall>t. outq t \<noteq> [] \<longrightarrow> (\<exists>n t'. 0 < n \<and> tls_write_tls T t = (Ok (take n (outq t)), t') \<and> outq t' = drop n (outq t)))"

lemma encode_write_loop_seals:
  assumes "tls_seals T seal outq"
  shows "\<exists>t'. encode_write_loop T t acc = Some (Ok (), acc @ outq t, t') \<and> outq t' = []"
proof (induction "length (outq t)" arbitrary: t acc rule: less_induct)
  case less
  show ?case
  proof (cases "outq t = []")
    case True
    with assms show ?thesis by (simp add: encode_write_loop.simps [of T t] tls_seals_def)
  next
    case False
    with assms obtain n t' where t': "0 < n" "tls_write_tls T t = (Ok (take n (outq t)), t')" "outq t' = drop n (outq t)"
      "tls_wants_write T t" by (auto simp: tls_seals_def)
    with False have "length (outq t') < length (outq t)" by simp
    from less [OF this, of "acc @ take n (outq t)"] t' show ?thesis
      by (simp add: encode_write_loop.simps [of T t])
  qed
qed

lemma engine_encode_seals:
  assumes "tls_seals T seal outq" and "outq (tls e) = []"
    and "envelope_splice enc txn (envelope e) = (Ok frame, env)"
  shows "\<exists>t. engine_encode T enc txn e = (Ok (seal (tls e) frame), e\<lparr>envelope := env, tls := t, ciphertext := seal (tls e) frame\<rparr>)
    \<and> outq t = []"
proof -
  obtain t where t: "tls_write_all T frame (tls e) = (Ok (), t)" "outq t = seal (tls e) frame"
    using assms(1,2) unfolding tls_seals_def by (metis append_Nil)
  obtain t' where "encode_write_loop T t [] = Some (Ok (), seal (tls e) frame, t')" "outq t' = []"
    using encode_write_loop_seals [OF assms(1), of t "[]"] t(2) by auto
  with assms(3) t show ?thesis by (intro exI [of _ t']) (simp add: engine_encode_def Let_def)
qed

lemma splice_all_snoc: "splice_all enc (hs @ [txn]) t = snd (envelope_splice enc txn (splice_all enc hs t))"
  by (induction hs arbitrary: t) simp_all

lemma splice_history:
  assumes "base64_standard enc dec" and "benign b" and "small_request b" and "(length txn + 2) div 3 * 4 \<le> max_body b"
    and "compile (build b) = Ok t"
  shows "envelope_splice enc txn (splice_all enc hs t) = (Ok (request_frame b (enc txn)), splice_all enc (hs @ [txn]) t)"
proof -
  have "fst (envelope_splice enc txn (splice_all enc hs t)) = Ok (request_frame b (enc txn))"
    using splice_benign [where enc = enc and tx = txn, OF base64_standard.enc_length [OF assms(1)] assms(2-5)]
      splice_all_state [of enc hs t] splice_out_irrelevant by (metis fst_conv)
  then show ?thesis by (simp add: splice_all_snoc prod_eq_iff)
qed

section \<open>Properties\<close>

text \<open>
  C2. What the peer gets for a job is exactly its request: sending a transaction over an HTTP
  connection on a plain socket returns; on success the peer can read, after everything sent
  before, the encryption of the provider's request frame for this transaction, whatever was
  sent earlier; on an I/O error it can read a prefix of that. Either way the connection is fit
  for the next send.
\<close>

theorem send_tx_reaches_peer:
  assumes "base64_standard enc dec" and "benign b" and "small_request b" and "(length txn + 2) div 3 * 4 \<le> max_body b"
    and "compile (build b) = Ok tpl" and "envelope (hc_engine c) = splice_all enc history tpl"
    and "tls_seals T seal outq" and "outq (tls (hc_engine c)) = []"
    and "stream_socket L out_bytes" and "unblocks L m"
  shows "\<exists>r c' w' k. http_send_tx (raw_libc L) T enc txn c w = (r, c', w')
    \<and> (r = Ok () \<or> (\<exists>e. r = Err (Io e)))
    \<and> out_bytes (hc_raw c) w' = out_bytes (hc_raw c) w @ take k (seal (tls (hc_engine c)) (request_frame b (enc txn)))
    \<and> (r = Ok () \<longrightarrow> k = length (seal (tls (hc_engine c)) (request_frame b (enc txn))))
    \<and> outq (tls (hc_engine c')) = [] \<and> envelope (hc_engine c') = splice_all enc (history @ [txn]) tpl"
proof -
  let ?f = "request_frame b (enc txn)" and ?e = "hc_engine c"
  let ?s = "seal (tls ?e) ?f"
  obtain env where env: "envelope_splice enc txn (envelope ?e) = (Ok ?f, env)" "env = splice_all enc (history @ [txn]) tpl"
    using splice_history [OF assms(1-5), of history] unfolding assms(6) by blast
  obtain t where t: "engine_encode T enc txn ?e = (Ok ?s, ?e\<lparr>envelope := env, tls := t, ciphertext := ?s\<rparr>)" "outq t = []"
    using engine_encode_seals [OF assms(7,8) env(1)] by blast
  obtain r k w' where s: "raw_send_loop L (hc_raw c) ?s 0 w = Some (r, w')" "r \<noteq> Hang" "r \<noteq> Panic"
    "out_bytes (hc_raw c) w' = out_bytes (hc_raw c) w @ take k ?s" "r = Ok () \<longrightarrow> k = length ?s"
    using raw_send_loop_bytes [OF assms(9,10), of 0 ?s "hc_raw c" w] by auto
  have "map_err Io r = Ok () \<or> (\<exists>e. map_err Io r = Err (Io e))" using s(2,3) by (cases r) simp_all
  with s t env show ?thesis
    by (intro exI [of _ "map_err Io r"] exI [of _ "c\<lparr>hc_engine := ?e\<lparr>envelope := env, tls := t, ciphertext := ?s\<rparr>\<rparr>"]
          exI [of _ w'] exI [of _ k])
       (simp add: http_send_tx_def raw_libc_def raw_submit_def)
qed

text \<open>A session whose encryption is the identity and that gives out at most five bytes at a time.\<close>

definition plain_tls :: "bytes tls_ops" where
  "plain_tls = null_tls\<lparr>tls_wants_write := (\<lambda>t. t \<noteq> []), tls_write_tls := (\<lambda>t. (Ok (take 5 t), drop 5 t)),
     tls_write_all := (\<lambda>f t. (Ok (), t @ f))\<rparr>"

lemma plain_tls_seals: "tls_seals plain_tls (\<lambda>_ f. f) (\<lambda>t. t)"
  by (auto simp: tls_seals_def plain_tls_def intro: exI [of _ 5])

theorem send_tx_reaches_peer_witness:
  "\<exists>tpl r c' w' k. compile (build (send_transaction ''/'' ''h'' 16)) = Ok tpl
    \<and> http_send_tx (raw_libc slow_os) plain_tls rfc4648_encode ''abc''
        \<lparr>hc_io = (), hc_raw = 3, hc_engine = \<lparr>tls = [], envelope = tpl, rx_plain = [], ciphertext = []\<rparr>\<rparr> (2, ''>'') = (r, c', w')
    \<and> (r = Ok () \<or> (\<exists>e. r = Err (Io e)))
    \<and> snd w' = ''>'' @ take k (request_frame (send_transaction ''/'' ''h'' 16) (rfc4648_encode ''abc''))
    \<and> (r = Ok () \<longrightarrow> k = length (request_frame (send_transaction ''/'' ''h'' 16) (rfc4648_encode ''abc'')))
    \<and> tls (hc_engine c') = []"
proof -
  obtain tpl where t: "compile (build (send_transaction ''/'' ''h'' 16)) = Ok tpl"
    using compile_benign [OF small_benign] by blast
  have "(length ''abc'' + 2) div 3 * 4 \<le> max_body (send_transaction ''/'' ''h'' 16)"
    by (simp add: send_transaction_def builder_new_def)
  note reaches = send_tx_reaches_peer [OF rfc4648.base64_standard_axioms small_benign this t _ plain_tls_seals _ slow_os_contract]
  have "\<exists>r c' w' k. http_send_tx (raw_libc slow_os) plain_tls rfc4648_encode ''abc''
        \<lparr>hc_io = (), hc_raw = 3, hc_engine = \<lparr>tls = [], envelope = tpl, rx_plain = [], ciphertext = []\<rparr>\<rparr> (2, ''>'') = (r, c', w')
    \<and> (r = Ok () \<or> (\<exists>e. r = Err (Io e)))
    \<and> snd w' = ''>'' @ take k (request_frame (send_transaction ''/'' ''h'' 16) (rfc4648_encode ''abc''))
    \<and> (r = Ok () \<longrightarrow> k = length (request_frame (send_transaction ''/'' ''h'' 16) (rfc4648_encode ''abc'')))
    \<and> tls (hc_engine c') = [] \<and> envelope (hc_engine c') = splice_all rfc4648_encode ([] @ [''abc'']) tpl"
    using reaches [of "\<lparr>hc_io = (), hc_raw = 3, hc_engine = \<lparr>tls = [], envelope = tpl, rx_plain = [], ciphertext = []\<rparr>\<rparr>" "[]" "(2, ''>'')"]
    by (simp only: http_conn.select_convs http_engine.select_convs snd_conv splice_all.simps(1) simp_thms)
  with t show ?thesis by blast
qed

end
