(* ===== verification/System_Failover.thy ===== *)
theory System_Failover
  imports Sender_Props
begin

text \<open>
  Failover across components: a worker that loses its connection swaps to the standby and asks
  for a new one, the reconnect thread builds it, and the worker's next maintenance installs it.
\<close>

section \<open>One round through the channels\<close>

text \<open>The standby after a rebuild: the new connection, or the old one if there is none.\<close>

fun rebuilt :: "(('h, 'q) conn_box, reconnect_error) res \<Rightarrow> ('h, 'q) conn_state \<Rightarrow> ('h, 'q) conn_state" where
  "rebuilt (Ok (Conn_Box c)) old = c"
| "rebuilt _ old = old"

context crossbeam_channels
begin

text \<open>A request whose connection cannot be built is gone; nobody is told.\<close>

lemma iteration_fails:
  assumes "\<not> stop w" and "reqs w = r # rs" and "rq_kind r \<noteq> LibTpaKind"
    and "\<And>w. \<exists>w'. mk (rq_provider_idx r) (rq_kind r) w = (Err e, w') \<and> reqs w' = reqs w \<and> (\<forall>h. resps h w' = resps h w)"
  obtains w' where "reconnect_iteration X mk stop resp_txs w = (Ok Continue, w')"
    and "reqs w' = rs" and "\<And>h. resps h w' = resps h w"
proof -
  obtain w1 where w1: "req_recv_timeout X w = (Received r, w1)" "reqs w1 = rs" "\<forall>h. resps h w1 = resps h w"
    using recv_some [OF assms(2)] by blast
  obtain w2 where w2: "mk (rq_provider_idx r) (rq_kind r) w1 = (Err e, w2)" "reqs w2 = reqs w1" "\<forall>h. resps h w2 = resps h w1"
    using assms(4) by blast
  have "reconnect_iteration X mk stop resp_txs w = (Ok Continue, w2)"
    using assms(1,3) w1(1) w2(1) by (simp add: reconnect_iteration_def)
  with w1 w2 that show ?thesis by simp
qed

end

lemma failover_request:
  assumes "crossbeam_channels (xchan E) reqs resps" and "reqs w = []" and "par_do_failover E (s, w) = (s1, w1)"
  shows "reqs w1 = [\<lparr>rq_provider_idx = pw_provider_idx s, rq_kind = pw_conn_kind s\<rparr>]" "\<And>h. resps h w1 = resps h w"
    "pw_dual_conn s1 = dual_swap (pw_dual_conn s)" "pw_inflight s1 = None" "pw_reconnect_resp_rx s1 = pw_reconnect_resp_rx s"
  using assms(2,3) crossbeam_channels.try_send_req [OF assms(1)] crossbeam_channels.try_send_req_frame [OF assms(1)]
  by (auto simp: par_do_failover_def)

lemma install_delivered:
  assumes "crossbeam_channels (xchan E) reqs resps" and "resps (pw_reconnect_resp_rx s) w = [\<lparr>rp_provider_idx = i, rp_conn = Conn_Box c\<rparr>]"
  shows "\<exists>w'. check_standby_delivery E (s, w) = (s\<lparr>pw_dual_conn := replace_standby c (pw_dual_conn s)\<rparr>, w')
    \<and> reqs w' = reqs w \<and> resps (pw_reconnect_resp_rx s) w' = []"
  using crossbeam_channels.try_recv_some [OF assms] by (auto simp: check_standby_delivery_def)

lemma install_nothing:
  assumes "crossbeam_channels (xchan E) reqs resps" and "resps (pw_reconnect_resp_rx s) w = []"
  shows "\<exists>w'. check_standby_delivery E (s, w) = (s, w') \<and> reqs w' = reqs w \<and> resps (pw_reconnect_resp_rx s) w' = []"
  using crossbeam_channels.try_recv_none [OF assms] assms(2) by (auto simp: check_standby_delivery_def)

section \<open>Properties\<close>

text \<open>
  C9. A failover is repaired by one round of the reconnect thread and the worker's maintenance:
  the worker goes on with its former standby, and the connection the thread builds becomes the
  new standby. If the thread cannot build one, the round is over all the same: the request is
  consumed, nothing is retried, and the standby is the connection that was just found dead.
\<close>

theorem failover_repaired:
  assumes "crossbeam_channels (xchan E) reqs resps" and "reqs w = []" and "resps (pw_reconnect_resp_rx s) w = []"
    and "pw_provider_idx s < length resp_txs" and "resp_txs ! pw_provider_idx s = pw_reconnect_resp_rx s"
    and "pw_conn_kind s \<noteq> LibTpaKind" and "par_do_failover E (s, w) = (s1, w1)" and "\<not> stop w1"
    and "\<And>w. \<exists>w'. mk (pw_provider_idx s) (pw_conn_kind s) w = (built, w') \<and> reqs w' = reqs w \<and> (\<forall>h. resps h w' = resps h w)"
    and "(\<exists>c. built = Ok (Conn_Box c)) \<or> (\<exists>e. built = Err e)"
  shows "\<exists>w2 s3 w3. reconnect_iteration (xchan E) mk stop resp_txs w1 = (Ok Continue, w2)
    \<and> check_standby_delivery E (s1, w2) = (s3, w3)
    \<and> active_conn s3 = conn (standby (pw_dual_conn s))
    \<and> conn (standby (pw_dual_conn s3)) = rebuilt built (active_conn s)
    \<and> pw_inflight s3 = None \<and> reqs w3 = [] \<and> resps (pw_reconnect_resp_rx s) w3 = []"
proof -
  note f = failover_request [OF assms(1,2,7)]
  let ?r = "\<lparr>rq_provider_idx = pw_provider_idx s, rq_kind = pw_conn_kind s\<rparr>"
  from assms(10) show ?thesis
  proof (elim disjE exE)
    fix c assume b: "built = Ok (Conn_Box c)"
    obtain w2 where w2: "reconnect_iteration (xchan E) mk stop resp_txs w1 = (Ok Continue, w2)" "reqs w2 = []"
      "resps (pw_reconnect_resp_rx s) w2 = [\<lparr>rp_provider_idx = pw_provider_idx s, rp_conn = Conn_Box c\<rparr>]"
      by (rule crossbeam_channels.iteration_serves [OF assms(1), of stop w1 ?r "[]" resp_txs mk "Conn_Box c"])
         (use assms(3-6,8,9) f(1,2) b in auto)
    from install_delivered [OF assms(1), of s1 w2 "pw_provider_idx s" c] w2 f(3-5) b show ?thesis
      by (auto simp: active_conn_def dual_swap_def replace_standby_def)
  next
    fix e assume b: "built = Err e"
    obtain w2 where w2: "reconnect_iteration (xchan E) mk stop resp_txs w1 = (Ok Continue, w2)" "reqs w2 = []"
      "resps (pw_reconnect_resp_rx s) w2 = []"
      by (rule crossbeam_channels.iteration_fails [OF assms(1), of stop w1 ?r "[]" mk e resp_txs])
         (use assms(3,6,8,9) f(1,2) b in auto)
    from install_nothing [OF assms(1), of s1 w2] w2 f(3-5) b show ?thesis
      by (auto simp: active_conn_def dual_swap_def)
  qed
qed

theorem failover_repaired_witness:
  "\<exists>s1 w1 w2 s3 w3. par_do_failover script_env (script_worker ([], []) ([], [Ok None]) [], quiet_world) = (s1, w1)
    \<and> reconnect_iteration list_xchan (\<lambda>_ _ w. (Ok (Conn_Box (Http_Conn ([], [Ok (Some ''new'')]))), w)) xw_stop [0] w1 = (Ok Continue, w2)
    \<and> check_standby_delivery script_env (s1, w2) = (s3, w3)
    \<and> active_conn s3 = Http_Conn ([], [Ok None]) \<and> conn (standby (pw_dual_conn s3)) = Http_Conn ([], [Ok (Some ''new'')])
    \<and> pw_inflight s3 = None \<and> xw_reqs w3 = [] \<and> xw_resps w3 0 = []"
proof -
  let ?s = "script_worker ([], []) ([], [Ok None]) []"
  let ?mk = "\<lambda>_ _ w. (Ok (Conn_Box (Http_Conn ([], [Ok (Some ''new'')]))) :: ((script, unit) conn_box, reconnect_error) res, w)"
  obtain s1 w1 where f: "par_do_failover script_env (?s, quiet_world) = (s1, w1)" by force
  have x: "xchan script_env = list_xchan" by (simp add: script_env_def)
  have sel: "pw_reconnect_resp_rx ?s = 0" "pw_provider_idx ?s = 0" "pw_conn_kind ?s = RawLibcKind"
    "conn (standby (pw_dual_conn ?s)) = Http_Conn ([], [Ok None])"
    by (simp_all add: script_worker_def par_new_def dual_new_def)
  have "\<not> xw_stop w1" using f by (auto simp: par_do_failover_def script_defs)
  moreover have "crossbeam_channels (xchan script_env) xw_reqs (\<lambda>h w. xw_resps w h)"
    unfolding x by (rule lx.crossbeam_channels_axioms)
  ultimately have "\<exists>w2 s3 w3. reconnect_iteration (xchan script_env) ?mk xw_stop [0] w1 = (Ok Continue, w2)
    \<and> check_standby_delivery script_env (s1, w2) = (s3, w3)
    \<and> active_conn s3 = conn (standby (pw_dual_conn ?s))
    \<and> conn (standby (pw_dual_conn s3)) = rebuilt (Ok (Conn_Box (Http_Conn ([], [Ok (Some ''new'')])))) (active_conn ?s)
    \<and> pw_inflight s3 = None \<and> xw_reqs w3 = [] \<and> xw_resps w3 (pw_reconnect_resp_rx ?s) = []"
    by (intro failover_repaired [OF _ _ _ _ _ _ f]) (simp_all add: sel quiet_world_def)
  with f show ?thesis by (simp add: sel x)
qed

end
