(* ===== verification/Profiling.thy ===== *)
theory Profiling
  imports Worker_Refine Complex_Main
begin

unbundle bit_operations_syntax

text \<open>
  The workers as they are compiled with the feature \<open>profiling\<close>: \<open>transport/parallel.rs\<close> and
  \<open>transport/sequential.rs\<close> with the lines under \<open>cfg(feature = "profiling")\<close>, and \<open>hist_snap\<close> of
  \<open>transport/health.rs\<close>. They read a clock around every fill and every send, record the
  difference in a histogram and publish its quantiles. Apart from the published histograms the
  feature changes nothing.
\<close>

section \<open>Clock and histograms\<close>

text \<open>
  The clock of \<open>quanta\<close> and the histogram of \<open>hdrhistogram\<close>. \<open>hist_new\<close> takes the number of
  significant digits and is \<open>None\<close> where the constructor returns an error; \<open>hist_record\<close> says
  whether the value was recorded. Quantiles are given as the decimals that the source writes.
\<close>

record ('hist, 'w) prof_ops =
  clk_raw :: "'w \<Rightarrow> 64 word \<times> 'w"
  delta_as_nanos :: "64 word \<Rightarrow> 64 word \<Rightarrow> 64 word"
  hist_new :: "nat \<Rightarrow> 'hist option"
  hist_record :: "64 word \<Rightarrow> 'hist \<Rightarrow> bool \<times> 'hist"
  value_at_quantile :: "rat \<Rightarrow> 'hist \<Rightarrow> 64 word"
  hist_max :: "'hist \<Rightarrow> 64 word"
  hist_len :: "'hist \<Rightarrow> 64 word"

definition hist_snap :: "('hist, 'w) prof_ops \<Rightarrow> 'hist \<Rightarrow> hist_snapshot" where
  "hist_snap M h = \<lparr>p50 = value_at_quantile M 0.5 h, p99 = value_at_quantile M 0.99 h,
     p99_9 = value_at_quantile M 0.999 h, hs_max = hist_max M h, hs_count = hist_len M h\<rparr>"

text \<open>The block after a measured call: read the clock again and record; an error is ignored.\<close>

definition record_ns :: "('hist, 'w) prof_ops \<Rightarrow> 64 word \<Rightarrow> 'hist \<Rightarrow> 'w \<Rightarrow> 'hist \<times> 'w" where
  "record_ns M t0 h w =
     (case clk_raw M w of (t1, w) \<Rightarrow> (snd (hist_record M (delta_as_nanos M t0 t1) h), w))"

section \<open>The parallel worker\<close>

record ('h, 'q, 'jq, 'rq, 'hist) prof_worker =
  pp_worker :: "('h, 'q, 'jq, 'rq) par_worker"
  pp_fill_stat :: 'hist
  pp_submit_stat :: 'hist

text \<open>Both constructors are unwrapped with \<open>expect\<close>.\<close>

definition prof_new ::
  "('hist, 'w) prof_ops \<Rightarrow> ('h, 'q, 'jq, 'rq) par_worker \<Rightarrow> (('h, 'q, 'jq, 'rq, 'hist) prof_worker, 'e) res" where
  "prof_new M s =
     (case hist_new M 3 of
        Some h \<Rightarrow> Ok \<lparr>pp_worker = s, pp_fill_stat = h, pp_submit_stat = h\<rparr>
      | None \<Rightarrow> Panic)"

text \<open>An operation without measured code acts on the worker alone.\<close>

definition on_worker ::
  "(('h, 'q, 'jq, 'rq) par_worker \<times> 'w \<Rightarrow> ('a, 'e) res \<times> ('h, 'q, 'jq, 'rq) par_worker \<times> 'w)
     \<Rightarrow> ('h, 'q, 'jq, 'rq, 'hist) prof_worker \<times> 'w \<Rightarrow> ('a, 'e) res \<times> ('h, 'q, 'jq, 'rq, 'hist) prof_worker \<times> 'w" where
  "on_worker f = (\<lambda>(p, w). case f (pp_worker p, w) of (r, s, w) \<Rightarrow> (r, p\<lparr>pp_worker := s\<rparr>, w))"

text \<open>The clock is read after the slice of the transaction has been taken.\<close>

definition prof_send_to ::
  "('hist, 'w) prof_ops \<Rightarrow> ('h, 'q, 'jq, 'rq, 'w) worker_env \<Rightarrow> job \<Rightarrow> 64 word \<Rightarrow> nat
     \<Rightarrow> ('h, 'q, 'jq, 'rq, 'hist) prof_worker \<times> 'w \<Rightarrow> (unit, unit) res \<times> ('h, 'q, 'jq, 'rq, 'hist) prof_worker \<times> 'w" where
  "prof_send_to M E j sent len = (\<lambda>(p, w).
     bind_st (slice_of (pw_scratch (pp_worker p)) 0 len, p, w) (\<lambda>_ (p, w).
     case clk_raw M w of (t0, w) \<Rightarrow>
     bind_st (on_worker (par_send_to E j sent len) (p, w)) (\<lambda>_ (p, w).
     case record_ns M t0 (pp_submit_stat p) w of (h, w) \<Rightarrow> (Ok (), p\<lparr>pp_submit_stat := h\<rparr>, w))))"

definition prof_take_job ::
  "('hist, 'w) prof_ops \<Rightarrow> ('h, 'q, 'jq, 'rq, 'w) worker_env \<Rightarrow> provider_id
     \<Rightarrow> ('h, 'q, 'jq, 'rq, 'hist) prof_worker \<times> 'w \<Rightarrow> (unit, unit) res \<times> ('h, 'q, 'jq, 'rq, 'hist) prof_worker \<times> 'w" where
  "prof_take_job M E pid = (\<lambda>(p, w).
     let s = pp_worker p
     in case try_pop (job_ring E) (pw_trigger s) of
       (Some j, t) \<Rightarrow>
         (case rdtsc (hw E) w of (sent, w) \<Rightarrow>
          case clk_raw M w of (t0, w) \<Rightarrow>
          case fill E pid j (pw_scratch s) w of (len, scratch, w) \<Rightarrow>
          case record_ns M t0 (pp_fill_stat p) w of (h, w) \<Rightarrow>
          prof_send_to M E j sent (unat len)
            (p\<lparr>pp_worker := s\<lparr>pw_trigger := t, pw_scratch := scratch\<rparr>, pp_fill_stat := h\<rparr>, w))
     | (None, t) \<Rightarrow> (Ok (), p\<lparr>pp_worker := s\<lparr>pw_trigger := t\<rparr>\<rparr>, w))"

definition prof_publish_diag ::
  "('hist, 'w) prof_ops \<Rightarrow> ('h, 'q, 'jq, 'rq, 'w) worker_env
     \<Rightarrow> ('h, 'q, 'jq, 'rq, 'hist) prof_worker \<times> 'w \<Rightarrow> ('h, 'q, 'jq, 'rq, 'hist) prof_worker \<times> 'w" where
  "prof_publish_diag M E = (\<lambda>(p, w).
     (p, diag_write E (pw_diag (pp_worker p))
           \<lparr>wd_alive = True, wd_jobs_sent = pw_jobs_sent (pp_worker p), wd_fill_ns = hist_snap M (pp_fill_stat p),
            wd_submit_ns = hist_snap M (pp_submit_stat p)\<rparr> w))"

definition prof_maintain ::
  "('hist, 'w) prof_ops \<Rightarrow> ('h, 'q, 'jq, 'rq, 'w) worker_env
     \<Rightarrow> ('h, 'q, 'jq, 'rq, 'hist) prof_worker \<times> 'w \<Rightarrow> ('h, 'q, 'jq, 'rq, 'hist) prof_worker \<times> 'w" where
  "prof_maintain M E = (\<lambda>(p, w).
     case check_standby_delivery E (pp_worker p, w) of (s, w) \<Rightarrow> prof_publish_diag M E (p\<lparr>pp_worker := s\<rparr>, w))"

definition prof_idle ::
  "('h, 'q, 'jq, 'rq, 'w) worker_env
     \<Rightarrow> ('h, 'q, 'jq, 'rq, 'hist) prof_worker \<times> 'w \<Rightarrow> ('h, 'q, 'jq, 'rq, 'hist) prof_worker \<times> 'w" where
  "prof_idle E = (\<lambda>(p, w). case par_idle E (pp_worker p, w) of (s, w) \<Rightarrow> (p\<lparr>pp_worker := s\<rparr>, w))"

definition prof_iteration ::
  "('hist, 'w) prof_ops \<Rightarrow> ('h, 'q, 'jq, 'rq, 'w) worker_env
     \<Rightarrow> ('h, 'q, 'jq, 'rq, 'hist) prof_worker \<times> 'w \<Rightarrow> (unit, unit) res \<times> ('h, 'q, 'jq, 'rq, 'hist) prof_worker \<times> 'w" where
  "prof_iteration M E x =
     (let pid = provider_of_index (pw_provider_idx (pp_worker (fst x)))
      in bind_st (prof_take_job M E pid x) (\<lambda>_ x.
         bind_st (on_worker (par_drive E) x) (\<lambda>_ x.
         bind_st (on_worker (par_reap E pid) x) (\<lambda>_ (p, w).
         let s = pp_worker p; tick = pw_tick s + 1;
             p = p\<lparr>pp_worker := s\<lparr>pw_tick := tick\<rparr>\<rparr>;
             x = (if tick AND PERIODIC_MASK = 0 then prof_maintain M E (p, w) else (p, w));
             x = (if is_empty (job_ring E) (pw_trigger (pp_worker (fst x))) then prof_maintain M E (prof_idle E x) else x)
         in (Ok (), x)))))"

text \<open>A loop that ends when its flag is set or its body does not return.\<close>

partial_function (option) while_ok ::
  "('s \<Rightarrow> bool) \<Rightarrow> ('s \<Rightarrow> (unit, 'e) res \<times> 's) \<Rightarrow> 's \<Rightarrow> ((unit, 'e) res \<times> 's) option" where
  "while_ok stop body x =
     (if stop x then Some (Ok (), x)
      else case body x of (r, x') \<Rightarrow>
        (case r of
           Ok _ \<Rightarrow> while_ok stop body x'
         | Err e \<Rightarrow> Some (Err e, x')
         | Panic \<Rightarrow> Some (Panic, x')
         | Hang \<Rightarrow> Some (Hang, x')))"

definition prof_run ::
  "('hist, 'w) prof_ops \<Rightarrow> ('h, 'q, 'jq, 'rq, 'w) worker_env \<Rightarrow> ('h, 'q, 'jq, 'rq, 'hist) prof_worker \<times> 'w
     \<Rightarrow> ((unit, unit) res \<times> ('h, 'q, 'jq, 'rq, 'hist) prof_worker \<times> 'w) option" where
  "prof_run M E = while_ok (\<lambda>x. stop_load E (snd x)) (prof_iteration M E)"

section \<open>The sequential worker\<close>

record ('h, 'q, 'jq, 'rq, 'hist) prof_seq_worker =
  qs_worker :: "('h, 'q, 'jq, 'rq) seq_worker"
  qs_fill_stat :: "'hist list"
  qs_submit_stat :: "'hist list"

definition prof_seq_new ::
  "('hist, 'w) prof_ops \<Rightarrow> ('h, 'q, 'jq, 'rq) seq_worker \<Rightarrow> (('h, 'q, 'jq, 'rq, 'hist) prof_seq_worker, 'e) res" where
  "prof_seq_new M s =
     (let n = length (sw_conns s)
      in case hist_new M 3 of
           Some h \<Rightarrow> Ok \<lparr>qs_worker = s, qs_fill_stat = replicate n h, qs_submit_stat = replicate n h\<rparr>
         | None \<Rightarrow> if n = 0 then Ok \<lparr>qs_worker = s, qs_fill_stat = [], qs_submit_stat = []\<rparr> else Panic)"

definition on_seq ::
  "(('h, 'q, 'jq, 'rq) seq_worker \<times> 'w \<Rightarrow> ('a, 'e) res \<times> ('h, 'q, 'jq, 'rq) seq_worker \<times> 'w)
     \<Rightarrow> ('h, 'q, 'jq, 'rq, 'hist) prof_seq_worker \<times> 'w \<Rightarrow> ('a, 'e) res \<times> ('h, 'q, 'jq, 'rq, 'hist) prof_seq_worker \<times> 'w" where
  "on_seq f = (\<lambda>(p, w). case f (qs_worker p, w) of (r, s, w) \<Rightarrow> (r, p\<lparr>qs_worker := s\<rparr>, w))"

text \<open>The clock is read before the vector is indexed.\<close>

definition record_at ::
  "('hist, 'w) prof_ops \<Rightarrow> 64 word \<Rightarrow> 'hist list \<Rightarrow> nat \<Rightarrow> 'w \<Rightarrow> ('hist list, unit) res \<times> 'w" where
  "record_at M t0 hs i w =
     (case clk_raw M w of (t1, w) \<Rightarrow>
        (bind_res (index hs i) (\<lambda>h. store hs i (snd (hist_record M (delta_as_nanos M t0 t1) h))), w))"

definition prof_seq_send_to ::
  "('hist, 'w) prof_ops \<Rightarrow> ('h, 'q, 'jq, 'rq, 'w) worker_env \<Rightarrow> nat \<Rightarrow> job \<Rightarrow> 64 word \<Rightarrow> nat
     \<Rightarrow> ('h, 'q, 'jq, 'rq, 'hist) prof_seq_worker \<times> 'w \<Rightarrow> (unit, unit) res \<times> ('h, 'q, 'jq, 'rq, 'hist) prof_seq_worker \<times> 'w" where
  "prof_seq_send_to M E i j sent len = (\<lambda>(p, w).
     bind_st (slice_of (sw_scratch (qs_worker p)) 0 len, p, w) (\<lambda>_ (p, w).
     case clk_raw M w of (t0, w) \<Rightarrow>
     bind_st (on_seq (seq_send_to E i j sent len) (p, w)) (\<lambda>_ (p, w).
     case record_at M t0 (qs_submit_stat p) i w of (r, w) \<Rightarrow>
     bind_st (r, p, w) (\<lambda>hs (p, w). (Ok (), p\<lparr>qs_submit_stat := hs\<rparr>, w)))))"

definition prof_seq_fill_send ::
  "('hist, 'w) prof_ops \<Rightarrow> ('h, 'q, 'jq, 'rq, 'w) worker_env \<Rightarrow> job \<Rightarrow> 64 word \<Rightarrow> nat
     \<Rightarrow> ('h, 'q, 'jq, 'rq, 'hist) prof_seq_worker \<times> 'w \<Rightarrow> (unit, unit) res \<times> ('h, 'q, 'jq, 'rq, 'hist) prof_seq_worker \<times> 'w" where
  "prof_seq_fill_send M E j sent i = (\<lambda>(p, w).
     case clk_raw M w of (t0, w) \<Rightarrow>
     case fill E (provider_of_index i) j (sw_scratch (qs_worker p)) w of (len, scratch, w) \<Rightarrow>
     let p = p\<lparr>qs_worker := (qs_worker p)\<lparr>sw_scratch := scratch\<rparr>\<rparr>
     in case record_at M t0 (qs_fill_stat p) i w of (r, w) \<Rightarrow>
        bind_st (r, p, w) (\<lambda>hs (p, w). prof_seq_send_to M E i j sent (unat len) (p\<lparr>qs_fill_stat := hs\<rparr>, w)))"

definition prof_seq_take_job ::
  "('hist, 'w) prof_ops \<Rightarrow> ('h, 'q, 'jq, 'rq, 'w) worker_env
     \<Rightarrow> ('h, 'q, 'jq, 'rq, 'hist) prof_seq_worker \<times> 'w \<Rightarrow> (unit, unit) res \<times> ('h, 'q, 'jq, 'rq, 'hist) prof_seq_worker \<times> 'w" where
  "prof_seq_take_job M E = (\<lambda>(p, w).
     case try_pop (job_ring E) (sw_trigger (qs_worker p)) of
       (Some j, t) \<Rightarrow>
         (case rdtsc (hw E) w of (sent, w) \<Rightarrow>
          let p = p\<lparr>qs_worker := (qs_worker p)\<lparr>sw_trigger := t\<rparr>\<rparr>
          in bind_st (for_each [0..<length (sw_conns (qs_worker p))] (prof_seq_fill_send M E j sent) (p, w)) (\<lambda>_ (p, w).
             for_each [0..<length (sw_conns (qs_worker p))] (\<lambda>i. on_seq (seq_drive E i)) (p, w)))
     | (None, t) \<Rightarrow> (Ok (), p\<lparr>qs_worker := (qs_worker p)\<lparr>sw_trigger := t\<rparr>\<rparr>, w))"

definition prof_seq_publish_diag ::
  "('hist, 'w) prof_ops \<Rightarrow> ('h, 'q, 'jq, 'rq, 'w) worker_env
     \<Rightarrow> ('h, 'q, 'jq, 'rq, 'hist) prof_seq_worker \<times> 'w \<Rightarrow> (unit, unit) res \<times> ('h, 'q, 'jq, 'rq, 'hist) prof_seq_worker \<times> 'w" where
  "prof_seq_publish_diag M E x =
     for_each [0..<length (sw_diag (qs_worker (fst x)))] (\<lambda>i (p, w).
       bind_st (index (qs_fill_stat p) i, p, w) (\<lambda>f (p, w).
       bind_st (index (qs_submit_stat p) i, p, w) (\<lambda>g (p, w).
       bind_st (index (sw_diag (qs_worker p)) i, p, w) (\<lambda>cell (p, w).
       bind_st (index (sw_jobs_sent (qs_worker p)) i, p, w) (\<lambda>n (p, w).
         (Ok (), p, diag_write E cell
            \<lparr>wd_alive = True, wd_jobs_sent = n, wd_fill_ns = hist_snap M f, wd_submit_ns = hist_snap M g\<rparr> w)))))) x"

definition prof_seq_maintain ::
  "('hist, 'w) prof_ops \<Rightarrow> ('h, 'q, 'jq, 'rq, 'w) worker_env
     \<Rightarrow> ('h, 'q, 'jq, 'rq, 'hist) prof_seq_worker \<times> 'w \<Rightarrow> (unit, unit) res \<times> ('h, 'q, 'jq, 'rq, 'hist) prof_seq_worker \<times> 'w" where
  "prof_seq_maintain M E x = bind_st (on_seq (check_standby_deliveries E) x) (\<lambda>_. prof_seq_publish_diag M E)"

definition prof_seq_idle ::
  "('h, 'q, 'jq, 'rq, 'w) worker_env
     \<Rightarrow> ('h, 'q, 'jq, 'rq, 'hist) prof_seq_worker \<times> 'w \<Rightarrow> ('h, 'q, 'jq, 'rq, 'hist) prof_seq_worker \<times> 'w" where
  "prof_seq_idle E = (\<lambda>(p, w). case seq_idle E (qs_worker p, w) of (s, w) \<Rightarrow> (p\<lparr>qs_worker := s\<rparr>, w))"

definition prof_seq_iteration ::
  "('hist, 'w) prof_ops \<Rightarrow> ('h, 'q, 'jq, 'rq, 'w) worker_env
     \<Rightarrow> ('h, 'q, 'jq, 'rq, 'hist) prof_seq_worker \<times> 'w \<Rightarrow> (unit, unit) res \<times> ('h, 'q, 'jq, 'rq, 'hist) prof_seq_worker \<times> 'w" where
  "prof_seq_iteration M E x =
     bind_st (prof_seq_take_job M E x) (\<lambda>_ x.
     bind_st (for_each [0..<length (sw_conns (qs_worker (fst x)))] (\<lambda>i. on_seq (seq_service E i)) x) (\<lambda>_ (p, w).
     let s = qs_worker p; tick = sw_tick s + 1; p = p\<lparr>qs_worker := s\<lparr>sw_tick := tick\<rparr>\<rparr>
     in bind_st (if tick AND PERIODIC_MASK = 0 then prof_seq_maintain M E (p, w) else (Ok (), p, w)) (\<lambda>_ x.
        if is_empty (job_ring E) (sw_trigger (qs_worker (fst x))) then prof_seq_maintain M E (prof_seq_idle E x) else (Ok (), x))))"

definition prof_seq_run ::
  "('hist, 'w) prof_ops \<Rightarrow> ('h, 'q, 'jq, 'rq, 'w) worker_env \<Rightarrow> ('h, 'q, 'jq, 'rq, 'hist) prof_seq_worker \<times> 'w
     \<Rightarrow> ((unit, unit) res \<times> ('h, 'q, 'jq, 'rq, 'hist) prof_seq_worker \<times> 'w) option" where
  "prof_seq_run M E = while_ok (\<lambda>x. stop_load E (snd x)) (prof_seq_iteration M E)"

section \<open>The loops\<close>

lemma while_ok_induct [consumes 1, case_names stop iterate fail]:
  assumes "while_ok stop body x = Some y"
    and "\<And>x. stop x \<Longrightarrow> P x (Ok (), x)"
    and "\<And>x x' y. \<not> stop x \<Longrightarrow> body x = (Ok (), x') \<Longrightarrow> P x' y \<Longrightarrow> P x y"
    and "\<And>x r x'. \<not> stop x \<Longrightarrow> body x = (r, x') \<Longrightarrow> \<not> is_ok r \<Longrightarrow> P x (r, x')"
  shows "P x y"
proof -
  have "(st, bd) = (stop, body) \<longrightarrow> P x' y'" if "while_ok st bd x' = Some y'" for st bd x' y'
    using that
  proof (rule while_ok.raw_induct [where P = "\<lambda>st bd x y. (st, bd) = (stop, body) \<longrightarrow> P x y" and xa = "((st, bd), x')", unfolded prod.case, rotated])
    fix run st bd x y
    assume IH: "\<And>st bd x y. run st bd x = Some y \<Longrightarrow> (st, bd) = (stop, body) \<longrightarrow> P x y"
      and b: "(if st x then Some (Ok (), x)
        else case bd x of (Ok x, x') \<Rightarrow> run st bd x' | (Err e, x') \<Rightarrow> Some (Err e, x')
          | (Panic, x') \<Rightarrow> Some (Panic, x') | (Hang, x') \<Rightarrow> Some (Hang, x')) = Some y"
    obtain r x' where it: "body x = (r, x')" by (cases "body x")
    show "(st, bd) = (stop, body) \<longrightarrow> P x y"
      using b assms(2) [of x] assms(3) [of x x' y] assms(4) [of x r x'] IH [of stop body x' y] it
      by (cases r) (auto split: if_splits)
  qed
  with assms(1) show ?thesis by blast
qed

text \<open>Two loops whose bodies correspond under \<open>e\<close>, on states in which \<open>I\<close> holds.\<close>

lemma while_ok_simulates:
  assumes "\<And>x. I x \<Longrightarrow> stop' (e x) = stop x"
    and "\<And>x. I x \<Longrightarrow> body' (e x) = apsnd e (body x)"
    and "\<And>x x'. I x \<Longrightarrow> body x = (Ok (), x') \<Longrightarrow> I x'" and "I x"
  shows "while_ok stop' body' (e x) = map_option (apsnd e) (while_ok stop body x)"
proof -
  have 1: "I x \<Longrightarrow> while_ok stop' body' (e x) = Some (apsnd e y)" if "while_ok stop body x = Some y" for x y
    using that
  proof (induction rule: while_ok_induct)
    case (stop x)
    then show ?case by (subst while_ok.simps) (simp add: assms(1))
  next
    case (iterate x x' y)
    then show ?case using assms(3) [of x x'] by (subst while_ok.simps) (simp add: assms(1,2))
  next
    case (fail x r x')
    then show ?case by (subst while_ok.simps, cases r) (simp_all add: assms(1,2))
  qed
  have 2: "I x \<Longrightarrow> z = e x \<Longrightarrow> while_ok stop body x \<noteq> None" if "while_ok stop' body' z = Some y" for z x y
    using that
  proof (induction arbitrary: x rule: while_ok_induct)
    case (stop z)
    then show ?case by (subst while_ok.simps) (simp add: assms(1))
  next
    case (iterate z z' y)
    obtain r x' where b: "body x = (r, x')" by (cases "body x")
    with iterate assms(2) [of x] have "r = Ok ()" "z' = e x'" by auto
    with b iterate assms(3) [of x x'] show ?case by (subst while_ok.simps) (simp add: assms(1))
  next
    case (fail z r z')
    obtain r' x' where b: "body x = (r', x')" by (cases "body x")
    with fail assms(2) [of x] have "r' = r" by auto
    with b fail show ?case by (subst while_ok.simps, cases r) (simp_all add: assms(1))
  qed
  show ?thesis
    using 1 [of x] 2 [of "e x" _ x] assms(4) by (cases "while_ok stop body x"; cases "while_ok stop' body' (e x)") auto
qed

lemma option_eqI: "(\<And>y. a = Some y \<Longrightarrow> b = Some y) \<Longrightarrow> (\<And>y. b = Some y \<Longrightarrow> a = Some y) \<Longrightarrow> a = b"
  by (cases a; cases b) auto

lemma par_run_while: "par_run E x = while_ok (\<lambda>x. stop_load E (snd x)) (par_iteration E) x"
proof -
  have 1: "while_ok (\<lambda>x. stop_load E (snd x)) (par_iteration E) x = Some y" if "par_run E x = Some y" for x y
    using that
  proof (induction rule: par_run_induct)
    case (fail x r x')
    then show ?case by (subst while_ok.simps, cases r) simp_all
  qed (subst while_ok.simps, simp)+
  have 2: "par_run E x = Some y" if "while_ok (\<lambda>x. stop_load E (snd x)) (par_iteration E) x = Some y" for x y
    using that
  proof (induction rule: while_ok_induct)
    case (fail x r x')
    then show ?case by (subst par_run.simps, cases r) simp_all
  qed (subst par_run.simps, simp)+
  show ?thesis by (rule option_eqI) (rule 1 2, assumption)+
qed

lemma seq_run_while: "seq_run E x = while_ok (\<lambda>x. stop_load E (snd x)) (seq_iteration E) x"
proof -
  have 1: "while_ok (\<lambda>x. stop_load E (snd x)) (seq_iteration E) x = Some y" if "seq_run E x = Some y" for x y
    using that
  proof (induction rule: seq_run_induct)
    case (fail x r x')
    then show ?case by (subst while_ok.simps, cases r) simp_all
  qed (subst while_ok.simps, simp)+
  have 2: "seq_run E x = Some y" if "while_ok (\<lambda>x. stop_load E (snd x)) (seq_iteration E) x = Some y" for x y
    using that
  proof (induction rule: while_ok_induct)
    case (fail x r x')
    then show ?case by (subst seq_run.simps, cases r) simp_all
  qed (subst seq_run.simps, simp)+
  show ?thesis by (rule option_eqI) (rule 1 2, assumption)+
qed

section \<open>Forgetting the measurements of the parallel worker\<close>

text \<open>
  What is assumed of clock and cells: reading the clock has no effect, and two diagnostics that
  differ in their histograms only are the same to whoever reads the cell.
\<close>

definition clock_quiet :: "('hist, 'w) prof_ops \<Rightarrow> bool" where
  "clock_quiet M \<longleftrightarrow> (\<forall>w. snd (clk_raw M w) = w)"

definition hist_blind :: "('h, 'q, 'jq, 'rq, 'w) worker_env \<Rightarrow> bool" where
  "hist_blind E \<longleftrightarrow> (\<forall>c d w. diag_write E c d w = diag_write E c (d\<lparr>wd_fill_ns := hist_default, wd_submit_ns := hist_default\<rparr>) w)"

definition forget :: "('h, 'q, 'jq, 'rq, 'hist) prof_worker \<times> 'w \<Rightarrow> ('h, 'q, 'jq, 'rq) par_worker \<times> 'w" where
  "forget = (\<lambda>(p, w). (pp_worker p, w))"

lemma forget_pair [simp]: "forget (p, w) = (pp_worker p, w)" "snd (forget x) = snd x"
  by (simp_all add: forget_def split: prod.split)

lemma clock_quiet_read: "clock_quiet M \<Longrightarrow> \<exists>t. clk_raw M w = (t, w)"
  by (metis clock_quiet_def prod.collapse)

lemma record_ns_quiet: "clock_quiet M \<Longrightarrow> \<exists>h'. record_ns M t0 h w = (h', w)"
  using clock_quiet_read [of M w] by (auto simp: record_ns_def)

lemma hist_blind_write:
  assumes "hist_blind E"
  shows "diag_write E c \<lparr>wd_alive = a, wd_jobs_sent = n, wd_fill_ns = f, wd_submit_ns = g\<rparr> w
     = diag_write E c \<lparr>wd_alive = a, wd_jobs_sent = n, wd_fill_ns = hist_default, wd_submit_ns = hist_default\<rparr> w"
  using assms [unfolded hist_blind_def, rule_format, of c "\<lparr>wd_alive = a, wd_jobs_sent = n, wd_fill_ns = f, wd_submit_ns = g\<rparr>" w]
  by simp

lemma apsnd_bind_st:
  assumes "apsnd e x = y" and "\<And>a z. apsnd e (f a z) = g a (e z)"
  shows "apsnd e (bind_st x f) = bind_st y g"
  using assms by (cases x; cases "fst x") auto

lemma forget_on_worker: "apsnd forget (on_worker f x) = f (forget x)"
  by (cases x) (simp add: on_worker_def split: prod.split)

lemma forget_record:
  assumes "clock_quiet M"
  shows "apsnd forget (case z of (p, w) \<Rightarrow> case record_ns M t0 (pp_submit_stat p) w of (h, w) \<Rightarrow> (Ok (), p\<lparr>pp_submit_stat := h\<rparr>, w))
    = (Ok (), forget z)"
proof -
  obtain h where "record_ns M t0 (pp_submit_stat (fst z)) (snd z) = (h, snd z)" using record_ns_quiet [OF assms] by blast
  then show ?thesis by (cases z) simp
qed

lemma forget_send_to:
  assumes "clock_quiet M"
  shows "apsnd forget (prof_send_to M E j t len x) = par_send_to E j t len (forget x)"
proof -
  obtain p w where x: "x = (p, w)" by force
  obtain t0 where t0: "clk_raw M w = (t0, w)" using clock_quiet_read [OF assms] by blast
  have "apsnd forget (bind_st (on_worker (par_send_to E j t len) (p, w)) (\<lambda>_ (p, w).
      case record_ns M t0 (pp_submit_stat p) w of (h, w) \<Rightarrow> (Ok (), p\<lparr>pp_submit_stat := h\<rparr>, w)))
    = bind_st (par_send_to E j t len (forget (p, w))) (\<lambda>_ z. (Ok (), z))"
    by (rule apsnd_bind_st, rule forget_on_worker, rule forget_record [OF assms])
  then show ?thesis
    using t0 x by (cases "slice_of (pw_scratch (pp_worker p)) 0 len :: (bytes, unit) res")
      (simp_all add: prof_send_to_def par_send_to_def)
qed

lemma forget_take_job:
  assumes "clock_quiet M"
  shows "apsnd forget (prof_take_job M E pid x) = par_take_job E pid (forget x)"
proof -
  obtain p w where x: "x = (p, w)" by force
  obtain jo t where pop: "try_pop (job_ring E) (pw_trigger (pp_worker p)) = (jo, t)" by force
  show ?thesis
  proof (cases jo)
    case (Some j)
    obtain t1 w1 where 1: "rdtsc (hw E) w = (t1, w1)" by force
    obtain t0 where 2: "clk_raw M w1 = (t0, w1)" using clock_quiet_read [OF assms] by blast
    obtain len sc w2 where 3: "fill E pid j (pw_scratch (pp_worker p)) w1 = (len, sc, w2)" by (metis prod.exhaust)
    obtain h where 4: "record_ns M t0 (pp_fill_stat p) w2 = (h, w2)" using record_ns_quiet [OF assms] by blast
    show ?thesis using x pop Some 1 2 3 4 by (simp add: prof_take_job_def par_take_job_def forget_send_to [OF assms])
  qed (use x pop in \<open>simp add: prof_take_job_def par_take_job_def\<close>)
qed

lemma forget_maintain:
  assumes "hist_blind E"
  shows "forget (prof_maintain M E x) = par_maintain E (forget x)"
  using hist_blind_write [OF assms]
  by (cases x) (simp add: prof_maintain_def par_maintain_def prof_publish_diag_def par_publish_diag_def split: prod.split)

lemma forget_idle: "forget (prof_idle E x) = par_idle E (forget x)"
  by (cases x) (simp add: prof_idle_def par_idle_def)

lemma forget_trigger: "pw_trigger (pp_worker (fst x)) = pw_trigger (fst (forget x))"
  by (cases x) simp

lemma forget_iteration:
  assumes "clock_quiet M" and "hist_blind E"
  shows "par_iteration E (forget x) = apsnd forget (prof_iteration M E x)"
proof -
  let ?pid = "provider_of_index (pw_provider_idx (fst (forget x)))"
  let ?rest = "\<lambda>(p, w). let s = pp_worker p; tick = pw_tick s + 1; p = p\<lparr>pp_worker := s\<lparr>pw_tick := tick\<rparr>\<rparr>;
      x = (if tick AND PERIODIC_MASK = 0 then prof_maintain M E (p, w) else (p, w));
      x = (if is_empty (job_ring E) (pw_trigger (pp_worker (fst x))) then prof_maintain M E (prof_idle E x) else x)
    in (Ok () :: (unit, unit) res, x)"
  have fin: "apsnd forget (?rest z) = (Ok (), par_finish E (forget z))" for z
    by (cases z) (simp add: par_finish_def Let_def forget_trigger forget_maintain [OF assms(2)] forget_idle if_distrib [of forget] cong: if_cong)
  have "apsnd forget (prof_iteration M E x) = bind_st (par_take_job E ?pid (forget x)) (\<lambda>_ x.
      bind_st (par_drive E x) (\<lambda>_ x. bind_st (par_reap E ?pid x) (\<lambda>_ x. (Ok (), par_finish E x))))"
    unfolding prof_iteration_def Let_def [of "provider_of_index _"]
    by (cases x, simp only: fst_conv forget_pair)
       (intro apsnd_bind_st forget_on_worker, use forget_take_job [OF assms(1)] fin in auto)
  then show ?thesis
    by (cases x) (simp add: par_iteration_def par_finish_def Let_def case_prod_unfold)
qed

section \<open>Forgetting the measurements of the sequential worker\<close>

text \<open>\<open>X\<close> does what \<open>y\<close> does once \<open>e\<close> has forgotten the rest, and establishes \<open>I\<close> when it returns.\<close>

definition sim :: "('s \<Rightarrow> bool) \<Rightarrow> ('s \<Rightarrow> 't) \<Rightarrow> ('a, 'e) res \<times> 's \<Rightarrow> ('a, 'e) res \<times> 't \<Rightarrow> bool" where
  "sim I e X y \<longleftrightarrow> apsnd e X = y \<and> (\<forall>a z. X = (Ok a, z) \<longrightarrow> I z)"

lemma sim_bind:
  assumes "sim I e X y" and "\<And>a z. I z \<Longrightarrow> sim I e (F a z) (g a (e z))"
  shows "sim I e (bind_st X F) (bind_st y g)"
  using assms by (cases X; cases "fst X") (auto simp: sim_def)

lemma sim_for_each:
  assumes "\<And>i x. i \<in> set ks \<Longrightarrow> I x \<Longrightarrow> sim I e (F i x) (f i (e x))" and "I x"
  shows "sim I e (for_each ks F x) (for_each ks f (e x))"
  using assms
proof (induction ks arbitrary: x)
  case Nil
  then show ?case by (simp add: sim_def)
next
  case (Cons k ks)
  then show ?case by (auto intro!: sim_bind)
qed

definition stats_wf :: "nat \<Rightarrow> ('h, 'q, 'jq, 'rq, 'hist) prof_seq_worker \<times> 'w \<Rightarrow> bool" where
  "stats_wf n x \<longleftrightarrow> seq_wf (qs_worker (fst x)) \<and> length (sw_conns (qs_worker (fst x))) = n
     \<and> length (qs_fill_stat (fst x)) = n \<and> length (qs_submit_stat (fst x)) = n"

definition forget_seq :: "('h, 'q, 'jq, 'rq, 'hist) prof_seq_worker \<times> 'w \<Rightarrow> ('h, 'q, 'jq, 'rq) seq_worker \<times> 'w" where
  "forget_seq = (\<lambda>(p, w). (qs_worker p, w))"

lemma forget_seq_pair [simp]: "forget_seq (p, w) = (qs_worker p, w)" "snd (forget_seq x) = snd x"
  by (simp_all add: forget_seq_def split: prod.split)

lemma sim_on_seq:
  assumes "\<And>s w a s' w'. seq_wf s \<Longrightarrow> length (sw_conns s) = n \<Longrightarrow> f (s, w) = (Ok a, s', w') \<Longrightarrow> seq_wf s' \<and> length (sw_conns s') = n"
    and "stats_wf n x"
  shows "sim (stats_wf n) forget_seq (on_seq f x) (f (forget_seq x))"
proof -
  obtain p w where x: "x = (p, w)" by force
  obtain r s' w' where f: "f (qs_worker p, w) = (r, s', w')" by (metis prod.exhaust)
  have "seq_wf s' \<and> length (sw_conns s') = n" if "r = Ok a" for a
    using assms(1) [of "qs_worker p" w a s' w'] assms(2) f x that by (simp add: stats_wf_def)
  with f x assms(2) show ?thesis by (simp add: sim_def on_seq_def stats_wf_def)
qed

lemma put_at_shape:
  assumes "seq_wf s" and "length (sw_conns s) = n" and "i < n"
  shows "seq_wf (put_at i s q) \<and> length (sw_conns (put_at i s q)) = n"
  using assms put_at_nth(7) [of s i q] by (simp add: put_at_wf)

lemma seq_send_to_shape:
  assumes "i < n" and "seq_wf s" and "length (sw_conns s) = n" and "seq_send_to E i j t len (s, w) = (r, s', w')"
  shows "seq_wf s' \<and> length (sw_conns s') = n"
proof -
  have "of_provider i s (proj i s)" using assms by (simp add: of_provider_proj)
  from seq_send_to_put [OF this, of E j t len w] assms put_at_shape show ?thesis by (auto simp: lift_at_def)
qed

lemma seq_drive_shape:
  assumes "i < n" and "seq_wf s" and "length (sw_conns s) = n" and "seq_drive E i (s, w) = (r, s', w')"
  shows "seq_wf s' \<and> length (sw_conns s') = n"
proof -
  have "of_provider i s (proj i s)" using assms by (simp add: of_provider_proj)
  from seq_drive_put [OF this, of E w] assms put_at_shape show ?thesis by (auto simp: lift_at_def)
qed

lemma seq_service_shape:
  assumes "i < n" and "seq_wf s" and "length (sw_conns s) = n" and "seq_service E i (s, w) = (r, s', w')"
  shows "seq_wf s' \<and> length (sw_conns s') = n"
proof -
  have "of_provider i s (proj i s)" using assms by (simp add: of_provider_proj)
  from seq_service_put [OF this, of E w] assms put_at_shape show ?thesis by (auto simp: lift_at_def)
qed

lemma take_standby_shape:
  assumes "seq_wf s" and "take_standby E k (s, w) = (r, s', w')"
  shows "seq_wf s' \<and> length (sw_conns s') = length (sw_conns s)"
proof (cases "k < length (sw_reconnect_resp_rx s)")
  case True
  obtain po w1 where rv: "resp_try_recv (xchan E) (sw_reconnect_resp_rx s ! k) w = (po, w1)" by force
  show ?thesis
  proof (cases po)
    case (Some resp)
    then show ?thesis
      using assms rv True
      by (cases "rp_conn resp"; cases "rp_provider_idx resp < length (sw_conns s)")
         (auto simp: take_standby_def index_def seq_wf_def)
  qed (use assms rv True in \<open>auto simp: take_standby_def\<close>)
qed (use assms in \<open>auto simp: take_standby_def index_def\<close>)

lemma standby_deliveries_shape:
  assumes "seq_wf s" and "length (sw_conns s) = n" and "check_standby_deliveries E (s, w) = (Ok a, s', w')"
  shows "seq_wf s' \<and> length (sw_conns s') = n"
proof -
  have "seq_wf s' \<and> length (sw_conns s') = n"
    if "seq_wf s" "length (sw_conns s) = n" "for_each ks (take_standby E) (s, w) = (Ok a, s', w')" for ks s w
    using that
  proof (induction ks arbitrary: s w)
    case (Cons k ks)
    from Cons.prems(3) obtain s1 w1 where 1: "take_standby E k (s, w) = (Ok (), s1, w1)"
      and 2: "for_each ks (take_standby E) (s1, w1) = (Ok a, s', w')"
      by (auto simp: bind_st_Ok)
    from take_standby_shape [OF Cons.prems(1) 1] Cons.prems(2) Cons.IH [OF _ _ 2] show ?case by blast
  qed simp
  with assms show ?thesis unfolding check_standby_deliveries_def by blast
qed

lemma record_at_quiet:
  assumes "clock_quiet M" and "i < length hs"
  shows "\<exists>hs'. record_at M t0 hs i w = (Ok hs', w) \<and> length hs' = length hs"
  using clock_quiet_read [OF assms(1), of w] assms(2) by (auto simp: record_at_def)

lemma sim_seq_send_to:
  assumes "clock_quiet M" and "i < n" and "stats_wf n x"
  shows "sim (stats_wf n) forget_seq (prof_seq_send_to M E i j t len x) (seq_send_to E i j t len (forget_seq x))"
proof -
  obtain p w where x: "x = (p, w)" by force
  obtain t0 where t0: "clk_raw M w = (t0, w)" using clock_quiet_read [OF assms(1)] by blast
  let ?rec = "\<lambda>_ (p, w). case record_at M t0 (qs_submit_stat p) i w of (r, w) \<Rightarrow>
     bind_st (r, p, w) (\<lambda>hs (p, w). (Ok (), p\<lparr>qs_submit_stat := hs\<rparr>, w))"
  have rec: "sim (stats_wf n) forget_seq (?rec a z) (Ok (), forget_seq z)" if z: "stats_wf n z" for a z
  proof -
    obtain q v where q: "z = (q, v)" by force
    obtain hs where "record_at M t0 (qs_submit_stat q) i v = (Ok hs, v)" "length hs = n"
      using record_at_quiet [OF assms(1), of i "qs_submit_stat q" t0 v] z q assms(2) by (auto simp: stats_wf_def)
    with z q show ?thesis by (auto simp: sim_def stats_wf_def)
  qed
  have sent: "sim (stats_wf n) forget_seq (on_seq (seq_send_to E i j t len) (p, w)) (seq_send_to E i j t len (forget_seq (p, w)))"
    by (rule sim_on_seq, erule (2) seq_send_to_shape [OF assms(2)]) (use assms(3) x in simp)
  have "sim (stats_wf n) forget_seq (bind_st (on_seq (seq_send_to E i j t len) (p, w)) ?rec)
      (bind_st (seq_send_to E i j t len (forget_seq (p, w))) (\<lambda>_ z. (Ok (), z)))"
    by (rule sim_bind, rule sent, rule rec)
  then show ?thesis
    using t0 x by (cases "slice_of (sw_scratch (qs_worker p)) 0 len :: (bytes, unit) res")
      (simp_all add: prof_seq_send_to_def seq_send_to_def sim_def)
qed

lemma sim_seq_fill_send:
  assumes "clock_quiet M" and "i < n" and "stats_wf n x"
  shows "sim (stats_wf n) forget_seq (prof_seq_fill_send M E j t i x) (seq_fill_send E j t i (forget_seq x))"
proof -
  obtain p w where x: "x = (p, w)" by force
  obtain t0 where t0: "clk_raw M w = (t0, w)" using clock_quiet_read [OF assms(1)] by blast
  obtain len sc w1 where f: "fill E (provider_of_index i) j (sw_scratch (qs_worker p)) w = (len, sc, w1)" by (metis prod.exhaust)
  obtain hs where r: "record_at M t0 (qs_fill_stat p) i w1 = (Ok hs, w1)" "length hs = n"
    using record_at_quiet [OF assms(1), of i "qs_fill_stat p" t0 w1] assms(2,3) x by (auto simp: stats_wf_def)
  let ?p = "p\<lparr>qs_worker := (qs_worker p)\<lparr>sw_scratch := sc\<rparr>, qs_fill_stat := hs\<rparr>"
  have "stats_wf n (?p, w1)" using assms(3) x r(2) by (simp add: stats_wf_def seq_wf_def)
  from sim_seq_send_to [OF assms(1,2) this, of E j t "unat len"] show ?thesis
    using x t0 f r by (simp add: prof_seq_fill_send_def seq_fill_send_def)
qed

lemma sim_seq_drive:
  "i < n \<Longrightarrow> stats_wf n x \<Longrightarrow> sim (stats_wf n) forget_seq (on_seq (seq_drive E i) x) (seq_drive E i (forget_seq x))"
  by (rule sim_on_seq, rule seq_drive_shape)

lemma sim_seq_service:
  "i < n \<Longrightarrow> stats_wf n x \<Longrightarrow> sim (stats_wf n) forget_seq (on_seq (seq_service E i) x) (seq_service E i (forget_seq x))"
  by (rule sim_on_seq, rule seq_service_shape)

lemma sim_seq_drives:
  assumes "stats_wf n z"
  shows "sim (stats_wf n) forget_seq (case z of (p, w) \<Rightarrow> for_each [0..<length (sw_conns (qs_worker p))] (\<lambda>i. on_seq (seq_drive E i)) (p, w))
    (case forget_seq z of (s, w) \<Rightarrow> for_each [0..<length (sw_conns s)] (seq_drive E) (s, w))"
proof -
  have "sim (stats_wf n) forget_seq (for_each [0..<n] (\<lambda>i. on_seq (seq_drive E i)) z) (for_each [0..<n] (seq_drive E) (forget_seq z))"
    by (rule sim_for_each) (simp_all add: sim_seq_drive assms)
  with assms show ?thesis by (cases z) (simp add: stats_wf_def)
qed

lemma sim_seq_take_job:
  assumes "clock_quiet M" and "stats_wf n x"
  shows "sim (stats_wf n) forget_seq (prof_seq_take_job M E x) (seq_take_job E (forget_seq x))"
proof -
  obtain p w where x: "x = (p, w)" by force
  obtain jo t where pop: "try_pop (job_ring E) (sw_trigger (qs_worker p)) = (jo, t)" by force
  let ?p = "p\<lparr>qs_worker := (qs_worker p)\<lparr>sw_trigger := t\<rparr>\<rparr>"
  have wf: "stats_wf n (?p, w')" for w' using assms(2) x by (simp add: stats_wf_def seq_wf_def)
  show ?thesis
  proof (cases jo)
    case None
    with x pop wf show ?thesis by (simp add: prof_seq_take_job_def seq_take_job_def sim_def)
  next
    case (Some j)
    obtain t1 w1 where t1: "rdtsc (hw E) w = (t1, w1)" by force
    have n: "length (sw_conns (qs_worker p)) = n" using assms(2) x by (simp add: stats_wf_def)
    have 1: "sim (stats_wf n) forget_seq (for_each [0..<n] (prof_seq_fill_send M E j t1) (?p, w1))
        (for_each [0..<n] (seq_fill_send E j t1) (forget_seq (?p, w1)))"
      by (rule sim_for_each) (simp_all add: sim_seq_fill_send [OF assms(1)] wf)
    have "prof_seq_take_job M E x = bind_st (for_each [0..<n] (prof_seq_fill_send M E j t1) (?p, w1)) (\<lambda>_ z.
        case z of (p, w) \<Rightarrow> for_each [0..<length (sw_conns (qs_worker p))] (\<lambda>i. on_seq (seq_drive E i)) (p, w))"
      using x pop Some t1 n by (simp add: prof_seq_take_job_def)
    moreover have "seq_take_job E (forget_seq x) = bind_st (for_each [0..<n] (seq_fill_send E j t1) (forget_seq (?p, w1))) (\<lambda>_ z.
        case z of (s, w) \<Rightarrow> for_each [0..<length (sw_conns s)] (seq_drive E) (s, w))"
      using x pop Some t1 n by (simp add: seq_take_job_def)
    ultimately show ?thesis by (simp only:) (rule sim_bind, rule 1, rule sim_seq_drives)
  qed
qed

lemma sim_seq_publish:
  assumes "hist_blind E" and "stats_wf n x"
  shows "sim (stats_wf n) forget_seq (prof_seq_publish_diag M E x) (seq_publish_diag E (forget_seq x))"
proof -
  let ?F = "\<lambda>i (p, w).
       bind_st (index (qs_fill_stat p) i, p, w) (\<lambda>f (p, w).
       bind_st (index (qs_submit_stat p) i, p, w) (\<lambda>g (p, w).
       bind_st (index (sw_diag (qs_worker p)) i, p, w) (\<lambda>cell (p, w).
       bind_st (index (sw_jobs_sent (qs_worker p)) i, p, w) (\<lambda>m (p, w).
         (Ok (), p, diag_write E cell
            \<lparr>wd_alive = True, wd_jobs_sent = m, wd_fill_ns = hist_snap M f, wd_submit_ns = hist_snap M g\<rparr> w)))))"
  have d: "length (sw_diag (qs_worker (fst x))) = n" "sw_diag (fst (forget_seq x)) = sw_diag (qs_worker (fst x))"
    using assms(2) by (cases x, simp add: stats_wf_def seq_wf_def)+
  have "sim (stats_wf n) forget_seq (for_each [0..<n] ?F x) (for_each [0..<n] (\<lambda>i (s, w).
       bind_st (index (sw_diag s) i, s, w) (\<lambda>cell (s, w).
       bind_st (index (sw_jobs_sent s) i, s, w) (\<lambda>m (s, w).
         (Ok (), s, diag_write E cell
            \<lparr>wd_alive = True, wd_jobs_sent = m, wd_fill_ns = hist_default, wd_submit_ns = hist_default\<rparr> w)))) (forget_seq x))"
    by (rule sim_for_each)
       (use assms(2) hist_blind_write [OF assms(1)] in \<open>auto simp: sim_def stats_wf_def seq_wf_def index_def split: prod.splits\<close>)
  then show ?thesis unfolding prof_seq_publish_diag_def seq_publish_diag_def d .
qed

lemma sim_seq_maintain:
  assumes "hist_blind E" and "stats_wf n x"
  shows "sim (stats_wf n) forget_seq (prof_seq_maintain M E x) (seq_maintain E (forget_seq x))"
  unfolding prof_seq_maintain_def seq_maintain_def
  by (rule sim_bind, rule sim_on_seq, rule standby_deliveries_shape, assumption+, rule assms(2), rule sim_seq_publish [OF assms(1)])

lemma sim_seq_rest:
  assumes "hist_blind E" and "stats_wf n z"
  shows "sim (stats_wf n) forget_seq
    (if is_empty (job_ring E) (sw_trigger (qs_worker (fst z))) then prof_seq_maintain M E (prof_seq_idle E z) else (Ok (), z))
    (if is_empty (job_ring E) (sw_trigger (fst (forget_seq z))) then seq_maintain E (seq_idle E (forget_seq z)) else (Ok (), forget_seq z))"
proof -
  have "stats_wf n (prof_seq_idle E z)" and f: "forget_seq (prof_seq_idle E z) = seq_idle E (forget_seq z)"
    and t: "sw_trigger (fst (forget_seq z)) = sw_trigger (qs_worker (fst z))"
    using assms(2) by (cases z, simp add: prof_seq_idle_def seq_idle_def stats_wf_def)+
  from sim_seq_maintain [OF assms(1) this(1), of M] assms(2) show ?thesis by (auto simp: f t sim_def)
qed

text \<open>What follows the service of the connections.\<close>

lemma sim_seq_finish:
  assumes "hist_blind E" and "stats_wf n x"
  shows "sim (stats_wf n) forget_seq
    (case x of (p, w) \<Rightarrow> let s = qs_worker p; tick = sw_tick s + 1; p = p\<lparr>qs_worker := s\<lparr>sw_tick := tick\<rparr>\<rparr>
     in bind_st (if tick AND PERIODIC_MASK = 0 then prof_seq_maintain M E (p, w) else (Ok (), p, w)) (\<lambda>_ x.
        if is_empty (job_ring E) (sw_trigger (qs_worker (fst x))) then prof_seq_maintain M E (prof_seq_idle E x) else (Ok (), x)))
    (seq_finish E (forget_seq x))"
proof -
  obtain p w where x: "x = (p, w)" by force
  let ?p = "p\<lparr>qs_worker := (qs_worker p)\<lparr>sw_tick := sw_tick (qs_worker p) + 1\<rparr>\<rparr>"
  have wf: "stats_wf n (?p, w)" using assms(2) x by (simp add: stats_wf_def seq_wf_def)
  have 1: "sim (stats_wf n) forget_seq
      (if sw_tick (qs_worker p) + 1 AND PERIODIC_MASK = 0 then prof_seq_maintain M E (?p, w) else (Ok (), ?p, w))
      (if sw_tick (qs_worker p) + 1 AND PERIODIC_MASK = 0 then seq_maintain E (forget_seq (?p, w)) else (Ok (), forget_seq (?p, w)))"
    using sim_seq_maintain [OF assms(1) wf] wf by (simp add: sim_def)
  from x have "seq_finish E (forget_seq x) = bind_st
      (if sw_tick (qs_worker p) + 1 AND PERIODIC_MASK = 0 then seq_maintain E (forget_seq (?p, w)) else (Ok (), forget_seq (?p, w)))
      (\<lambda>_ x. if is_empty (job_ring E) (sw_trigger (fst x)) then seq_maintain E (seq_idle E x) else (Ok (), x))"
    by (simp add: seq_finish_def)
  then show ?thesis
    unfolding x prod.case Let_def by (simp only:) (rule sim_bind, rule 1, rule sim_seq_rest [OF assms(1)])
qed

lemma sim_seq_services:
  assumes "stats_wf n z"
  shows "sim (stats_wf n) forget_seq (for_each [0..<length (sw_conns (qs_worker (fst z)))] (\<lambda>i. on_seq (seq_service E i)) z)
    (for_each [0..<length (sw_conns (fst (forget_seq z)))] (seq_service E) (forget_seq z))"
proof -
  have "length (sw_conns (qs_worker (fst z))) = n" "length (sw_conns (fst (forget_seq z))) = n"
    using assms by (cases z, simp add: stats_wf_def)+
  then show ?thesis by (simp only:) (rule sim_for_each, simp_all add: sim_seq_service assms)
qed

lemma sim_seq_iteration:
  assumes "clock_quiet M" and "hist_blind E" and "stats_wf n x"
  shows "sim (stats_wf n) forget_seq (prof_seq_iteration M E x) (seq_iteration E (forget_seq x))"
proof -
  show ?thesis
    unfolding prof_seq_iteration_def seq_iteration_finish
    by (rule sim_bind, rule sim_seq_take_job [OF assms(1,3)], rule sim_bind, erule sim_seq_services, rule sim_seq_finish [OF assms(2)])
qed

lemma forget_seq_iteration:
  assumes "clock_quiet M" and "hist_blind E" and "stats_wf n x"
  shows "seq_iteration E (forget_seq x) = apsnd forget_seq (prof_seq_iteration M E x)"
    and "prof_seq_iteration M E x = (Ok (), x') \<Longrightarrow> stats_wf n x'"
  using sim_seq_iteration [OF assms, unfolded sim_def] by (simp, blast)

section \<open>Property\<close>

text \<open>
  C15. The feature \<open>profiling\<close> changes nothing but the published histograms: if reading the clock has
  no effect and nobody looks at the histograms in the diagnostics cells, the profiled loop of
  either worker ends exactly when the plain loop does, with the same result, the same state apart
  from its own histograms, and the same effects on the world. In particular indexing the
  vectors of histograms never panics.
\<close>

theorem profiling_transparent:
  assumes "clock_quiet M" and "hist_blind E" and "stats_wf n (q, v)"
  shows "map_option (apsnd forget) (prof_run M E (p, w)) = par_run E (pp_worker p, w)
    \<and> map_option (apsnd forget_seq) (prof_seq_run M E (q, v)) = seq_run E (qs_worker q, v)"
proof
  have "while_ok (\<lambda>x. stop_load E (snd x)) (par_iteration E) (forget (p, w))
      = map_option (apsnd forget) (while_ok (\<lambda>x. stop_load E (snd x)) (prof_iteration M E) (p, w))"
    by (rule while_ok_simulates [where I = "\<lambda>_. True"]) (simp_all add: forget_iteration [OF assms(1,2)])
  then show "map_option (apsnd forget) (prof_run M E (p, w)) = par_run E (pp_worker p, w)"
    by (simp add: prof_run_def par_run_while)
  have "while_ok (\<lambda>x. stop_load E (snd x)) (seq_iteration E) (forget_seq (q, v))
      = map_option (apsnd forget_seq) (while_ok (\<lambda>x. stop_load E (snd x)) (prof_seq_iteration M E) (q, v))"
    by (rule while_ok_simulates [where I = "stats_wf n"])
       (simp, erule forget_seq_iteration(1) [OF assms(1,2)], erule (1) forget_seq_iteration(2) [OF assms(1,2)], rule assms(3))
  then show "map_option (apsnd forget_seq) (prof_seq_run M E (q, v)) = seq_run E (qs_worker q, v)"
    by (simp add: prof_seq_run_def seq_run_while)
qed

text \<open>A histogram that keeps its values, and workers that stop after a failover.\<close>

definition list_prof :: "(64 word list, 'w) prof_ops" where
  "list_prof = \<lparr>clk_raw = (\<lambda>w. (0, w)), delta_as_nanos = (\<lambda>a b. b - a), hist_new = (\<lambda>_. Some []),
     hist_record = (\<lambda>v h. (True, h @ [v])), value_at_quantile = (\<lambda>_ h. if h = [] then 0 else hd h),
     hist_max = (\<lambda>h. Max (insert 0 (set h))), hist_len = (\<lambda>h. of_nat (length h))\<rparr>"

definition until_request :: "(script, unit, nat \<times> job list, nat \<times> raw_resp list, script_world) worker_env" where
  "until_request = script_env\<lparr>xchan := feeding, stop_load := (\<lambda>w. xw_reqs w \<noteq> [])\<rparr>"

definition failing_seq :: "(script, unit, nat \<times> job list, nat \<times> raw_resp list) seq_worker" where
  "failing_seq = script_seq [([], [Err (Io (Simple UnexpectedEof))])] [job1]"

lemma failing_seq_ends: "seq_run until_request (failing_seq, quiet_world) \<noteq> None"
proof -
  have "seq_run until_request (failing_seq, quiet_world) = map_option (lift_at 0 failing_seq) (par_run until_request (proj 0 failing_seq, quiet_world))"
    unfolding failing_seq_def
  proof (rule run_single)
    show "single until_request (script_seq [([], [Err (Io (Simple UnexpectedEof))])] [job1])"
      using script_seq_wf feeding_own [of until_request 1] feeding_http [of until_request]
      by (simp add: single_def script_seq_sel until_request_def script_env_def script_conn_def)
  qed (simp add: script_seq_def seq_new_def http_worker_def active_conn_def dual_new_def Let_def)
  with stops_after_failover show ?thesis by (simp add: until_request_def failing_seq_def)
qed

theorem profiling_transparent_witness:
  "\<exists>y z. prof_run list_prof until_request (\<lparr>pp_worker = proj 0 failing_seq, pp_fill_stat = [], pp_submit_stat = []\<rparr>, quiet_world) = Some y
     \<and> par_run until_request (proj 0 failing_seq, quiet_world) = Some (apsnd forget y)
     \<and> prof_seq_run list_prof until_request (\<lparr>qs_worker = failing_seq, qs_fill_stat = [[]], qs_submit_stat = [[]]\<rparr>, quiet_world) = Some z
     \<and> seq_run until_request (failing_seq, quiet_world) = Some (apsnd forget_seq z)"
proof -
  let ?p = "\<lparr>pp_worker = proj 0 failing_seq, pp_fill_stat = [] :: 64 word list, pp_submit_stat = []\<rparr>"
  let ?q = "\<lparr>qs_worker = failing_seq, qs_fill_stat = [[] :: 64 word list], qs_submit_stat = [[]]\<rparr>"
  have t: "map_option (apsnd forget) (prof_run list_prof until_request (?p, quiet_world)) = par_run until_request (pp_worker ?p, quiet_world)
    \<and> map_option (apsnd forget_seq) (prof_seq_run list_prof until_request (?q, quiet_world)) = seq_run until_request (qs_worker ?q, quiet_world)"
  proof (rule profiling_transparent)
    show "clock_quiet list_prof" by (simp add: clock_quiet_def list_prof_def)
    show "hist_blind until_request" by (simp add: hist_blind_def until_request_def script_env_def)
    show "stats_wf 1 (?q, quiet_world)" using script_seq_wf by (simp add: stats_wf_def failing_seq_def script_seq_sel)
  qed
  from stops_after_failover have "par_run until_request (proj 0 failing_seq, quiet_world) \<noteq> None"
    by (simp add: until_request_def failing_seq_def)
  with t failing_seq_ends show ?thesis by auto
qed

end
