(* ===== verification/Send_Real_Tx.thy ===== *)
theory Send_Real_Tx
  imports Connect Libtpa
begin

text \<open>
  The example program \<open>examples/send_real_tx.rs\<close> up to the point where it has a provider
  configuration and a serialized transaction: reading its environment variables, the parsers it
  brings along, its transaction source and its sink. Keys, hashes, signing and serialization are
  those of the Solana crates and bincode.
\<close>

section \<open>Constants, source and sink\<close>

definition DEFAULT_CU_PRICE :: nat where
  "DEFAULT_CU_PRICE = 100000"

definition DEFAULT_CU_LIMIT :: nat where
  "DEFAULT_CU_LIMIT = 100000"

definition EXAMPLE_MAX_BODY :: nat where
  "EXAMPLE_MAX_BODY = 1644"

text \<open>\<open>copy_from_slice\<close> into the front of the array; both the index and the slice can panic.\<close>

definition prepared_fill :: "bytes list \<Rightarrow> provider_id \<Rightarrow> bytes \<Rightarrow> (16 word \<times> bytes, 'e) res" where
  "prepared_fill per_provider pid outb =
     bind_res (index per_provider (provider_idx pid)) (\<lambda>bs.
       if length bs \<le> length outb then Ok (of_nat (length bs), bs @ drop (length bs) outb) else Panic)"

text \<open>The mutex can be poisoned and the receiver gone; both are ignored.\<close>

record print_sink =
  ps_poisoned :: bool
  ps_connected :: bool
  ps_sent :: "provider_outcome list"

definition print_sink_on_result :: "provider_outcome \<Rightarrow> print_sink \<Rightarrow> print_sink" where
  "print_sink_on_result oc s =
     (if \<not> ps_poisoned s \<and> ps_connected s then s\<lparr>ps_sent := ps_sent s @ [oc]\<rparr> else s)"

section \<open>Parsers\<close>

text \<open>
  How the program gives up: exit code 2 after the given lines on the standard error stream, or an
  error returned from \<open>main\<close>.
\<close>

datatype give_up = Exit_2 "bytes list" | Boxed bytes

definition USAGE :: "bytes list" where
  \<open>USAGE =
    [''send_real_tx builds a real signed Solana transaction with a provider tip and'',
     ''submits it through tx-sender\'s Sequential io_uring HTTP path over TLS.'',
     [],
     ''Required environment variables:'',
     ''  TXSENDER_ENDPOINT      host[:port]/path of the SWQoS/RPC endpoint'',
     ''                         (e.g. mainnet.block-engine.jito.wtf/api/v1/transactions)'',
     ''  TXSENDER_KEYPAIR       path to a solana id.json (64-byte JSON array)'',
     ''                         or a base58-encoded 64-byte secret key'',
     ''  TXSENDER_TIP_ACCOUNT   base58 pubkey of the provider tip account'',
     ''  TXSENDER_TIP_LAMPORTS  tip amount in lamports (u64)'',
     [],
     ''Optional environment variables:'',
     ''  TXSENDER_AUTH          HTTP auth header as "Name: value"'',
     ''  TXSENDER_CU_PRICE      compute unit price in micro-lamports (default 100000)'',
     ''  TXSENDER_CU_LIMIT      compute unit limit (default 100000)'',
     ''  TXSENDER_BLOCKHASH     base58 recent blockhash to sign with'',
     ''  TXSENDER_BLOCKHASH_RPC RPC URL to fetch a fresh blockhash when the above is unset'']\<close>

definition usage_and_exit :: "bytes list \<Rightarrow> ('a, give_up) res" where
  "usage_and_exit before = Err (Exit_2 (before @ USAGE))"

definition find_char :: "u8 \<Rightarrow> bytes \<Rightarrow> nat option" where
  "find_char c s = (if c \<in> set s then Some (length (takeWhile (\<lambda>x. x \<noteq> c) s)) else None)"

definition split_once :: "u8 \<Rightarrow> bytes \<Rightarrow> (bytes \<times> bytes) option" where
  "split_once c s = map_option (\<lambda>k. (take k s, drop (Suc k) s)) (find_char c s)"

fun split_char :: "u8 \<Rightarrow> bytes \<Rightarrow> bytes list" where
  "split_char c [] = [[]]"
| "split_char c (x # xs) =
     (let ts = split_char c xs in if x = c then [] # ts else (x # hd ts) # tl ts)"

definition strip_prefix :: "u8 \<Rightarrow> bytes \<Rightarrow> bytes option" where
  "strip_prefix c s = (case s of x # xs \<Rightarrow> if x = c then Some xs else None | [] \<Rightarrow> None)"

definition parse_endpoint :: "bytes \<Rightarrow> (http_endpoint, give_up) res" where
  "parse_endpoint raw =
     (let (authority, path) = (case find_char (CHR ''/'') raw of
            Some pos \<Rightarrow> (take pos raw, drop pos raw)
          | None \<Rightarrow> (raw, ''/''))
      in bind_res (case rsplit_once (CHR '':'') authority of
             Some (h, p) \<Rightarrow>
               (case parse_unsigned (2 ^ 16) p of
                  Some port \<Rightarrow> Ok (h, of_nat port)
                | None \<Rightarrow> Err (Exit_2 [''invalid port in TXSENDER_ENDPOINT: '' @ p]))
           | None \<Rightarrow> Ok (authority, 443)) (\<lambda>(h, port).
         Ok \<lparr>ep_host = h, ep_port = port, ep_path = path, ep_server_name = h\<rparr>))"

text \<open>The loop over the tokens; \<open>int_error\<close> is the text of a \<open>ParseIntError\<close>.\<close>

fun parse_tokens :: "(bytes \<Rightarrow> bytes) \<Rightarrow> bytes list \<Rightarrow> (bytes, give_up) res" where
  "parse_tokens int_error [] = Ok []"
| "parse_tokens int_error (tok # toks) =
     (let tok = trim tok
      in if tok = [] then parse_tokens int_error toks
         else case parse_unsigned 256 tok of
                None \<Rightarrow> Err (Boxed (int_error tok))
              | Some v \<Rightarrow> bind_res (parse_tokens int_error toks) (\<lambda>vs. Ok (char_of v # vs)))"

definition serde_json_array :: "(bytes \<Rightarrow> bytes) \<Rightarrow> bytes \<Rightarrow> (bytes, give_up) res" where
  "serde_json_array int_error contents =
     bind_res (ok_or (Boxed ''keypair file is not a JSON array'')
                (Option.bind (strip_prefix (CHR ''['') (trim contents)) (strip_suffix (CHR '']''))))
       (\<lambda>inner. parse_tokens int_error (split_char (CHR '','') inner))"

section \<open>Configuration\<close>

text \<open>
  The environment and the Solana crates. \<open>env_var\<close> knows the variables that are set to valid
  Unicode; \<open>read_to_string\<close> the readable text files. \<open>from_base58_string\<close> panics on bad input, and
  so does \<open>new_signed_with_payer\<close> when signing fails. The instructions are kept as the calls that
  make them; \<open>tx_signatures\<close> are the signatures as they are printed.
\<close>

datatype 'pk instruction = SetComputeUnitLimit nat | SetComputeUnitPrice nat | TransferLamports 'pk 'pk nat

record ('kp, 'pk, 'hash, 'txn) example_env =
  env_var :: "bytes \<Rightarrow> bytes option"
  read_to_string :: "bytes \<Rightarrow> bytes option"
  keypair_try_from :: "bytes \<Rightarrow> ('kp, bytes) res"
  keypair_from_base58 :: "bytes \<Rightarrow> ('kp, give_up) res"
  keypair_pubkey :: "'kp \<Rightarrow> 'pk"
  pubkey_from_str :: "bytes \<Rightarrow> ('pk, bytes) res"
  hash_from_str :: "bytes \<Rightarrow> ('hash, bytes) res"
  get_latest_blockhash :: "bytes \<Rightarrow> ('hash, bytes) res"
  parse_int_error :: "bytes \<Rightarrow> bytes"
  new_signed_with_payer :: "'pk instruction list \<Rightarrow> 'pk \<Rightarrow> 'kp \<Rightarrow> 'hash \<Rightarrow> ('txn, give_up) res"
  bincode_serialize :: "'txn \<Rightarrow> (bytes, bytes) res"
  tx_signatures :: "'txn \<Rightarrow> bytes list"
  show_pubkey :: "'pk \<Rightarrow> bytes"
  show_hash :: "'hash \<Rightarrow> bytes"

definition require :: "('kp, 'pk, 'hash, 'txn) example_env \<Rightarrow> bytes \<Rightarrow> (bytes, give_up) res" where
  "require X name =
     (let missing = usage_and_exit [''missing required environment variable: '' @ name, []]
      in case env_var X name of
           Some v \<Rightarrow> if v \<noteq> [] then Ok v else missing
         | None \<Rightarrow> missing)"

definition load_keypair :: "('kp, 'pk, 'hash, 'txn) example_env \<Rightarrow> bytes \<Rightarrow> ('kp, give_up) res" where
  "load_keypair X raw =
     (case read_to_string X raw of
        Some contents \<Rightarrow>
          bind_res (serde_json_array (parse_int_error X) contents) (\<lambda>bs.
            if length bs \<noteq> 64 then Err (Boxed ''keypair file must contain a 64-byte array'')
            else map_err Boxed (keypair_try_from X bs))
      | None \<Rightarrow> keypair_from_base58 X raw)"

definition resolve_auth :: "('kp, 'pk, 'hash, 'txn) example_env \<Rightarrow> (http_auth, give_up) res" where
  "resolve_auth X =
     (case env_var X ''TXSENDER_AUTH'' of
        Some raw \<Rightarrow>
          (if raw \<noteq> [] then
             (case split_once (CHR '':'') raw of
                Some (name, value) \<Rightarrow> Ok (HeaderAuth (trim name) (trim value))
              | None \<Rightarrow> Err (Exit_2 [''TXSENDER_AUTH must be in the form '' @ QUOTE # ''Name: value'' @ [QUOTE]]))
           else Ok NoAuth)
      | None \<Rightarrow> Ok NoAuth)"

definition NO_BLOCKHASH :: bytes where
  "NO_BLOCKHASH = ''set TXSENDER_BLOCKHASH (base58) or TXSENDER_BLOCKHASH_RPC (RPC URL) to obtain a recent blockhash''"

definition resolve_blockhash :: "('kp, 'pk, 'hash, 'txn) example_env \<Rightarrow> ('hash, give_up) res" where
  "resolve_blockhash X =
     (case env_var X ''TXSENDER_BLOCKHASH'' of
        Some (c # cs) \<Rightarrow> map_err (\<lambda>e. Boxed (''invalid TXSENDER_BLOCKHASH: '' @ e)) (hash_from_str X (c # cs))
      | _ \<Rightarrow>
          (case env_var X ''TXSENDER_BLOCKHASH_RPC'' of
             Some (c # cs) \<Rightarrow> map_err Boxed (get_latest_blockhash X (c # cs))
           | _ \<Rightarrow> Err (Boxed NO_BLOCKHASH)))"

text \<open>\<open>.ok().and_then(parse).unwrap_or(default)\<close>.\<close>

definition env_number :: "('kp, 'pk, 'hash, 'txn) example_env \<Rightarrow> nat \<Rightarrow> nat \<Rightarrow> bytes \<Rightarrow> nat" where
  "env_number X bound dflt name =
     (case Option.bind (env_var X name) (parse_unsigned bound) of Some v \<Rightarrow> v | None \<Rightarrow> dflt)"

text \<open>The variables of \<open>main\<close> that are used after the check of the transaction's size.\<close>

record ('pk, 'hash) prepared_tx =
  pt_endpoint :: http_endpoint
  pt_payer :: 'pk
  pt_tip_account :: 'pk
  pt_tip_lamports :: nat
  pt_cu_price :: nat
  pt_cu_limit :: nat
  pt_auth :: http_auth
  pt_blockhash :: 'hash
  pt_bytes :: bytes
  pt_signature :: bytes

definition prepare_tx ::
  "('kp, 'pk, 'hash, 'txn) example_env \<Rightarrow> (('pk, 'hash) prepared_tx, give_up) res" where
  "prepare_tx X =
     bind_res (require X ''TXSENDER_ENDPOINT'') (\<lambda>endpoint_raw.
     bind_res (require X ''TXSENDER_KEYPAIR'') (\<lambda>keypair_raw.
     bind_res (require X ''TXSENDER_TIP_ACCOUNT'') (\<lambda>tip_account_raw.
     bind_res (require X ''TXSENDER_TIP_LAMPORTS'') (\<lambda>tip_lamports_raw.
     bind_res (parse_endpoint endpoint_raw) (\<lambda>endpoint.
     bind_res (load_keypair X keypair_raw) (\<lambda>keypair.
     let payer = keypair_pubkey X keypair
     in bind_res (map_err (\<lambda>e. Boxed (''invalid TXSENDER_TIP_ACCOUNT: '' @ e)) (pubkey_from_str X tip_account_raw)) (\<lambda>tip_account.
     bind_res (ok_or (Boxed (''invalid TXSENDER_TIP_LAMPORTS: '' @ parse_int_error X tip_lamports_raw))
                 (parse_unsigned (2 ^ 64) tip_lamports_raw)) (\<lambda>tip_lamports.
     let cu_price = env_number X (2 ^ 64) DEFAULT_CU_PRICE ''TXSENDER_CU_PRICE'';
         cu_limit = env_number X (2 ^ 32) DEFAULT_CU_LIMIT ''TXSENDER_CU_LIMIT''
     in bind_res (resolve_auth X) (\<lambda>au.
        bind_res (resolve_blockhash X) (\<lambda>blockhash.
        let instructions = [SetComputeUnitLimit cu_limit, SetComputeUnitPrice cu_price, TransferLamports payer tip_account tip_lamports]
        in bind_res (new_signed_with_payer X instructions payer keypair blockhash) (\<lambda>txn.
        bind_res (map_err Boxed (bincode_serialize X txn)) (\<lambda>bs.
          if length bs > MAX_TX_LEN
          then Err (Boxed (''serialized transaction is '' @ decimal (length bs) @ '' bytes, exceeds MAX_TX_LEN ('' @ decimal MAX_TX_LEN @ '')''))
          else Ok \<lparr>pt_endpoint = endpoint, pt_payer = payer, pt_tip_account = tip_account, pt_tip_lamports = tip_lamports,
                   pt_cu_price = cu_price, pt_cu_limit = cu_limit, pt_auth = au, pt_blockhash = blockhash, pt_bytes = bs,
                   pt_signature = (case tx_signatures X txn of [] \<Rightarrow> [] | sg # _ \<Rightarrow> sg)\<rparr>))))))))))))"

definition example_provider :: "http_endpoint \<Rightarrow> http_auth \<Rightarrow> provider_config" where
  "example_provider endpoint au =
     \<lparr>pc_protocol = Http_Protocol, pc_endpoint = endpoint, pc_quic_endpoint = None, pc_quic_profile = None,
      pc_quic_auth = None, pc_auth = au, pc_max_body = EXAMPLE_MAX_BODY, pc_body_template = [], pc_codec = json_rpc_parse\<rparr>"

section \<open>Lemmas\<close>

lemma find_char_append: "c \<notin> set a \<Longrightarrow> find_char c (a @ c # b) = Some (length a)"
  by (simp add: find_char_def takeWhile_append)

lemma find_char_None: "c \<notin> set a \<Longrightarrow> find_char c a = None"
  by (simp add: find_char_def)

text \<open>An endpoint written as \<open>host:port/path\<close> is read back.\<close>

lemma parse_endpoint_printed:
  assumes "CHR '':'' \<notin> set h" and "CHR ''/'' \<notin> set h"
  shows "parse_endpoint (h @ '':'' @ decimal (unat port) @ ''/'' @ path)
    = Ok \<lparr>ep_host = h, ep_port = port, ep_path = ''/'' @ path, ep_server_name = h\<rparr>"
proof -
  have d: "CHR '':'' \<notin> set (decimal (unat port))" "CHR ''/'' \<notin> set (decimal (unat port))"
    using decimal_digits [of "CHR '':''" "unat port"] decimal_digits [of "CHR ''/''" "unat port"]
    by (auto simp: is_ascii_digit_def)
  have "find_char (CHR ''/'') ((h @ '':'' @ decimal (unat port)) @ CHR ''/'' # path) = Some (length (h @ '':'' @ decimal (unat port)))"
    using assms(2) d(2) by (intro find_char_append) simp
  moreover have "rsplit_once (CHR '':'') (h @ CHR '':'' # decimal (unat port)) = Some (h, decimal (unat port))"
    using d(1) by (rule rsplit_once_append)
  moreover have "unat port < 2 ^ 16" using unsigned_less [of port] by simp
  ultimately show ?thesis
    by (simp add: parse_endpoint_def parse_unsigned_decimal)
qed

text \<open>The array a keypair file holds.\<close>

fun join :: "bytes \<Rightarrow> bytes list \<Rightarrow> bytes" where
  "join sep [] = []"
| "join sep [x] = x"
| "join sep (x # y # xs) = x @ sep @ join sep (y # xs)"

lemma split_char_append: "c \<notin> set a \<Longrightarrow> split_char c (a @ c # b) = a # split_char c b"
  by (induction a) (auto simp: Let_def)

lemma split_char_none: "c \<notin> set a \<Longrightarrow> split_char c a = [a]"
  by (induction a) (auto simp: Let_def)

lemma split_char_join:
  "xs \<noteq> [] \<Longrightarrow> list_all (\<lambda>x. c \<notin> set x) xs \<Longrightarrow> split_char c (join [c] xs) = xs"
  by (induction "[c]" xs rule: join.induct) (simp_all add: split_char_none split_char_append)

lemma trim_decimal: "trim (decimal n) = decimal n"
  using trim_decimal_padded [of n 0] by (simp add: trim_def)

lemma parse_tokens_decimal: "parse_tokens ie (map (\<lambda>b. decimal (byte b)) bs) = Ok bs"
  by (induction bs) (simp_all add: trim_decimal parse_unsigned_decimal Let_def)

lemma keypair_file_read_back:
  assumes "bs \<noteq> []"
  shows "serde_json_array ie (''['' @ join '','' (map (\<lambda>b. decimal (byte b)) bs) @ '']'') = Ok bs"
proof -
  let ?ts = "map (\<lambda>b. decimal (byte b)) bs"
  have "visible (CHR ''['')" "visible (CHR '']'')" by (simp_all add: visible_def)
  then have "trim (''['' @ join '','' ?ts @ '']'') = ''['' @ join '','' ?ts @ '']''"
    using trim_start_visible [of "CHR ''[''"] trim_end_visible [of "CHR '']''" "''['' @ join '','' ?ts"] by (simp add: trim_def)
  moreover have "list_all (\<lambda>x. CHR '','' \<notin> set x) ?ts"
    using decimal_digits [of "CHR '',''"] by (auto simp: list_all_iff is_ascii_digit_def)
  then have "split_char (CHR '','') (join '','' ?ts) = ?ts" using assms by (intro split_char_join) simp
  ultimately show ?thesis
    by (simp add: serde_json_array_def strip_prefix_def strip_suffix_def parse_tokens_decimal)
qed

text \<open>The transaction that passed the size check fits the array and its length fits 16 bits.\<close>

lemma prepared_fill_fits:
  assumes "length bs \<le> MAX_TX_LEN" and "length outb = MAX_TX_LEN"
  shows "prepared_fill [bs] (provider_of_index 0) outb = Ok (of_nat (length bs), bs @ drop (length bs) outb)"
    and "unat (of_nat (length bs) :: 16 word) = length bs"
  using assms
  by (simp_all add: prepared_fill_def index_def provider_idx_def provider_of_index_def MAX_TX_LEN_def
      unat_of_nat take_bit_nat_eq_self)

end
