(* ===== verification/Example_Main.thy ===== *)
theory Example_Main
  imports Send_Real_Tx Sender_Props
begin

text \<open>
  \<open>main\<close> of \<open>examples/send_real_tx.rs\<close>: it prepares one transaction, builds a sender for one HTTP
  provider on the sequential \<open>io_uring\<close> transport, triggers one job, waits ten seconds for its outcome
  and prints it.
\<close>

section \<open>Output\<close>

datatype stream = Stdout | Stderr

text \<open>
  The console, the receiving end of the sink's channel, which waits for a number of
  milliseconds, and the derived \<open>Debug\<close> text of a transport error. \<open>sink_update\<close> changes the sink, which
  is shared with the lane's thread.
\<close>

record 'w example_io =
  print_line :: "stream \<Rightarrow> bytes \<Rightarrow> 'w \<Rightarrow> 'w"
  recv_timeout :: "nat \<Rightarrow> 'w \<Rightarrow> provider_outcome option \<times> 'w"
  sink_update :: "(print_sink \<Rightarrow> print_sink) \<Rightarrow> 'w \<Rightarrow> 'w"
  debug_transport :: "transport_error \<Rightarrow> bytes"

definition print_all :: "'w example_io \<Rightarrow> (stream \<times> bytes) list \<Rightarrow> 'w \<Rightarrow> 'w" where
  "print_all O' = fold (\<lambda>(st, l). print_line O' st l)"

definition summary_lines :: "('kp, 'pk, 'hash, 'txn) example_env \<Rightarrow> ('pk, 'hash) prepared_tx \<Rightarrow> bytes list" where
  "summary_lines X p =
     [''endpoint     '' @ ep_host (pt_endpoint p) @ '':'' @ decimal (unat (ep_port (pt_endpoint p))) @ ep_path (pt_endpoint p),
      ''payer        '' @ show_pubkey X (pt_payer p),
      ''tip account  '' @ show_pubkey X (pt_tip_account p),
      ''tip lamports '' @ decimal (pt_tip_lamports p),
      ''cu price     '' @ decimal (pt_cu_price p),
      ''cu limit     '' @ decimal (pt_cu_limit p),
      ''blockhash    '' @ show_hash X (pt_blockhash p),
      ''tx size      '' @ decimal (length (pt_bytes p)) @ '' bytes'',
      ''signature    '' @ pt_signature p]"

definition report_lines :: "(transport_error \<Rightarrow> bytes) \<Rightarrow> provider_outcome option \<Rightarrow> (stream \<times> bytes) list" where
  "report_lines dbg r =
     (case r of
        Some oc \<Rightarrow>
          (case po_kind oc of
             Accepted sg \<Rightarrow> [(Stdout, ''accepted signature '' @ sg), (Stdout, ''https://solscan.io/tx/'' @ sg)]
           | Rejected code msg \<Rightarrow> [(Stderr, ''rejected code '' @ decimal_int code @ '': '' @ msg)]
           | Transport e \<Rightarrow> [(Stderr, ''transport error: '' @ dbg e)]
           | NoResponse \<Rightarrow> [(Stderr, ''no response from endpoint'')])
      | None \<Rightarrow> [(Stderr, ''timed out waiting for an outcome'')])"

section \<open>The sender\<close>

text \<open>
  The source of the sender. Where \<open>fill\<close> panics, which \<open>example_source_exact\<close> excludes for the worker's calls,
  it leaves the array alone.
\<close>

definition example_source :: "bytes \<Rightarrow> 'w tx_source" where
  "example_source bs pid j outb w =
     (case prepared_fill [bs] pid outb :: (16 word \<times> bytes, unit) res of
        Ok (len, outb) \<Rightarrow> (len, outb, w)
      | _ \<Rightarrow> (0, outb, w))"

definition example_builder ::
  "'w example_io \<Rightarrow> 't tls_ops \<Rightarrow> ('pk, 'hash) prepared_tx \<Rightarrow> ('t, 'w) sender_builder" where
  "example_builder O' tl_cfg p =
     set_sink (\<lambda>oc. sink_update O' (print_sink_on_result oc))
       (set_source (example_source (pt_bytes p))
         (add_provider (example_provider (pt_endpoint p) (pt_auth p))
           (set_tls tl_cfg
             (set_transport (sequential_io_uring BatchSyscall) sender_builder_new))))"

definition debug_trigger :: "trigger_error \<Rightarrow> bytes" where
  "debug_trigger e = (case e of Backpressure \<Rightarrow> ''Backpressure'')"

text \<open>\<open>main\<close> from the summary on.\<close>

definition send_prepared ::
  "('kp, 'pk, 'hash, 'txn) example_env \<Rightarrow> 'w example_io \<Rightarrow> ('ta, 'store, 't tls_ops) root_ops
     \<Rightarrow> ('t, 'r, 'ep, 'cn, 'cc, 'ee, 'ce, 'ckp, 'rc, 'jq, 'rq, 'w) sender_env \<Rightarrow> ('pk, 'hash) prepared_tx
     \<Rightarrow> ('t, 'r, 'ep, 'cn, 'jq, 'rq, 'w) threads \<Rightarrow> (unit, give_up) res \<times> ('t, 'r, 'ep, 'cn, 'jq, 'rq, 'w) threads" where
  "send_prepared X O' R E p = (\<lambda>(ts, w).
     let w = print_all O' (map (Pair Stderr) (summary_lines X p)) w;
         w = sink_update O' (\<lambda>_. \<lparr>ps_poisoned = False, ps_connected = True, ps_sent = []\<rparr>) w
     in case sender_build E (example_builder O' (real_roots_client_config R) p) (ts, w) of (r, x) \<Rightarrow>
        bind_st (map_err (\<lambda>e. Boxed (''failed to build sender: '' @ se_debug E e)) r, x) (\<lambda>sender x.
        case sender_trigger (se_job_ring E) \<lparr>job_id = 1, job_ctx = 0\<rparr> sender of (r, sender) \<Rightarrow>
        bind_st (map_err (\<lambda>e. Boxed (''failed to trigger job: '' @ debug_trigger e)) r, x) (\<lambda>_ (ts, w).
        case recv_timeout O' 10000 w of (oc, w) \<Rightarrow>
        let w = print_all O' (report_lines (debug_transport O') oc) w
        in case shutdown E sender w of (r, w) \<Rightarrow> (discard r, ts, w))))"

definition example_main ::
  "('kp, 'pk, 'hash, 'txn) example_env \<Rightarrow> 'w example_io \<Rightarrow> ('ta, 'store, 't tls_ops) root_ops
     \<Rightarrow> ('t, 'r, 'ep, 'cn, 'cc, 'ee, 'ce, 'ckp, 'rc, 'jq, 'rq, 'w) sender_env
     \<Rightarrow> ('t, 'r, 'ep, 'cn, 'jq, 'rq, 'w) threads \<Rightarrow> (unit, give_up) res \<times> ('t, 'r, 'ep, 'cn, 'jq, 'rq, 'w) threads" where
  "example_main X O' R E = (\<lambda>(ts, w).
     case prepare_tx X of
       Err (Exit_2 ls) \<Rightarrow> (Err (Exit_2 ls), ts, print_all O' (map (Pair Stderr) ls) w)
     | r \<Rightarrow> bind_st (r, ts, w) (\<lambda>p x. send_prepared X O' R E p x))"

section \<open>Lemmas\<close>

lemma prepare_tx_fits: "prepare_tx X = Ok p \<Longrightarrow> length (pt_bytes p) \<le> MAX_TX_LEN"
  by (auto simp: prepare_tx_def bind_res_Ok_iff Let_def split: if_splits)

lemma prepare_tx_signed:
  assumes "prepare_tx X = Ok p"
  shows "\<exists>keypair txn. new_signed_with_payer X
      [SetComputeUnitLimit (pt_cu_limit p), SetComputeUnitPrice (pt_cu_price p),
       TransferLamports (pt_payer p) (pt_tip_account p) (pt_tip_lamports p)] (pt_payer p) keypair (pt_blockhash p) = Ok txn
    \<and> keypair_pubkey X keypair = pt_payer p \<and> bincode_serialize X txn = Ok (pt_bytes p)"
  using assms by (clarsimp simp: prepare_tx_def bind_res_Ok_iff Let_def split: if_splits) blast

text \<open>Giving up before the summary prints the reason, starts no thread and changes nothing else.\<close>

lemma example_main_gives_up:
  assumes "prepare_tx X = Err (Exit_2 ls)"
  shows "example_main X O' R E (ts, w) = (Err (Exit_2 ls), ts, print_all O' (map (Pair Stderr) ls) w)"
  using assms by (simp add: example_main_def)

lemma prepare_tx_usage:
  assumes "env_var X ''TXSENDER_ENDPOINT'' = None \<or> env_var X ''TXSENDER_ENDPOINT'' = Some []"
  shows "prepare_tx X = Err (Exit_2 ([''missing required environment variable: TXSENDER_ENDPOINT'', []] @ USAGE))"
  using assms by (auto simp: prepare_tx_def require_def usage_and_exit_def)

text \<open>What the worker slices out of the array is the prepared transaction.\<close>

lemma example_source_exact:
  assumes "length bs \<le> MAX_TX_LEN" and "length outb = MAX_TX_LEN"
  shows "\<exists>len sc. example_source bs (provider_of_index 0) j outb w = (len, sc, w)
    \<and> unat len \<le> length sc \<and> length sc = MAX_TX_LEN \<and> take (unat len) sc = bs"
  using prepared_fill_fits(1) [OF assms, where 'a = unit] prepared_fill_fits(2) [OF assms] assms
  by (simp add: example_source_def)

lemma example_builder_sel:
  "sb_providers (example_builder O' tl_cfg p) = [example_provider (pt_endpoint p) (pt_auth p)]"
  "sb_transport (example_builder O' tl_cfg p) = Some \<lparr>engine_kind = SeqUring BatchSyscall \<lparr>sqpoll = None\<rparr>\<rparr>"
  "sb_tls (example_builder O' tl_cfg p) = Some tl_cfg"
  "sb_source (example_builder O' tl_cfg p) = Some (example_source (pt_bytes p))"
  "sb_sink (example_builder O' tl_cfg p) = Some (\<lambda>oc. sink_update O' (print_sink_on_result oc))"
  by (simp_all add: example_builder_def set_sink_def set_source_def add_provider_def set_tls_def set_transport_def
      sequential_io_uring_def sender_builder_new_def)

text \<open>The example leaves the body template to the default one.\<close>

lemma example_benign:
  assumes "clean_line (ep_path ep)" and "clean_line (ep_server_name ep)" and "clean_auth au"
    and "length (ep_path ep) + length (ep_server_name ep) + auth_size au < 2 ^ 30"
  shows "benign (envelope_builder (example_provider ep au))"
    and "small_request (envelope_builder (example_provider ep au))"
    and "max_body (envelope_builder (example_provider ep au)) = EXAMPLE_MAX_BODY"
proof -
  show "benign (envelope_builder (example_provider ep au))"
    using assms(1-3)
    by (cases au) (simp_all add: benign_def envelope_builder_def example_provider_def builder_new_def
        builder_auth_placement_def header_lines_def request_path_def clean_line_append find_unique_default default_no_cl)
  have "length DEFAULT_BODY < 200" by (simp add: DEFAULT_BODY_def)
  then show "small_request (envelope_builder (example_provider ep au))"
    using assms(3,4)
    by (cases au) (simp_all add: small_request_def envelope_builder_def example_provider_def builder_new_def
        builder_auth_placement_def header_lines_def request_path_def EXAMPLE_MAX_BODY_def CL_NAME_def)
  show "max_body (envelope_builder (example_provider ep au)) = EXAMPLE_MAX_BODY"
    by (simp add: Let_def envelope_builder_def example_provider_def builder_new_def builder_auth_placement_def)
qed

text \<open>A sequential build hands out a fresh trigger ring.\<close>

lemma build_seq_dispatch:
  assumes "build_seq E wrap io mk k ps tl_cfg source result_tx resps dg x = (Ok (d, hs, rc), y)"
  shows "d = Single (channel (se_job_ring E) TRIGGER_RING)"
  using assms
  by (auto simp: build_seq_def bind_st_Ok Let_def split: prod.splits)

lemma example_build_dispatch:
  assumes "sender_build E (example_builder O' tl_cfg p) x = (Ok s, y)"
  shows "sn_dispatch s = Single (channel (se_job_ring E) TRIGGER_RING)"
  using assms
  by (auto simp: sender_build_def example_builder_sel build_engine_def bind_st_Ok Let_def
      split: prod.splits dest: build_seq_dispatch)

text \<open>The world in which \<open>main\<close> builds the sender: the summary is printed and the channel is new.\<close>

definition before_build ::
  "('kp, 'pk, 'hash, 'txn) example_env \<Rightarrow> 'w example_io \<Rightarrow> ('pk, 'hash) prepared_tx \<Rightarrow> 'w \<Rightarrow> 'w" where
  "before_build X O' p w =
     sink_update O' (\<lambda>_. \<lparr>ps_poisoned = False, ps_connected = True, ps_sent = []\<rparr>)
       (print_all O' (map (Pair Stderr) (summary_lines X p)) w)"

section \<open>Properties\<close>


text \<open>
  C16. Once the example's sender is built, \<open>main\<close> cannot fail: the sender has one trigger ring, which is empty,
  so the trigger is never refused and the ring holds exactly the job with id 1; \<open>main\<close> then waits once for
  an outcome, prints the lines of that outcome, and shuts the sender down, which ignores threads
  that have panicked.
\<close>

theorem example_main_runs:
  assumes "rtrb_ring (se_job_ring E) items cap" and "prepare_tx X = Ok p"
    and "sender_build E (example_builder O' (real_roots_client_config R) p) (ts, before_build X O' p w) = (Ok s, ts', w1)"
    and "recv_timeout O' 10000 w1 = (oc, w2)"
  shows "\<exists>c. items (inner c) = [\<lparr>job_id = 1, job_ctx = 0\<rparr>] \<and> counter c = 1
    \<and> example_main X O' R E (ts, w)
      = (case shutdown E (s\<lparr>sn_dispatch := Single c\<rparr>) (print_all O' (report_lines (debug_transport O') oc) w2) of
           (r, w3) \<Rightarrow> (discard r, ts', w3))"
proof -
  let ?R = "se_job_ring E" and ?j = "\<lparr>job_id = 1, job_ctx = 0\<rparr>"
  have d: "sn_dispatch s = Single (channel ?R TRIGGER_RING)" by (rule example_build_dispatch [OF assms(3)])
  have room: "has_room items cap (channel ?R TRIGGER_RING)"
    using rtrb_ring.new_items [OF assms(1)] rtrb_ring.new_cap [OF assms(1)]
    by (simp add: has_room_def channel_def TRIGGER_RING_def)
  obtain r c where c: "try_push ?R ?j (channel ?R TRIGGER_RING) = (r, c)" "is_ok r"
    "pushed_to items cap ?j (channel ?R TRIGGER_RING) c"
    using rtrb_ring.try_push_pushed [OF assms(1)] room by metis
  have t: "sender_trigger ?R ?j s = (Ok (), s\<lparr>sn_dispatch := Single c\<rparr>)"
    using c by (simp add: sender_trigger_def trigger_def d)
  have "items (inner c) = [?j]" "counter c = 1"
    using c(3) room rtrb_ring.new_items [OF assms(1)] by (simp_all add: pushed_to_def channel_def notifier_new_def)
  moreover have "example_main X O' R E (ts, w)
      = (case shutdown E (s\<lparr>sn_dispatch := Single c\<rparr>) (print_all O' (report_lines (debug_transport O') oc) w2) of
           (r, w3) \<Rightarrow> (discard r, ts', w3))"
    using assms(3,4) by (simp add: example_main_def assms(2) send_prepared_def before_build_def t Let_def)
  ultimately show ?thesis by blast
qed

section \<open>A small run\<close>

text \<open>The four required variables and a blockhash are set; the lines printed are kept in the world.\<close>

definition sample_example :: "(unit, bytes, bytes, bytes) example_env" where
  "sample_example =
     \<lparr>env_var = map_of [(''TXSENDER_ENDPOINT'', ''h.io/v1''), (''TXSENDER_KEYPAIR'', ''k''), (''TXSENDER_TIP_ACCOUNT'', ''tip''),
        (''TXSENDER_TIP_LAMPORTS'', ''7''), (''TXSENDER_BLOCKHASH'', ''bh'')],
      read_to_string = (\<lambda>_. None), keypair_try_from = (\<lambda>_. Err []), keypair_from_base58 = (\<lambda>_. Ok ()),
      keypair_pubkey = (\<lambda>_. ''me''), pubkey_from_str = Ok, hash_from_str = Ok, get_latest_blockhash = (\<lambda>_. Err []),
      parse_int_error = (\<lambda>_. []), new_signed_with_payer = (\<lambda>ins payer _ h. Ok (payer @ h)), bincode_serialize = Ok,
      tx_signatures = (\<lambda>_. [''sig'']), show_pubkey = id, show_hash = id\<rparr>"

definition sample_tx :: "(bytes, bytes) prepared_tx" where
  "sample_tx =
     \<lparr>pt_endpoint = \<lparr>ep_host = ''h.io'', ep_port = 443, ep_path = ''/v1'', ep_server_name = ''h.io''\<rparr>,
      pt_payer = ''me'', pt_tip_account = ''tip'', pt_tip_lamports = 7, pt_cu_price = 100000, pt_cu_limit = 100000,
      pt_auth = NoAuth, pt_blockhash = ''bh'', pt_bytes = ''mebh'', pt_signature = ''sig''\<rparr>"

lemma sample_prepared: "prepare_tx sample_example = Ok sample_tx"
  by (simp add: prepare_tx_def sample_example_def sample_tx_def require_def load_keypair_def resolve_auth_def resolve_blockhash_def
      env_number_def parse_endpoint_def find_char_def rsplit_once_def parse_unsigned_def MAX_TX_LEN_def Let_def
      DEFAULT_CU_PRICE_def DEFAULT_CU_LIMIT_def is_ascii_digit_def)

lemma sample_tx_clean:
  "clean_line (ep_path (pt_endpoint sample_tx))" "clean_line (ep_server_name (pt_endpoint sample_tx))" "clean_auth (pt_auth sample_tx)"
  by (simp_all add: sample_tx_def clean_line_def utf8_ok_ascii_Cons)


text \<open>A provider that accepts connections over \<open>io_uring\<close> and never answers.\<close>

definition sample_io :: "(nat \<times> bytes list) example_io" where
  "sample_io = \<lparr>print_line = (\<lambda>_ l (n, ls). (n, ls @ [l])), recv_timeout = (\<lambda>_ w. (None, w)), sink_update = (\<lambda>_ w. w),
     debug_transport = (\<lambda>_. [])\<rparr>"

definition sample_roots :: "(unit, unit, bytes tls_ops) root_ops" where
  "sample_roots = \<lparr>tls_server_roots = [], store_empty = (), store_extend = (\<lambda>_ _. ()), no_auth_config = (\<lambda>_. null_tls)\<rparr>"

definition uring_env ::
  "(bytes, unit, unit, bytes list, unit, unit, unit, unit, unit, nat \<times> job list, nat \<times> raw_resp list, nat \<times> bytes list) sender_env" where
  "uring_env = (sample_env True)\<lparr>se_uring := sample_uring\<lparr>ring_build := (\<lambda>_ _ w. (Ok (), w)), ur_os := sample_libc True\<rparr>\<rparr>"

lemma uring_env_connects:
  "\<exists>c. connect_one (conn_env uring_env (io_uring (se_uring uring_env)) null_tls) [example_provider (pt_endpoint sample_tx) (pt_auth sample_tx)] 0
       (make_uring (se_uring uring_env) BatchSyscall \<lparr>sqpoll = None\<rparr>) w = (Ok (Http_Conn c), w)"
proof -
  have "length (ep_path (pt_endpoint sample_tx)) + length (ep_server_name (pt_endpoint sample_tx)) + auth_size (pt_auth sample_tx) < 2 ^ 30"
    by (simp add: sample_tx_def)
  then obtain t where "compile (build_envelope (example_provider (pt_endpoint sample_tx) (pt_auth sample_tx))) = Ok t"
    using compile_benign example_benign [OF sample_tx_clean] unfolding build_envelope_def by blast
  moreover have "pc_protocol (example_provider (pt_endpoint sample_tx) (pt_auth sample_tx)) = Http_Protocol"
    by (simp add: example_provider_def)
  ultimately show ?thesis
    by (simp add: connect_one_def index_def connect_http_def make_uring_def uring_new_def connect_with_def conn_env_def
        io_uring_def uring_connect_def uring_env_def sample_env_def sample_uring_def sample_libc_def log_os_def engine_new_def
        null_tls_def handshake_loop.simps is_handshaking_def Let_def)
qed

lemma uring_env_builds:
  "\<exists>s ts' w'. sender_build uring_env (example_builder sample_io null_tls sample_tx) ([], w) = (Ok s, ts', w')"
proof -
  have "\<exists>ds. connect_dual_all (conn_env uring_env (io_uring (se_uring uring_env)) null_tls) [example_provider (pt_endpoint sample_tx) (pt_auth sample_tx)]
       (make_uring (se_uring uring_env) BatchSyscall \<lparr>sqpoll = None\<rparr>) w = (Ok ds, w)" for w
    using uring_env_connects [of w] by (auto simp: connect_dual_all_def)
  then obtain D where D: "\<And>w. connect_dual_all (conn_env uring_env (io_uring (se_uring uring_env)) null_tls)
      [example_provider (pt_endpoint sample_tx) (pt_auth sample_tx)]
      (make_uring (se_uring uring_env) BatchSyscall \<lparr>sqpoll = None\<rparr>) w = (Ok (D w), w)" by metis
  have "thread_spawn uring_env w = (True, w)" for w by (simp add: uring_env_def sample_env_def)
  then show ?thesis
    by (simp add: sender_build_def example_builder_sel build_engine_def build_seq_def spawn_seq_def spawn_thread_def
        reconnect_spawn_def Let_def D split: prod.split)
qed

theorem example_main_runs_witness:
  "\<exists>w'. example_main sample_example sample_io sample_roots uring_env ([], 0, []) = (Ok (), w')
    \<and> last (snd (snd w')) = ''timed out waiting for an outcome''"
proof -
  let ?w = "before_build sample_example sample_io sample_tx (0, [])"
  obtain s ts' w1 where b: "sender_build uring_env (example_builder sample_io null_tls sample_tx) ([], ?w) = (Ok s, ts', w1)"
    using uring_env_builds by blast
  have R: "se_job_ring uring_env = list_ring" "real_roots_client_config sample_roots = null_tls"
    by (simp_all add: uring_env_def sample_env_def real_roots_client_config_def sample_roots_def)
  have oc: "recv_timeout sample_io 10000 w1 = (None, w1)" by (simp add: sample_io_def)
  have J: "join_all uring_env hs w = (Ok (), w)" for hs w
    by (induction hs) (simp_all add: uring_env_def sample_env_def)
  have S: "\<exists>r. shutdown uring_env s' w = (r, w) \<and> discard r = Ok ()" for s' w
    by (simp add: shutdown_def J reconnect_join_def split: option.split) (simp add: uring_env_def sample_env_def)
  let ?w2 = "print_all sample_io (report_lines (debug_transport sample_io) None) w1"
  obtain c where M: "example_main sample_example sample_io sample_roots uring_env ([], 0, [])
      = (case shutdown uring_env (s\<lparr>sn_dispatch := Single c\<rparr>) ?w2 of (r, w3) \<Rightarrow> (discard r, ts', w3))"
    using example_main_runs [of uring_env snd fst sample_example sample_tx sample_io sample_roots "[]" "(0, [])" s ts' w1 None w1]
      b oc sample_prepared lr.rtrb_ring_axioms R by auto
  obtain r where "shutdown uring_env (s\<lparr>sn_dispatch := Single c\<rparr>) ?w2 = (r, ?w2)" "discard r = Ok ()"
    using S by blast
  with M have "example_main sample_example sample_io sample_roots uring_env ([], 0, []) = (Ok (), ts', ?w2)" by simp
  moreover have "last (snd ?w2) = ''timed out waiting for an outcome''"
    by (cases w1) (simp add: print_all_def report_lines_def sample_io_def)
  ultimately show ?thesis by auto
qed

end
