(* ===== verification/Spec2Isabelle.thy ===== *)
theory Spec2Isabelle
  imports System_Jobs System_Seq System_Answer System_Wire System_Failover Profiling Example_Main
begin

text \<open>
  A verification of \<open>tx-sender\<close>, a Rust library that submits Solana transactions to several
  providers at once.

  \<^bold>\<open>The program.\<close> A user builds a \<open>Sender\<close> (\<open>transport/builder.rs\<close>) from a transport, a list of
  provider configurations, a transaction source and a result sink, and then triggers jobs. A
  trigger only pushes the job on rings (\<open>rt/spsc.rs\<close>); worker threads pop it, ask the source for
  the bytes of the transaction and send them to their providers. There is either one worker for
  all providers (\<open>transport/sequential.rs\<close>) or one per provider (\<open>transport/parallel.rs\<close>). A
  provider is reached over HTTP on TLS (\<open>protocol/http\<close>) on top of a byte transport (\<open>backend\<close>:
  plain sockets, \<open>io_uring\<close>, libtpa) or over QUIC (\<open>protocol/quic.rs\<close>). Every provider has an
  active connection and a standby (\<open>conn/mod.rs\<close>); a worker whose connection fails swaps them
  and asks the reconnect thread (\<open>conn/reconnect.rs\<close>) for a new one. Raw responses go over rings
  to the result lane (\<open>result_lane.rs\<close>), which turns them into outcomes with the provider's codec
  (\<open>provider/response.rs\<close>) and calls the sink. Idle threads wait with monitor instructions
  (\<open>rt/wait.rs\<close>).

  \<^bold>\<open>How it is modelled.\<close> A fallible call returns the type \<open>res\<close> of \<open>Prelude\<close>: \<open>Ok\<close>, \<open>Err\<close>, \<open>Panic\<close> or
  \<open>Hang\<close>. State is passed explicitly; \<open>'w\<close> is the world outside of the process. Bytes are
  characters, strings their UTF-8 bytes, fixed-width integers words with the wrap-around of the
  release profile. A loop that need not end is a \<open>partial_function\<close> whose value is \<open>None\<close> when it
  does not; no fuel is used anywhere. Code that is not part of the crate is a record of
  functions and every definition takes it as an argument: \<open>tls_ops\<close> (rustls), \<open>ring_ops\<close>
  (rtrb), \<open>xchan_ops\<close> (crossbeam), \<open>libc_ops\<close> (system calls), \<open>uring_ops\<close>, \<open>tpa_ops\<close>, \<open>quinn\<close>
  (quinn-proto), \<open>cert_ops\<close> (rcgen), \<open>hw_ops\<close> (processor), \<open>rt_ops\<close> (scheduling), \<open>prof_ops\<close> (quanta
  and hdrhistogram), \<open>root_ops\<close> (the root store), the base64 encoder, and for the example the Solana
  crates (\<open>example_env\<close>) and its console and channel (\<open>example_io\<close>). What is assumed of them is stated as locales
  (\<open>base64_standard\<close>, \<open>rtrb_ring\<close> with its consequence \<open>spsc_queue\<close>, \<open>crossbeam_channels\<close>) and as named
  predicates (\<open>tls_delivers\<close>, \<open>tls_returns\<close>, \<open>tls_seals\<close>, \<open>stream_socket\<close>, \<open>unblocks\<close>, \<open>steady_clock\<close>,
  \<open>settles\<close>, \<open>uring_contract\<close>, \<open>clock_quiet\<close>, \<open>hist_blind\<close>), each with a concrete instance.

  \<^bold>\<open>Theories.\<close>
  \<^item> \<open>Prelude\<close>: results, binding, slices and vectors with their panics, searching. \<open>Rust_Std\<close>: the parts
    of the standard library the crate uses (UTF-8, \<open>trim\<close>, \<open>lines\<close>, number parsing and printing,
    I/O errors). \<open>Core_Types\<close>: \<open>error.rs\<close>, \<open>job.rs\<close>, \<open>sink.rs\<close>, \<open>provider/mod.rs\<close>, \<open>transport/health.rs\<close>.
  \<^item> \<open>Envelope\<close>, \<open>Envelope_Frame\<close>: \<open>spec_builder.rs\<close> and \<open>envelope.rs\<close>. Building, compiling and splicing
    give exactly the request frame, for every history of earlier splices.
  \<^item> \<open>Http_Engine\<close>: \<open>engine.rs\<close>. A response is returned exactly once under any segmentation; the
    request frame is a message the reader itself accepts; calls return; overflow of the announced
    length panics; a header without a length blocks the engine; pipelined bytes are dropped.
  \<^item> \<open>Response\<close>: the JSON-RPC codec of \<open>provider/response.rs\<close>, with round trips for errors and results.
  \<^item> \<open>Spsc\<close>, \<open>Idle_Wait\<close>, \<open>Result_Lane\<close>: \<open>rt/spsc.rs\<close>, \<open>rt/wait.rs\<close>, \<open>result_lane.rs\<close>. Channels are bounded
    FIFOs; a wait arms the monitor before it looks and never sleeps without a timeout; a pass of
    the lane delivers everything once and in order.
  \<^item> \<open>Raw_Libc\<close>, \<open>Io_Uring\<close>, \<open>Libtpa\<close>: \<open>backend\<close>. What a socket delivers; that buffers shared with the
    kernel stay reserved while requests are out; addresses and endpoints of libtpa.
  \<^item> \<open>Conn\<close>, \<open>Reconnect\<close>: \<open>conn\<close>. Connections, pairs of connections, the reconnect thread.
  \<^item> \<open>Quic\<close>, \<open>Quic_Cert\<close>: \<open>protocol/quic.rs\<close>, \<open>protocol/quic_cert.rs\<close>. The handshake returns; what a send
    puts on the network; the DER document of the client key.
  \<^item> \<open>Registry\<close>, \<open>Connect\<close>: \<open>provider/registry.rs\<close>, \<open>transport/connect.rs\<close>. Every HTTP preset compiles and
    takes every transaction. \<open>Connect\<close> also has the default TLS root store.
  \<^item> \<open>Worker_Par\<close>, \<open>Worker_Props\<close>, \<open>Worker_Seq\<close>, \<open>Worker_Refine\<close>: the two workers. Iterations complete;
    failover; accounting; the sequential worker refines the parallel one provider by provider and
    is the same program for one provider.
  \<^item> \<open>Transport_Spec\<close>, \<open>Sender\<close>, \<open>Sender_Props\<close>: \<open>transport/mod.rs\<close>, \<open>rt/mod.rs\<close>, \<open>transport/spawn.rs\<close>,
    \<open>transport/builder.rs\<close>. Fan-out of a trigger, wiring of a build, what a failed build leaves.
  \<^item> \<open>Profiling\<close>: both workers as the feature \<open>profiling\<close> compiles them, with \<open>hist_snap\<close>. The profiled
    loops do what the plain ones do, apart from the histograms.
  \<^item> \<open>System_Wire\<close>, \<open>System_Jobs\<close>, \<open>System_Seq\<close>, \<open>System_Answer\<close>, \<open>System_Failover\<close>: properties across
    components. What the peer reads for a transaction; that the outcomes of every provider are
    triggered jobs, each at most as often as it was triggered, for the parallel and for the
    sequential transport; that a triggered job with a response is reported to the sink; what a
    failover and the reconnect thread leave, whether the connection can be rebuilt or not.
  \<^item> \<open>Send_Real_Tx\<close>: the parsers, the environment and the signing of \<open>examples/send_real_tx.rs\<close>, with round
    trips. \<open>Example_Main\<close>: its \<open>main\<close>, which cannot fail once the sender is built, and whose request
    carries exactly the signed transaction.

  \<^bold>\<open>Threads.\<close> Worker, lane and reconnect thread are each modelled by one iteration of their loop and
  by the loop. \<open>System_Jobs\<close> interleaves whole iterations of the parallel workers with triggers,
  passes of the lane and arbitrary changes of the world, which stand for the reconnect thread and
  the peers. A worker shares with other threads the rings, the reconnect channels, the stop flag
  and the cell of its diagnostics; the latter three are operations on the world. Interleaving
  inside an iteration and relaxed memory order are not modelled. A worker that panics takes no
  further step there. \<open>System_Seq\<close> does the same for the sequential worker, projecting its state to one
  provider at a time. In \<open>System_Answer\<close> the worlds in which the iterations run are arbitrary. The
  threads that a build starts, the example's included, are the list it returns; \<open>Example_Main\<close> does
  not run them beside \<open>main\<close>, and what they send to \<open>main\<close> is the answer of \<open>recv_timeout\<close>.

  \<^bold>\<open>Not modelled.\<close>
  \<^item> Accessors that only return an address or a field (\<open>monitor_addr\<close>, \<open>next_timeout\<close>, \<open>worker\<close>) and
    the \<open>Send\<close>/\<open>Sync\<close> declarations.
  \<^item> Rings, channels and cells at the level of atomic instructions: their memory order and steps inside
    one iteration of a thread.
  \<^item> Tests and benchmarks.
\<close>

end
